theory Spec2Isabelle
  imports Main "HOL-Library.Word"
begin

unbundle bit_operations_syntax

section \<open>Machine types and constants of the QSPI flash controller driver\<close>

text \<open>
  The driver is the C file of the Xilinx Alveo QSPI flash controller. Its integers are
  modelled with their widths: \<open>u8\<close>, \<open>u32\<close>, and 64-bit words for both \<open>size_t\<close>
  (unsigned) and \<open>loff_t\<close> (signed; only its bit pattern is ever used: the shifts of
  \<open>qspi_offset2faddr\<close> are followed by a cast to \<open>u8\<close>, the comparison in
  \<open>is_valid_offset\<close> is against a \<open>size_t\<close> and therefore unsigned).
\<close>

type_synonym u8 = "8 word"
type_synonym u32 = "32 word"
type_synonym size_t = "64 word"
type_synonym loff_t = "64 word"

text \<open>
  The negative return codes of the driver. \<open>EOVERRUN\<close> is not a C error code: it marks
  the places where the C code would read or write \<open>io_buf\<close> outside the bytes that were
  allocated for it (undefined behaviour in C), so that such a run is a visible outcome.
\<close>

datatype errno = EINVAL | ETIMEDOUT | EOPNOTSUPP | EFAULT | ENOMEM | ENOSPC | EOVERRUN

definition QSPI_CMD_PAGE_PROGRAM :: u8 where "QSPI_CMD_PAGE_PROGRAM = 0x02"
definition QSPI_CMD_STATUSREG_READ :: u8 where "QSPI_CMD_STATUSREG_READ = 0x05"
definition QSPI_CMD_WRITE_ENABLE :: u8 where "QSPI_CMD_WRITE_ENABLE = 0x06"
definition QSPI_CMD_4KB_SUBSECTOR_ERASE :: u8 where "QSPI_CMD_4KB_SUBSECTOR_ERASE = 0x20"
definition QSPI_CMD_QUAD_WRITE :: u8 where "QSPI_CMD_QUAD_WRITE = 0x32"
definition QSPI_CMD_32KB_SUBSECTOR_ERASE :: u8 where "QSPI_CMD_32KB_SUBSECTOR_ERASE = 0x52"
definition QSPI_CMD_QUAD_READ :: u8 where "QSPI_CMD_QUAD_READ = 0x6B"
definition QSPI_CMD_EXTENDED_ADDRESS_REG_WRITE :: u8 where
  "QSPI_CMD_EXTENDED_ADDRESS_REG_WRITE = 0xC5"
definition QSPI_CMD_SECTOR_ERASE :: u8 where "QSPI_CMD_SECTOR_ERASE = 0xD8"

definition QSPI_CR_TXFIFO_RESET :: u32 where "QSPI_CR_TXFIFO_RESET = 0x20"
definition QSPI_CR_RXFIFO_RESET :: u32 where "QSPI_CR_RXFIFO_RESET = 0x40"
definition QSPI_CR_TRANS_INHIBIT :: u32 where "QSPI_CR_TRANS_INHIBIT = 0x100"

definition QSPI_SR_RX_EMPTY :: u32 where "QSPI_SR_RX_EMPTY = 0x1"
definition QSPI_SR_RX_FULL :: u32 where "QSPI_SR_RX_FULL = 0x2"
definition QSPI_SR_TX_EMPTY :: u32 where "QSPI_SR_TX_EMPTY = 0x4"
definition QSPI_SR_TX_FULL :: u32 where "QSPI_SR_TX_FULL = 0x8"
definition QSPI_SR_MODE_ERR :: u32 where "QSPI_SR_MODE_ERR = 0x10"
definition QSPI_SR_CPOL_CPHA_ERR :: u32 where "QSPI_SR_CPOL_CPHA_ERR = 0x40"
definition QSPI_SR_SLAVE_MODE_ERR :: u32 where "QSPI_SR_SLAVE_MODE_ERR = 0x80"
definition QSPI_SR_MSB_ERR :: u32 where "QSPI_SR_MSB_ERR = 0x100"
definition QSPI_SR_LOOPBACK_ERR :: u32 where "QSPI_SR_LOOPBACK_ERR = 0x200"
definition QSPI_SR_CMD_ERR :: u32 where "QSPI_SR_CMD_ERR = 0x400"
definition QSPI_SR_ERRS :: u32 where
  "QSPI_SR_ERRS = (QSPI_SR_CMD_ERR OR QSPI_SR_LOOPBACK_ERR OR QSPI_SR_MSB_ERR OR
     QSPI_SR_SLAVE_MODE_ERR OR QSPI_SR_CPOL_CPHA_ERR OR QSPI_SR_MODE_ERR)"

definition MAX_NUM_OF_SLAVES :: int where "MAX_NUM_OF_SLAVES = 2"
definition SLAVE_NONE :: int where "SLAVE_NONE = - 1"
definition SLAVE_SELECT_NONE :: u32 where
  "SLAVE_SELECT_NONE = push_bit (nat MAX_NUM_OF_SLAVES) 1 - 1"

definition QSPI_LARGE_PAGE_SIZE :: size_t where "QSPI_LARGE_PAGE_SIZE = 32 * 1024"
definition QSPI_HUGE_PAGE_SIZE :: size_t where "QSPI_HUGE_PAGE_SIZE = 64 * 1024"
definition QSPI_PAGE_SIZE :: size_t where "QSPI_PAGE_SIZE = 4 * 1024"
definition QSPI_PAGE_MASK :: size_t where "QSPI_PAGE_MASK = QSPI_PAGE_SIZE - 1"

definition QSPI_PAGE_ALIGN :: "loff_t \<Rightarrow> loff_t" where
  "QSPI_PAGE_ALIGN off = off AND NOT QSPI_PAGE_MASK"

definition QSPI_PAGE_OFFSET :: "loff_t \<Rightarrow> size_t" where
  "QSPI_PAGE_OFFSET off = off AND QSPI_PAGE_MASK"

text \<open>The kernel's \<open>round_up(x, y)\<close> for a power of two \<open>y\<close> is \<open>((x - 1) | (y - 1)) + 1\<close>.\<close>

definition round_up :: "64 word \<Rightarrow> 64 word \<Rightarrow> 64 word" where
  "round_up x y = ((x - 1) OR (y - 1)) + 1"

definition QSPI_PAGE_ROUNDUP :: "loff_t \<Rightarrow> size_t" where
  "QSPI_PAGE_ROUNDUP offset =
     (if QSPI_PAGE_OFFSET offset \<noteq> 0 then round_up offset QSPI_PAGE_SIZE
      else offset + QSPI_PAGE_SIZE)"

text \<open>The kernel's \<open>IS_ALIGNED(x, a)\<close> is \<open>((x) & ((typeof(x))(a) - 1)) == 0\<close>.\<close>

definition IS_ALIGNED :: "64 word \<Rightarrow> 64 word \<Rightarrow> bool" where
  "IS_ALIGNED x a \<longleftrightarrow> x AND (a - 1) = 0"

text \<open>\<open>QSPI_BUSY_WAIT\<close> polls every 5 microseconds for at most one second.\<close>

definition QSPI_BUSY_RETRY :: nat where "QSPI_BUSY_RETRY = 1000 * 1000 div 5"

section \<open>Flash addresses\<close>

record qspi_flash_addr =
  slave :: u8
  sector :: u8
  addr_lo :: u8
  addr_mid :: u8
  addr_hi :: u8

definition qspi_offset2faddr :: "loff_t \<Rightarrow> qspi_flash_addr" where
  "qspi_offset2faddr addr =
     \<lparr> slave = ucast (drop_bit 56 addr),
       sector = ucast (drop_bit 24 addr),
       addr_lo = ucast addr,
       addr_mid = ucast (drop_bit 8 addr),
       addr_hi = ucast (drop_bit 16 addr) \<rparr>"

definition qspi_faddr2offset :: "qspi_flash_addr \<Rightarrow> loff_t" where
  "qspi_faddr2offset faddr =
     (let off = 0;
          off = off OR ucast (sector faddr);
          off = push_bit 8 off;
          off = off OR ucast (addr_hi faddr);
          off = push_bit 8 off;
          off = off OR ucast (addr_mid faddr);
          off = push_bit 8 off;
          off = off OR ucast (addr_lo faddr);
          off = off OR push_bit 56 (ucast (slave faddr))
      in off)"

definition qspi_get_page_io_size :: "loff_t \<Rightarrow> size_t \<Rightarrow> size_t" where
  "qspi_get_page_io_size off sz =
     (if IS_ALIGNED off QSPI_HUGE_PAGE_SIZE \<and> sz \<ge> QSPI_HUGE_PAGE_SIZE then QSPI_HUGE_PAGE_SIZE
      else if IS_ALIGNED off QSPI_LARGE_PAGE_SIZE \<and> sz \<ge> QSPI_LARGE_PAGE_SIZE
        then QSPI_LARGE_PAGE_SIZE
      else if IS_ALIGNED off QSPI_PAGE_SIZE \<and> sz \<ge> QSPI_PAGE_SIZE then QSPI_PAGE_SIZE
      else 0)"

text \<open>
  \<open>qspi_erase_cmd\<close>: the two \<open>WARN_ON\<close>s only log; the opcode is chosen by
  \<open>pagesz / 1024\<close> and is 0 when no case matches.
\<close>

definition qspi_erase_cmd :: "size_t \<Rightarrow> u8" where
  "qspi_erase_cmd pagesz =
     (let onek = 1024; k = pagesz div onek in
      if k = 4 then QSPI_CMD_4KB_SUBSECTOR_ERASE
      else if k = 32 then QSPI_CMD_32KB_SUBSECTOR_ERASE
      else if k = 64 then QSPI_CMD_SECTOR_ERASE
      else 0)"

section \<open>Register access\<close>

text \<open>
  The registers of \<open>struct qspi_reg\<close> that the driver touches. The hardware behind them
  is a parameter: a value of type \<open>'h\<close> is the state of the device, and a \<open>regio\<close>
  gives the meaning of \<open>ioread32\<close> and \<open>iowrite32\<close> on it (a read may change the device:
  reading \<open>qspi_rx\<close> pops the RX FIFO). Every function of the driver takes the \<open>regio\<close>
  as its first argument, so that a theorem about all \<open>regio\<close>s holds for every hardware
  behaviour, and a concrete one is a mock device.
\<close>

datatype qspi_reg = QSPI_RESET | QSPI_CTRL | QSPI_STATUS | QSPI_TX | QSPI_RX | QSPI_SLAVE
  | QSPI_TX_FIFO | QSPI_RX_FIFO

record 'h regio =
  ioread32 :: "'h \<Rightarrow> qspi_reg \<Rightarrow> u32 \<times> 'h"
  iowrite32 :: "'h \<Rightarrow> qspi_reg \<Rightarrow> u32 \<Rightarrow> 'h"

datatype qspi_flash_vendor = Micron | Macronix

fun vendor_id :: "qspi_flash_vendor \<Rightarrow> u8" where
  "vendor_id Micron = 0x20"
| "vendor_id Macronix = 0xc2"

fun write_cmd :: "qspi_flash_vendor \<Rightarrow> u8" where
  "write_cmd Micron = QSPI_CMD_QUAD_WRITE"
| "write_cmd Macronix = QSPI_CMD_PAGE_PROGRAM"

text \<open>
  \<open>struct xrt_qspi\<close>. The register block \<open>qspi_regs\<close> holds the state of the device;
  \<open>io_buf\<close> is the scratch buffer, a list of the bytes allocated for it
  (\<open>vmalloc(qspi_fifo_depth)\<close> in \<open>qspi_probe\<close>). The platform device, the resource and
  the lock have no part in the computation (one caller at a time).
\<close>

record 'h xrt_qspi =
  flash_size :: size_t
  io_buf :: "u8 list"
  qspi_regs :: 'h
  qspi_fifo_depth :: size_t
  qspi_curr_sector :: u8
  vendor :: qspi_flash_vendor
  qspi_curr_slave :: int

definition qspi_reg_rd :: "'h regio \<Rightarrow> 'h xrt_qspi \<Rightarrow> qspi_reg \<Rightarrow> u32 \<times> 'h xrt_qspi" where
  "qspi_reg_rd io flash reg =
     (case ioread32 io (qspi_regs flash) reg of (val, h) \<Rightarrow> (val, flash\<lparr>qspi_regs := h\<rparr>))"

definition qspi_reg_wr :: "'h regio \<Rightarrow> 'h xrt_qspi \<Rightarrow> qspi_reg \<Rightarrow> u32 \<Rightarrow> 'h xrt_qspi" where
  "qspi_reg_wr io flash reg val = flash\<lparr>qspi_regs := iowrite32 io (qspi_regs flash) reg val\<rparr>"

definition qspi_get_status :: "'h regio \<Rightarrow> 'h xrt_qspi \<Rightarrow> u32 \<times> 'h xrt_qspi" where
  "qspi_get_status io flash = qspi_reg_rd io flash QSPI_STATUS"

definition qspi_get_ctrl :: "'h regio \<Rightarrow> 'h xrt_qspi \<Rightarrow> u32 \<times> 'h xrt_qspi" where
  "qspi_get_ctrl io flash = qspi_reg_rd io flash QSPI_CTRL"

definition qspi_set_ctrl :: "'h regio \<Rightarrow> 'h xrt_qspi \<Rightarrow> u32 \<Rightarrow> 'h xrt_qspi" where
  "qspi_set_ctrl io flash ctrl = qspi_reg_wr io flash QSPI_CTRL ctrl"

text \<open>
  \<open>BIT(index)\<close> is only reached with an index 0 or 1 (the range check of
  \<open>qspi_transaction\<close>; the field is only ever assigned a \<open>u8\<close>).
\<close>

definition qspi_activate_slave :: "'h regio \<Rightarrow> 'h xrt_qspi \<Rightarrow> int \<Rightarrow> 'h xrt_qspi" where
  "qspi_activate_slave io flash index =
     (let slave_reg = (if index = SLAVE_NONE then SLAVE_SELECT_NONE
                       else NOT (push_bit (nat index) 1))
      in qspi_reg_wr io flash QSPI_SLAVE slave_reg)"

definition qspi_read8 :: "'h regio \<Rightarrow> 'h xrt_qspi \<Rightarrow> u8 \<times> 'h xrt_qspi" where
  "qspi_read8 io flash = (case qspi_reg_rd io flash QSPI_RX of (v, f) \<Rightarrow> (ucast v, f))"

definition qspi_send8 :: "'h regio \<Rightarrow> 'h xrt_qspi \<Rightarrow> u8 \<Rightarrow> 'h xrt_qspi" where
  "qspi_send8 io flash val = qspi_reg_wr io flash QSPI_TX (ucast val)"

definition qspi_has_err :: "'h regio \<Rightarrow> 'h xrt_qspi \<Rightarrow> bool \<times> 'h xrt_qspi" where
  "qspi_has_err io flash =
     (case qspi_get_status io flash of (status, f) \<Rightarrow> (status AND QSPI_SR_ERRS \<noteq> 0, f))"

section \<open>The transaction engine\<close>

text \<open>
  \<open>QSPI_BUSY_WAIT(condition)\<close>: \<open>retry\<close> counts down from \<open>QSPI_BUSY_RETRY\<close>; the
  condition is evaluated (with its register reads) while \<open>retry\<close> is not 0, and the
  macro's value is \<open>retry == 0\<close>, "timed out".
\<close>

fun busy_wait :: "('s \<Rightarrow> bool \<times> 's) \<Rightarrow> nat \<Rightarrow> 's \<Rightarrow> bool \<times> 's" where
  "busy_wait cond 0 s = (True, s)"
| "busy_wait cond (Suc retry) s =
     (case cond s of
        (True, s') \<Rightarrow> (False, s')
      | (False, s') \<Rightarrow> busy_wait cond retry s')"

definition QSPI_BUSY_WAIT :: "('s \<Rightarrow> bool \<times> 's) \<Rightarrow> 's \<Rightarrow> bool \<times> 's" where
  "QSPI_BUSY_WAIT cond s = busy_wait cond QSPI_BUSY_RETRY s"

text \<open>
  The loop of \<open>qspi_rx\<close> over \<open>cnt < len\<close>: the result is whether all \<open>len\<close> bytes were
  pulled, and the bytes pulled so far (they have been stored into \<open>buf[0..cnt)\<close> when
  \<open>buf\<close> is not \<open>NULL\<close>).
\<close>

fun qspi_rx_pull :: "'h regio \<Rightarrow> nat \<Rightarrow> 'h xrt_qspi \<Rightarrow> bool \<times> u8 list \<times> 'h xrt_qspi" where
  "qspi_rx_pull io 0 flash = (True, [], flash)"
| "qspi_rx_pull io (Suc k) flash =
     (case qspi_get_status io flash of (status, f1) \<Rightarrow>
        if status AND QSPI_SR_RX_EMPTY \<noteq> 0 then (False, [], f1)
        else (case qspi_read8 io f1 of (c, f2) \<Rightarrow>
                (case qspi_rx_pull io k f2 of (ok, cs, f3) \<Rightarrow> (ok, c # cs, f3))))"

text \<open>
  \<open>qspi_rx(flash, buf, len)\<close>: \<open>buf\<close> is \<open>None\<close> for \<open>NULL\<close>, else the \<open>len\<close> bytes
  \<open>buf[0..len)\<close>; the bytes pulled overwrite its front.
\<close>

definition qspi_rx ::
  "'h regio \<Rightarrow> 'h xrt_qspi \<Rightarrow> u8 list option \<Rightarrow> nat \<Rightarrow> (errno + unit) \<times> u8 list option \<times> 'h xrt_qspi"
where
  "qspi_rx io flash buf len =
     (case qspi_rx_pull io len flash of (ok, cs, f1) \<Rightarrow>
        let buf' = map_option (\<lambda>b. cs @ drop (length cs) b) buf in
        if \<not> ok then (Inl EINVAL, buf', f1)
        else (case qspi_get_status io f1 of (status, f2) \<Rightarrow>
          if status AND QSPI_SR_RX_EMPTY = 0 then (Inl EINVAL, buf', f2)
          else (case qspi_has_err io f2 of (err, f3) \<Rightarrow>
            if err then (Inl EINVAL, buf', f3) else (Inr (), buf', f3))))"

text \<open>
  \<open>qspi_tx(flash, buf, len)\<close> with \<open>buf\<close> the \<open>len\<close> bytes to send. The \<open>WARN_ON\<close>
  on \<open>len > qspi_fifo_depth\<close> only logs. When the wait times out the C code reads the
  status once more for its log message (twice when no error bit is set).
\<close>

definition qspi_tx :: "'h regio \<Rightarrow> 'h xrt_qspi \<Rightarrow> u8 list \<Rightarrow> (errno + unit) \<times> 'h xrt_qspi" where
  "qspi_tx io flash buf =
     (case qspi_get_ctrl io flash of (ctrl, f1) \<Rightarrow>
        let f2 = qspi_set_ctrl io f1 (ctrl OR QSPI_CR_TRANS_INHIBIT);
            f3 = fold (\<lambda>b f. qspi_send8 io f b) buf f2;
            f4 = qspi_set_ctrl io f3 (ctrl AND NOT QSPI_CR_TRANS_INHIBIT)
        in (case QSPI_BUSY_WAIT (\<lambda>f. case qspi_get_status io f of (status, f') \<Rightarrow>
                    (status AND (QSPI_SR_TX_EMPTY OR QSPI_SR_ERRS) \<noteq> 0, f')) f4 of
              (True, f5) \<Rightarrow>
                (case qspi_has_err io f5 of
                   (True, f6) \<Rightarrow> (Inl ETIMEDOUT, f6)
                 | (False, f6) \<Rightarrow> (Inl ETIMEDOUT, snd (qspi_get_status io f6)))
            | (False, f5) \<Rightarrow>
                let f6 = qspi_set_ctrl io f5 (ctrl OR QSPI_CR_TRANS_INHIBIT) in
                (case qspi_has_err io f6 of
                   (True, f7) \<Rightarrow> (Inl EINVAL, f7)
                 | (False, f7) \<Rightarrow> (Inr (), f7))))"

definition status_fifo_mask :: u32 where
  "status_fifo_mask = (QSPI_SR_TX_FULL OR QSPI_SR_RX_FULL OR QSPI_SR_TX_EMPTY OR QSPI_SR_RX_EMPTY)"

definition qspi_reset_fifo :: "'h regio \<Rightarrow> 'h xrt_qspi \<Rightarrow> (errno + unit) \<times> 'h xrt_qspi" where
  "qspi_reset_fifo io flash =
     (case qspi_get_status io flash of (status, f1) \<Rightarrow>
        let fifo_status = status AND status_fifo_mask in
        if fifo_status = (QSPI_SR_TX_EMPTY OR QSPI_SR_RX_EMPTY) then (Inr (), f1)
        else (case qspi_get_ctrl io f1 of (ctrl, f2) \<Rightarrow>
          let f3 = qspi_set_ctrl io f2 (ctrl OR QSPI_CR_TXFIFO_RESET OR QSPI_CR_RXFIFO_RESET) in
          (case QSPI_BUSY_WAIT (\<lambda>f. case qspi_get_status io f of (st, f') \<Rightarrow>
                    (st AND status_fifo_mask = (QSPI_SR_TX_EMPTY OR QSPI_SR_RX_EMPTY), f')) f3 of
             (True, f4) \<Rightarrow> (Inl ETIMEDOUT, snd (qspi_get_status io f4))
           | (False, f4) \<Rightarrow> (Inr (), f4))))"

text \<open>
  \<open>qspi_transaction(flash, buf, len, need_output)\<close> with \<open>buf\<close> the \<open>len\<close> bytes
  \<open>buf[0..len)\<close>. The result of the draining \<open>qspi_rx(flash, NULL, len)\<close> is dropped by
  the C code, and the three early returns leave before the slave is deselected.
\<close>

definition qspi_transaction ::
  "'h regio \<Rightarrow> 'h xrt_qspi \<Rightarrow> u8 list \<Rightarrow> bool \<Rightarrow> (errno + unit) \<times> u8 list \<times> 'h xrt_qspi"
where
  "qspi_transaction io flash buf need_output =
     (case qspi_reset_fifo io flash of
        (Inl e, f1) \<Rightarrow> (Inl e, buf, f1)
      | (Inr _, f1) \<Rightarrow>
          if qspi_curr_slave f1 \<ge> MAX_NUM_OF_SLAVES then (Inl EINVAL, buf, f1)
          else
            let f2 = qspi_activate_slave io f1 (qspi_curr_slave f1) in
            (case qspi_tx io f2 buf of
               (Inl e, f3) \<Rightarrow> (Inl e, buf, f3)
             | (Inr _, f3) \<Rightarrow>
                 if need_output then
                   (case qspi_rx io f3 (Some buf) (length buf) of (ret, buf', f4) \<Rightarrow>
                      (ret, case_option buf id buf', qspi_activate_slave io f4 SLAVE_NONE))
                 else
                   (case qspi_rx io f3 None (length buf) of (_, _, f4) \<Rightarrow>
                      (Inr (), buf, qspi_activate_slave io f4 SLAVE_NONE))))"

section \<open>The command layer\<close>

text \<open>
  \<open>qspi_exec_io_cmd(flash, len, output_needed)\<close> runs a transaction on the first
  \<open>len\<close> bytes of \<open>io_buf\<close>. Where \<open>len\<close> is more than the bytes of \<open>io_buf\<close>, the C
  code reads and writes past the allocation: \<open>EOVERRUN\<close>.
\<close>

definition qspi_exec_io_cmd ::
  "'h regio \<Rightarrow> 'h xrt_qspi \<Rightarrow> size_t \<Rightarrow> bool \<Rightarrow> (errno + unit) \<times> 'h xrt_qspi"
where
  "qspi_exec_io_cmd io flash len output_needed =
     (if unat len > length (io_buf flash) then (Inl EOVERRUN, flash)
      else (case qspi_transaction io flash (take (unat len) (io_buf flash)) output_needed of
              (ret, buf', f1) \<Rightarrow> (ret, f1\<lparr>io_buf := buf' @ drop (unat len) (io_buf f1)\<rparr>)))"

definition qspi_is_ready :: "'h regio \<Rightarrow> 'h xrt_qspi \<Rightarrow> bool \<times> 'h xrt_qspi" where
  "qspi_is_ready io flash =
     (case qspi_transaction io flash [QSPI_CMD_STATUSREG_READ, 0] True of
        (Inl e, cmd, f1) \<Rightarrow> (False, f1)
      | (Inr _, cmd, f1) \<Rightarrow> (if (cmd ! 1) AND 0x1 \<noteq> 0 then (False, f1) else (True, f1)))"

definition qspi_enable_write :: "'h regio \<Rightarrow> 'h xrt_qspi \<Rightarrow> (errno + unit) \<times> 'h xrt_qspi" where
  "qspi_enable_write io flash =
     (case qspi_transaction io flash [QSPI_CMD_WRITE_ENABLE] False of (ret, cmd, f1) \<Rightarrow> (ret, f1))"

definition qspi_set_sector ::
  "'h regio \<Rightarrow> 'h xrt_qspi \<Rightarrow> u8 \<Rightarrow> (errno + unit) \<times> 'h xrt_qspi"
where
  "qspi_set_sector io flash sect =
     (if sect = qspi_curr_sector flash then (Inr (), flash)
      else (case qspi_enable_write io flash of
              (Inl e, f1) \<Rightarrow> (Inl e, f1)
            | (Inr _, f1) \<Rightarrow>
                (case qspi_transaction io f1 [QSPI_CMD_EXTENDED_ADDRESS_REG_WRITE, sect] False of
                   (Inl e, cmd, f2) \<Rightarrow> (Inl e, f2)
                 | (Inr _, cmd, f2) \<Rightarrow> (Inr (), f2\<lparr>qspi_curr_sector := sect\<rparr>))))"

text \<open>
  \<open>qspi_setup_io_cmd_header\<close> returns the header length (always 4) on success. The four
  stores need four bytes of \<open>io_buf\<close>.
\<close>

definition qspi_setup_io_cmd_header ::
  "'h regio \<Rightarrow> 'h xrt_qspi \<Rightarrow> u8 \<Rightarrow> qspi_flash_addr \<Rightarrow> (errno + size_t) \<times> 'h xrt_qspi"
where
  "qspi_setup_io_cmd_header io flash op faddr =
     (case qspi_set_sector io flash (sector faddr) of
        (Inl e, f1) \<Rightarrow> (Inl e, f1)
      | (Inr _, f1) \<Rightarrow>
          if length (io_buf f1) < 4 then (Inl EOVERRUN, f1)
          else (Inr 4, f1\<lparr>io_buf := (io_buf f1)[0 := op, 1 := addr_hi faddr,
                                   2 := addr_mid faddr, 3 := addr_lo faddr]\<rparr>))"

definition qspi_wait_until_ready :: "'h regio \<Rightarrow> 'h xrt_qspi \<Rightarrow> bool \<times> 'h xrt_qspi" where
  "qspi_wait_until_ready io flash =
     (case QSPI_BUSY_WAIT (qspi_is_ready io) flash of
        (True, f1) \<Rightarrow> (False, f1)
      | (False, f1) \<Rightarrow> (True, f1))"

section \<open>The page I/O layer\<close>

definition read_dummy_len :: size_t where "read_dummy_len = 4"
definition write_max_len :: size_t where "write_max_len = 128"

text \<open>
  The length of the transaction that \<open>qspi_fifo_rd\<close> issues for a request of \<open>cnt\<close>
  bytes, in \<open>size_t\<close> arithmetic, which wraps around.
\<close>

definition fifo_rd_payload_len :: "'h xrt_qspi \<Rightarrow> size_t \<Rightarrow> size_t \<Rightarrow> size_t" where
  "fifo_rd_payload_len flash header_len cnt =
     min cnt (qspi_fifo_depth flash - header_len - read_dummy_len)"

definition fifo_wr_payload_len :: "'h xrt_qspi \<Rightarrow> size_t \<Rightarrow> size_t \<Rightarrow> size_t" where
  "fifo_wr_payload_len flash header_len cnt =
     (let payload_len = min cnt (qspi_fifo_depth flash - header_len);
          payload_len = min payload_len write_max_len
      in payload_len)"

text \<open>
  \<open>qspi_fifo_rd(flash, off, buf, cnt)\<close>: on success the result is the new \<open>*cnt\<close> and
  the bytes copied to \<open>buf\<close>. The \<open>WARN_ON\<close> on a page crossing only logs. The final
  \<open>memcpy\<close> reads \<open>payload_len\<close> bytes of \<open>io_buf\<close> after the header and the dummy bytes.
\<close>

definition qspi_fifo_rd ::
  "'h regio \<Rightarrow> 'h xrt_qspi \<Rightarrow> loff_t \<Rightarrow> size_t
     \<Rightarrow> (errno + size_t \<times> u8 list) \<times> 'h xrt_qspi"
where
  "qspi_fifo_rd io flash off cnt =
     (let faddr = qspi_offset2faddr off in
      case qspi_setup_io_cmd_header io flash QSPI_CMD_QUAD_READ faddr of
        (Inl e, f1) \<Rightarrow> (Inl e, f1)
      | (Inr header_len, f1) \<Rightarrow>
          let payload_len = fifo_rd_payload_len f1 header_len cnt;
              total_len = payload_len + header_len + read_dummy_len
          in (case qspi_exec_io_cmd io f1 total_len True of
                (Inl e, f2) \<Rightarrow> (Inl e, f2)
              | (Inr _, f2) \<Rightarrow>
                  if unat (header_len + read_dummy_len) + unat payload_len > length (io_buf f2)
                  then (Inl EOVERRUN, f2)
                  else (Inr (payload_len, take (unat payload_len)
                          (drop (unat (header_len + read_dummy_len)) (io_buf f2))), f2)))"

text \<open>
  \<open>qspi_fifo_wr(flash, off, buf, cnt)\<close> with \<open>buf\<close> the \<open>cnt\<close> bytes to write: on success
  the result is the new \<open>*cnt\<close>. The \<open>memcpy\<close> into \<open>io_buf\<close> after the header needs
  \<open>header_len + payload_len\<close> bytes there.
\<close>

definition qspi_fifo_wr ::
  "'h regio \<Rightarrow> 'h xrt_qspi \<Rightarrow> loff_t \<Rightarrow> u8 list \<Rightarrow> size_t \<Rightarrow> (errno + size_t) \<times> 'h xrt_qspi"
where
  "qspi_fifo_wr io flash off buf cnt =
     (let faddr = qspi_offset2faddr off in
      case qspi_setup_io_cmd_header io flash (write_cmd (vendor flash)) faddr of
        (Inl e, f1) \<Rightarrow> (Inl e, f1)
      | (Inr header_len, f1) \<Rightarrow>
          let payload_len = fifo_wr_payload_len f1 header_len cnt;
              total_len = payload_len + header_len
          in if unat header_len + unat payload_len > length (io_buf f1) then (Inl EOVERRUN, f1)
             else
               let f2 = f1\<lparr>io_buf := take (unat header_len) (io_buf f1)
                            @ take (unat payload_len) buf
                            @ drop (unat header_len + unat payload_len) (io_buf f1)\<rparr>
               in (case qspi_enable_write io f2 of
                     (Inl e, f3) \<Rightarrow> (Inl e, f3)
                   | (Inr _, f3) \<Rightarrow>
                       (case qspi_exec_io_cmd io f3 total_len False of
                          (Inl e, f4) \<Rightarrow> (Inl e, f4)
                        | (Inr _, f4) \<Rightarrow>
                            (case qspi_wait_until_ready io f4 of
                               (False, f5) \<Rightarrow> (Inl EINVAL, f5)
                             | (True, f5) \<Rightarrow> (Inr payload_len, f5)))))"

text \<open>
  The loop of \<open>qspi_buf_rdwr\<close>: \<open>for (n = 0; ret == 0 && n < len; n += curlen)\<close>. It does
  not advance when a FIFO operation moves 0 bytes, so it may run forever: the result is
  \<open>None\<close> then. For a write \<open>buf\<close> is the \<open>len\<close> bytes to store; for a read it is the
  bytes stored so far, \<open>buf[0..n)\<close>.
\<close>

partial_function (option) qspi_buf_rdwr_loop ::
  "'h regio \<Rightarrow> bool \<Rightarrow> loff_t \<Rightarrow> size_t \<Rightarrow> size_t \<Rightarrow> u8 list \<Rightarrow> 'h xrt_qspi
     \<Rightarrow> ((errno + unit) \<times> u8 list \<times> 'h xrt_qspi) option"
where
  "qspi_buf_rdwr_loop io wr off len n buf flash =
     (if n < len then
        (let curlen = len - n in
         if wr then
           (case qspi_fifo_wr io flash (off + n) (drop (unat n) buf) curlen of
              (Inl e, f1) \<Rightarrow> Some (Inl e, buf, f1)
            | (Inr curlen', f1) \<Rightarrow> qspi_buf_rdwr_loop io wr off len (n + curlen') buf f1)
         else
           (case qspi_fifo_rd io flash (off + n) curlen of
              (Inl e, f1) \<Rightarrow> Some (Inl e, buf, f1)
            | (Inr (curlen', bytes), f1) \<Rightarrow>
                qspi_buf_rdwr_loop io wr off len (n + curlen') (buf @ bytes) f1))
      else Some (Inr (), buf, flash))"

definition qspi_buf_rdwr ::
  "'h regio \<Rightarrow> 'h xrt_qspi \<Rightarrow> u8 list \<Rightarrow> loff_t \<Rightarrow> size_t \<Rightarrow> bool
     \<Rightarrow> ((errno + unit) \<times> u8 list \<times> 'h xrt_qspi) option"
where
  "qspi_buf_rdwr io flash buf off len wr = qspi_buf_rdwr_loop io wr off len 0 buf flash"

definition qspi_page_erase ::
  "'h regio \<Rightarrow> 'h xrt_qspi \<Rightarrow> loff_t \<Rightarrow> size_t \<Rightarrow> (errno + unit) \<times> 'h xrt_qspi"
where
  "qspi_page_erase io flash off pagesz =
     (let cmd = qspi_erase_cmd pagesz; faddr = qspi_offset2faddr off in
      case qspi_wait_until_ready io flash of
        (False, f1) \<Rightarrow> (Inl EINVAL, f1)
      | (True, f1) \<Rightarrow>
          (case qspi_setup_io_cmd_header io f1 cmd faddr of
             (Inl e, f2) \<Rightarrow> (Inl e, f2)
           | (Inr cmdlen, f2) \<Rightarrow>
               (case qspi_enable_write io f2 of
                  (Inl e, f3) \<Rightarrow> (Inl e, f3)
                | (Inr _, f3) \<Rightarrow>
                    (case qspi_exec_io_cmd io f3 cmdlen False of
                       (Inl e, f4) \<Rightarrow> (Inl e, f4)
                     | (Inr _, f4) \<Rightarrow>
                         (case qspi_wait_until_ready io f4 of
                            (False, f5) \<Rightarrow> (Inl EINVAL, f5)
                          | (True, f5) \<Rightarrow> (Inr (), f5))))))"

definition is_valid_offset :: "'h xrt_qspi \<Rightarrow> loff_t \<Rightarrow> bool" where
  "is_valid_offset flash off =
     (let faddr = qspi_offset2faddr off;
          faddr = faddr\<lparr>slave := 0\<rparr>
      in qspi_faddr2offset faddr < flash_size flash)"

section \<open>The stream operations\<close>

text \<open>
  What the kernel around the driver decides: whether a \<open>vmalloc\<close> of a given size
  succeeds (a request of 0 bytes never does) and whether \<open>copy_to_user\<close> can store to
  the user's buffer. The user's source buffer of a write is the list of the bytes that
  can be read from it: \<open>copy_from_user\<close> of more bytes fails.
\<close>

record kernel_env =
  vmalloc_ok :: "size_t \<Rightarrow> bool"
  copy_to_user_ok :: bool

definition vmalloc :: "kernel_env \<Rightarrow> size_t \<Rightarrow> bool" where
  "vmalloc env sz \<longleftrightarrow> sz \<noteq> 0 \<and> vmalloc_ok env sz"

text \<open>
  The loop of \<open>qspi_do_read\<close>; \<open>kbuf\<close> is the bytes stored so far, \<open>kbuf[0..cnt)\<close>.
\<close>

partial_function (option) qspi_do_read_loop ::
  "'h regio \<Rightarrow> size_t \<Rightarrow> loff_t \<Rightarrow> size_t \<Rightarrow> u8 list \<Rightarrow> 'h xrt_qspi
     \<Rightarrow> ((errno + unit) \<times> u8 list \<times> 'h xrt_qspi) option"
where
  "qspi_do_read_loop io n off cnt kbuf flash =
     (if cnt < n then
        (let thisoff = off + cnt;
             thislen = min (n - cnt) (QSPI_PAGE_ROUNDUP thisoff - thisoff)
         in case qspi_buf_rdwr io flash [] thisoff thislen False of
              None \<Rightarrow> None
            | Some (Inl e, thisbuf, f1) \<Rightarrow> Some (Inl e, kbuf, f1)
            | Some (Inr _, thisbuf, f1) \<Rightarrow>
                qspi_do_read_loop io n off (cnt + thislen) (kbuf @ take (unat thislen) thisbuf) f1)
      else Some (Inr (), kbuf, flash))"

definition qspi_do_read ::
  "'h regio \<Rightarrow> kernel_env \<Rightarrow> 'h xrt_qspi \<Rightarrow> size_t \<Rightarrow> loff_t
     \<Rightarrow> ((errno + unit) \<times> u8 list \<times> 'h xrt_qspi) option"
where
  "qspi_do_read io env flash n off =
     (if \<not> vmalloc env QSPI_PAGE_SIZE then Some (Inl ENOMEM, [], flash)
      else
        let faddr = qspi_offset2faddr off;
            f1 = flash\<lparr>qspi_curr_slave := uint (slave faddr)\<rparr>
        in (case qspi_wait_until_ready io f1 of
              (False, f2) \<Rightarrow> Some (Inl EINVAL, [], f2)
            | (True, f2) \<Rightarrow> qspi_do_read_loop io n off 0 [] f2))"

text \<open>
  \<open>qspi_read(file, ubuf, n, off)\<close>: the result is the return value (an error, or the
  count together with the bytes copied to the user), the new \<open>*off\<close> and the controller.
\<close>

definition qspi_read ::
  "'h regio \<Rightarrow> kernel_env \<Rightarrow> 'h xrt_qspi \<Rightarrow> size_t \<Rightarrow> loff_t
     \<Rightarrow> ((errno + size_t \<times> u8 list) \<times> loff_t \<times> 'h xrt_qspi) option"
where
  "qspi_read io env flash n off =
     (if n = 0 \<or> \<not> is_valid_offset flash off then Some (Inr (0, []), off, flash)
      else
        let n = min n (flash_size flash - off) in
        if \<not> vmalloc env n then Some (Inl ENOMEM, off, flash)
        else (case qspi_do_read io env flash n off of
                None \<Rightarrow> None
              | Some (Inl e, kbuf, f1) \<Rightarrow> Some (Inl e, off, f1)
              | Some (Inr _, kbuf, f1) \<Rightarrow>
                  if \<not> copy_to_user_ok env then Some (Inl EFAULT, off, f1)
                  else Some (Inr (n, take (unat n) kbuf), off + n, f1)))"

text \<open>
  \<open>qspi_page_rmw(flash, ubuf, kbuf, off, cnt)\<close>: on success the result is the new
  \<open>*cnt\<close>. The scratch page \<open>kbuf[0..QSPI_PAGE_SIZE)\<close> is the front bytes read from the
  device, the user's bytes and the bytes read after them.
\<close>

definition qspi_page_rmw ::
  "'h regio \<Rightarrow> 'h xrt_qspi \<Rightarrow> u8 list \<Rightarrow> loff_t \<Rightarrow> size_t
     \<Rightarrow> ((errno + size_t) \<times> 'h xrt_qspi) option"
where
  "qspi_page_rmw io flash ubuf off cnt =
     (let thisoff = QSPI_PAGE_ALIGN off;
          front = QSPI_PAGE_OFFSET off;
          mid = min cnt (QSPI_PAGE_SIZE - front);
          last = QSPI_PAGE_SIZE - front - mid
      in case (if front \<noteq> 0 then qspi_buf_rdwr io flash [] thisoff front False
               else Some (Inr (), [], flash)) of
           None \<Rightarrow> None
         | Some (Inl e, fbuf, f1) \<Rightarrow> Some (Inl e, f1)
         | Some (Inr _, fbuf, f1) \<Rightarrow>
             let thisoff = thisoff + front in
             if unat mid > length ubuf then Some (Inl EFAULT, f1)
             else
               let thisoff = thisoff + mid in
               (case (if last \<noteq> 0 then qspi_buf_rdwr io f1 [] thisoff last False
                      else Some (Inr (), [], f1)) of
                  None \<Rightarrow> None
                | Some (Inl e, lbuf, f2) \<Rightarrow> Some (Inl e, f2)
                | Some (Inr _, lbuf, f2) \<Rightarrow>
                    (case qspi_page_erase io f2 (QSPI_PAGE_ALIGN off) QSPI_PAGE_SIZE of
                       (Inl e, f3) \<Rightarrow> Some (Inl e, f3)
                     | (Inr _, f3) \<Rightarrow>
                         (case qspi_buf_rdwr io f3 (fbuf @ take (unat mid) ubuf @ lbuf)
                                 (QSPI_PAGE_ALIGN off) QSPI_PAGE_SIZE True of
                            None \<Rightarrow> None
                          | Some (Inl e, kbuf, f4) \<Rightarrow> Some (Inl e, f4)
                          | Some (Inr _, kbuf, f4) \<Rightarrow> Some (Inr mid, f4)))))"

text \<open>
  \<open>qspi_page_wr(flash, ubuf, kbuf, off, cnt)\<close>: \<open>- EOPNOTSUPP\<close> when no full page fits,
  before anything else is done; on success the result is the new \<open>*cnt\<close>.
\<close>

definition qspi_page_wr ::
  "'h regio \<Rightarrow> 'h xrt_qspi \<Rightarrow> u8 list \<Rightarrow> loff_t \<Rightarrow> size_t
     \<Rightarrow> ((errno + size_t) \<times> 'h xrt_qspi) option"
where
  "qspi_page_wr io flash ubuf off cnt =
     (let thislen = qspi_get_page_io_size off cnt in
      if thislen = 0 then Some (Inl EOPNOTSUPP, flash)
      else if unat thislen > length ubuf then Some (Inl EFAULT, flash)
      else (case qspi_page_erase io flash off thislen of
              (Inl e, f1) \<Rightarrow> Some (Inl e, f1)
            | (Inr _, f1) \<Rightarrow>
                (case qspi_buf_rdwr io f1 (take (unat thislen) ubuf) off thislen True of
                   None \<Rightarrow> None
                 | Some (Inl e, kbuf, f2) \<Rightarrow> Some (Inl e, f2)
                 | Some (Inr _, kbuf, f2) \<Rightarrow> Some (Inr thislen, f2))))"

text \<open>
  The loop of \<open>qspi_write\<close>: the full-page attempt, the fallback to read-modify-write
  on \<open>- EOPNOTSUPP\<close>, and \<open>cnt += thislen\<close>. The result is \<open>ret\<close>, \<open>cnt\<close> and the
  controller when the loop is left.
\<close>

partial_function (option) qspi_write_loop ::
  "'h regio \<Rightarrow> u8 list \<Rightarrow> size_t \<Rightarrow> loff_t \<Rightarrow> size_t \<Rightarrow> 'h xrt_qspi
     \<Rightarrow> ((errno + unit) \<times> size_t \<times> 'h xrt_qspi) option"
where
  "qspi_write_loop io buf n off cnt flash =
     (if cnt < n then
        (let thisoff = off + cnt;
             thisbuf = drop (unat cnt) buf;
             thislen = n - cnt
         in case qspi_page_wr io flash thisbuf thisoff thislen of
              None \<Rightarrow> None
            | Some (Inr thislen', f1) \<Rightarrow> qspi_write_loop io buf n off (cnt + thislen') f1
            | Some (Inl e, f1) \<Rightarrow>
                if e = EOPNOTSUPP then
                  (case qspi_page_rmw io f1 thisbuf thisoff thislen of
                     None \<Rightarrow> None
                   | Some (Inl e', f2) \<Rightarrow> Some (Inl e', cnt, f2)
                   | Some (Inr thislen', f2) \<Rightarrow>
                       qspi_write_loop io buf n off (cnt + thislen') f2)
                else Some (Inl e, cnt, f1))
      else Some (Inr (), cnt, flash))"

text \<open>
  \<open>qspi_write(file, buf, n, off)\<close>: the result is the return value (an error or the
  count), the new \<open>*off\<close> and the controller.
\<close>

definition qspi_write ::
  "'h regio \<Rightarrow> kernel_env \<Rightarrow> 'h xrt_qspi \<Rightarrow> u8 list \<Rightarrow> size_t \<Rightarrow> loff_t
     \<Rightarrow> ((errno + size_t) \<times> loff_t \<times> 'h xrt_qspi) option"
where
  "qspi_write io env flash buf n off =
     (if n = 0 \<or> \<not> is_valid_offset flash off then Some (Inl ENOSPC, off, flash)
      else
        let n = min n (flash_size flash - off) in
        if \<not> vmalloc env QSPI_HUGE_PAGE_SIZE then Some (Inl ENOMEM, off, flash)
        else
          let faddr = qspi_offset2faddr off;
              f1 = flash\<lparr>qspi_curr_slave := uint (slave faddr)\<rparr>
          in (case qspi_wait_until_ready io f1 of
                (False, f2) \<Rightarrow> Some (Inl EINVAL, off, f2)
              | (True, f2) \<Rightarrow>
                  (case qspi_write_loop io buf n off 0 f2 of
                     None \<Rightarrow> None
                   | Some (Inl e, cnt, f3) \<Rightarrow> Some (Inl e, off, f3)
                   | Some (Inr _, cnt, f3) \<Rightarrow> Some (Inr n, off + n, f3))))"

section \<open>Two mock devices\<close>

subsection \<open>A scripted register file\<close>

text \<open>
  The first mock replays a recorded register trace: every read returns the next value of
  the script (0 when the script is over), and every access is logged in order. It stands
  for any behaviour of the hardware along one run of the driver.
\<close>

datatype reg_event = Rd qspi_reg u32 | Wr qspi_reg u32

record script_hw =
  sc_reads :: "u32 list"
  sc_log :: "reg_event list"

definition script_rd :: "script_hw \<Rightarrow> qspi_reg \<Rightarrow> u32 \<times> script_hw" where
  "script_rd h reg =
     (case sc_reads h of
        [] \<Rightarrow> (0, h\<lparr>sc_log := sc_log h @ [Rd reg 0]\<rparr>)
      | v # vs \<Rightarrow> (v, h\<lparr>sc_reads := vs, sc_log := sc_log h @ [Rd reg v]\<rparr>))"

definition script_wr :: "script_hw \<Rightarrow> qspi_reg \<Rightarrow> u32 \<Rightarrow> script_hw" where
  "script_wr h reg v = h\<lparr>sc_log := sc_log h @ [Wr reg v]\<rparr>"

definition script_io :: "script_hw regio" where
  "script_io = \<lparr> ioread32 = script_rd, iowrite32 = script_wr \<rparr>"

definition script_flash :: "u32 list \<Rightarrow> script_hw xrt_qspi" where
  "script_flash reads =
     \<lparr> flash_size = 0x1000000, io_buf = replicate 16 0,
       qspi_regs = \<lparr> sc_reads = reads, sc_log = [] \<rparr>,
       qspi_fifo_depth = 16, qspi_curr_sector = 0xff, vendor = Micron, qspi_curr_slave = 0 \<rparr>"

text \<open>The last value written to a register along a trace, if any.\<close>

fun last_write :: "qspi_reg \<Rightarrow> reg_event list \<Rightarrow> u32 option" where
  "last_write reg [] = None"
| "last_write reg (Rd r v # es) = last_write reg es"
| "last_write reg (Wr r v # es) =
     (case last_write reg es of
        Some w \<Rightarrow> Some w
      | None \<Rightarrow> if r = reg then Some v else None)"

subsection \<open>A controller with NOR flash chips behind it\<close>

text \<open>
  The second mock is a flash backing store: a controller with a TX and an RX FIFO of
  \<open>m_depth\<close> bytes and one flash chip per slave-select line. A chip has a 32-bit
  address space (the extended address register gives the top byte), a write-enable
  latch, and NOR cells: an erase sets a block to \<open>0xFF\<close>, a program can only clear
  bits. It is never busy. A transfer starts when the control register is written with
  the inhibit bit clear and the TX FIFO is not empty; the selected chip then answers one
  byte for every byte sent.
\<close>

record flash_chip =
  c_mem :: "32 word \<Rightarrow> u8"
  c_wel :: bool
  c_ear :: u8

definition chip_addr :: "u8 \<Rightarrow> u8 \<Rightarrow> u8 \<Rightarrow> u8 \<Rightarrow> 32 word" where
  "chip_addr ear hi mid lo =
     push_bit 24 (ucast ear) OR push_bit 16 (ucast hi) OR push_bit 8 (ucast mid) OR ucast lo"

definition chip_program :: "(32 word \<Rightarrow> u8) \<Rightarrow> 32 word \<Rightarrow> u8 list \<Rightarrow> 32 word \<Rightarrow> u8" where
  "chip_program mem a bytes = (\<lambda>x. if unat (x - a) < length bytes
                                  then mem x AND bytes ! unat (x - a) else mem x)"

definition chip_erase :: "(32 word \<Rightarrow> u8) \<Rightarrow> 32 word \<Rightarrow> nat \<Rightarrow> 32 word \<Rightarrow> u8" where
  "chip_erase mem a k = (\<lambda>x. if drop_bit k x = drop_bit k a then 0xFF else mem x)"

definition chip_exec :: "u8 list \<Rightarrow> flash_chip \<Rightarrow> u8 list \<times> flash_chip" where
  "chip_exec bytes c =
     (let quiet = replicate (length bytes) 0 in
      case bytes of
        [] \<Rightarrow> ([], c)
      | op # args \<Rightarrow>
          if op = QSPI_CMD_STATUSREG_READ then (quiet, c)
          else if op = QSPI_CMD_WRITE_ENABLE then (quiet, c\<lparr>c_wel := True\<rparr>)
          else if op = QSPI_CMD_EXTENDED_ADDRESS_REG_WRITE then
            (quiet, if c_wel c \<and> args \<noteq> [] then c\<lparr>c_ear := hd args, c_wel := False\<rparr> else c)
          else if length args < 3 then (quiet, c)
          else
            let a = chip_addr (c_ear c) (args ! 0) (args ! 1) (args ! 2);
                data = drop 3 args
            in if op = QSPI_CMD_QUAD_READ then
                 (take (length bytes)
                    (replicate 8 0 @ map (\<lambda>i. c_mem c (a + of_nat i)) [0..<length bytes - 8]), c)
               else if \<not> c_wel c then (quiet, c)
               else if op = QSPI_CMD_QUAD_WRITE \<or> op = QSPI_CMD_PAGE_PROGRAM then
                 (quiet, c\<lparr>c_mem := chip_program (c_mem c) a data, c_wel := False\<rparr>)
               else if op = QSPI_CMD_4KB_SUBSECTOR_ERASE then
                 (quiet, c\<lparr>c_mem := chip_erase (c_mem c) a 12, c_wel := False\<rparr>)
               else if op = QSPI_CMD_32KB_SUBSECTOR_ERASE then
                 (quiet, c\<lparr>c_mem := chip_erase (c_mem c) a 15, c_wel := False\<rparr>)
               else if op = QSPI_CMD_SECTOR_ERASE then
                 (quiet, c\<lparr>c_mem := chip_erase (c_mem c) a 16, c_wel := False\<rparr>)
               else (quiet, c))"

record mock_hw =
  m_ctrl :: u32
  m_slave :: u32
  m_txq :: "u8 list"
  m_rxq :: "u8 list"
  m_errs :: u32
  m_depth :: nat
  m_chip :: "nat \<Rightarrow> flash_chip"

definition mock_status :: "mock_hw \<Rightarrow> u32" where
  "mock_status h =
     ((if m_rxq h = [] then QSPI_SR_RX_EMPTY else 0)
      OR (if length (m_rxq h) \<ge> m_depth h then QSPI_SR_RX_FULL else 0)
      OR (if m_txq h = [] then QSPI_SR_TX_EMPTY else 0)
      OR (if length (m_txq h) \<ge> m_depth h then QSPI_SR_TX_FULL else 0)
      OR m_errs h)"

text \<open>The slave-select register is active low: the chip whose bit is 0 is selected.\<close>

definition mock_selected :: "u32 \<Rightarrow> nat option" where
  "mock_selected v = (if \<not> bit v 0 then Some 0 else if \<not> bit v 1 then Some 1 else None)"

definition mock_transfer :: "mock_hw \<Rightarrow> mock_hw" where
  "mock_transfer h =
     (case mock_selected (m_slave h) of
        None \<Rightarrow> h\<lparr>m_rxq := m_rxq h @ replicate (length (m_txq h)) 0xFF, m_txq := []\<rparr>
      | Some s \<Rightarrow>
          (case chip_exec (m_txq h) (m_chip h s) of
             (resp, c') \<Rightarrow> h\<lparr>m_rxq := m_rxq h @ resp, m_txq := [],
                               m_chip := (m_chip h)(s := c')\<rparr>))"

definition mock_rd :: "mock_hw \<Rightarrow> qspi_reg \<Rightarrow> u32 \<times> mock_hw" where
  "mock_rd h reg =
     (case reg of
        QSPI_STATUS \<Rightarrow> (mock_status h, h)
      | QSPI_CTRL \<Rightarrow> (m_ctrl h, h)
      | QSPI_SLAVE \<Rightarrow> (m_slave h, h)
      | QSPI_RX \<Rightarrow> (case m_rxq h of [] \<Rightarrow> (0, h) | b # bs \<Rightarrow> (ucast b, h\<lparr>m_rxq := bs\<rparr>))
      | _ \<Rightarrow> (0, h))"

text \<open>The two FIFO reset bits of the control register clear themselves.\<close>

definition mock_wr :: "mock_hw \<Rightarrow> qspi_reg \<Rightarrow> u32 \<Rightarrow> mock_hw" where
  "mock_wr h reg v =
     (case reg of
        QSPI_CTRL \<Rightarrow>
          (let h1 = h\<lparr>m_ctrl := v AND NOT (QSPI_CR_TXFIFO_RESET OR QSPI_CR_RXFIFO_RESET),
                       m_txq := (if v AND QSPI_CR_TXFIFO_RESET \<noteq> 0 then [] else m_txq h),
                       m_rxq := (if v AND QSPI_CR_RXFIFO_RESET \<noteq> 0 then [] else m_rxq h)\<rparr>
           in if v AND QSPI_CR_TRANS_INHIBIT = 0 \<and> m_txq h1 \<noteq> [] then mock_transfer h1 else h1)
      | QSPI_TX \<Rightarrow> (if length (m_txq h) < m_depth h then h\<lparr>m_txq := m_txq h @ [ucast v]\<rparr> else h)
      | QSPI_SLAVE \<Rightarrow> h\<lparr>m_slave := v\<rparr>
      | _ \<Rightarrow> h)"

definition mock_io :: "mock_hw regio" where
  "mock_io = \<lparr> ioread32 = mock_rd, iowrite32 = mock_wr \<rparr>"

subsection \<open>Controllers used as concrete inputs\<close>

text \<open>
  A controller on the scripted register file whose FIFO was discovered with 5 bytes
  (\<open>qspi_controller_probe\<close> accepts every depth but 0), with sector 0 already selected.
\<close>

definition small_fifo_flash :: "script_hw xrt_qspi" where
  "small_fifo_flash =
     \<lparr> flash_size = 0x1000000, io_buf = [0, 0, 0, 0, 0],
       qspi_regs = \<lparr> sc_reads = [], sc_log = [] \<rparr>,
       qspi_fifo_depth = 5, qspi_curr_sector = 0, vendor = Micron, qspi_curr_slave = 0 \<rparr>"

text \<open>
  The flash-backed mock between two transactions: control register \<open>0x186\<close> (the
  driver's \<open>QSPI_CR_INIT_STATE\<close> once the reset bits have cleared themselves), no slave
  selected, both FIFOs empty, no error bit. \<open>mock_flash\<close> is a controller attached to
  it: FIFO depth \<open>D\<close> as discovered, \<open>io_buf\<close> the scratch buffer, \<open>sect\<close> the cached
  sector, \<open>s\<close> the current slave.
\<close>

definition mock_hw_idle :: "nat \<Rightarrow> (nat \<Rightarrow> flash_chip) \<Rightarrow> mock_hw" where
  "mock_hw_idle D ch =
     \<lparr> m_ctrl = 0x186, m_slave = SLAVE_SELECT_NONE, m_txq = [], m_rxq = [], m_errs = 0,
       m_depth = D, m_chip = ch \<rparr>"

definition mock_flash ::
  "nat \<Rightarrow> u8 \<Rightarrow> nat \<Rightarrow> (nat \<Rightarrow> flash_chip) \<Rightarrow> u8 list \<Rightarrow> qspi_flash_vendor \<Rightarrow> size_t
     \<Rightarrow> mock_hw xrt_qspi"
where
  "mock_flash D sect s ch io v sz =
     \<lparr> flash_size = sz, io_buf = io, qspi_regs = mock_hw_idle D ch,
       qspi_fifo_depth = of_nat D, qspi_curr_sector = sect, vendor = v,
       qspi_curr_slave = int s \<rparr>"

text \<open>
  A controller at rest on the flash-backed mock. \<open>mock_rest D s v sz c e mem oth f\<close>: the
  cached sector of \<open>f\<close> is \<open>c\<close> and its current slave is \<open>s\<close>, whose chip holds the
  memory \<open>mem\<close> and has \<open>e\<close> in its extended address register; the chips of the other
  slaves are those of \<open>oth\<close>. The cache \<open>c\<close> and the register \<open>e\<close> may differ.
\<close>

definition mock_rest ::
  "nat \<Rightarrow> nat \<Rightarrow> qspi_flash_vendor \<Rightarrow> size_t \<Rightarrow> u8 \<Rightarrow> u8 \<Rightarrow> (32 word \<Rightarrow> u8)
     \<Rightarrow> (nat \<Rightarrow> flash_chip) \<Rightarrow> mock_hw xrt_qspi \<Rightarrow> bool"
where
  "mock_rest D s v sz c e mem oth f \<longleftrightarrow>
     (\<exists>ch io. f = mock_flash D c s ch io v sz \<and> length io = D \<and> c_mem (ch s) = mem
        \<and> c_ear (ch s) = e \<and> ch = oth(s := ch s))"

text \<open>
  \<open>ear_after c e x\<close> is the extended address register of the chip once
  \<open>qspi_set_sector\<close> has been asked for sector \<open>x\<close> with the cache at \<open>c\<close> and the
  register at \<open>e\<close>: the register is written only when the cache differs from \<open>x\<close>.
  \<open>chip_at e off\<close> is the chip address that the three address bytes of the flat offset
  \<open>off\<close> reach when the register holds \<open>e\<close>; it is the low 32 bits of \<open>off\<close> when \<open>e\<close>
  is the sector of \<open>off\<close>. \<open>chip_erase_op\<close> is what the chip does to its cells on an
  erase opcode; it ignores an opcode it does not know.
\<close>

definition ear_after :: "u8 \<Rightarrow> u8 \<Rightarrow> u8 \<Rightarrow> u8" where
  "ear_after c e x = (if x = c then e else x)"

definition chip_at :: "u8 \<Rightarrow> loff_t \<Rightarrow> 32 word" where
  "chip_at e off = push_bit 24 (ucast e) OR take_bit 24 (ucast off)"

definition chip_erase_op :: "u8 \<Rightarrow> (32 word \<Rightarrow> u8) \<Rightarrow> 32 word \<Rightarrow> 32 word \<Rightarrow> u8" where
  "chip_erase_op op mem a =
     (if op = QSPI_CMD_4KB_SUBSECTOR_ERASE then chip_erase mem a 12
      else if op = QSPI_CMD_32KB_SUBSECTOR_ERASE then chip_erase mem a 15
      else if op = QSPI_CMD_SECTOR_ERASE then chip_erase mem a 16
      else mem)"

text \<open>
  Concrete inputs on the flash-backed mock: two chips whose cells all hold \<open>0x5A\<close>, a
  16MB Micron flash behind a 16-byte FIFO as \<open>qspi_controller_probe\<close> leaves it (sector
  cache at its sentinel \<open>0xff\<close>, slave 0), and a kernel whose allocations and copies to
  the user succeed.
\<close>

definition demo_chips :: "nat \<Rightarrow> flash_chip" where
  "demo_chips = (\<lambda>s. \<lparr> c_mem = (\<lambda>a. 0x5A), c_wel = False, c_ear = 0 \<rparr>)"

definition demo_flash :: "mock_hw xrt_qspi" where
  "demo_flash = mock_flash 16 0xff 0 demo_chips (replicate 16 0) Micron 0x1000000"

definition demo_flash32 :: "mock_hw xrt_qspi" where
  "demo_flash32 = mock_flash 16 0xff 0 demo_chips (replicate 16 0) Micron 0x2000000"

definition kernel_ok :: kernel_env where
  "kernel_ok = \<lparr> vmalloc_ok = (\<lambda>sz. True), copy_to_user_ok = True \<rparr>"

section \<open>Verified properties\<close>

subsection \<open>Flat addresses\<close>

lemma faddr_compose_bits:
  "qspi_faddr2offset \<lparr>slave = s, sector = ucast (drop_bit 24 addr), addr_lo = ucast addr,
      addr_mid = ucast (drop_bit 8 addr), addr_hi = ucast (drop_bit 16 addr)\<rparr>
   = take_bit 32 addr OR push_bit 56 (ucast s)" for addr :: "64 word"
  unfolding qspi_faddr2offset_def Let_def
  apply simp
  apply (rule bit_word_eqI)
  subgoal for n
    by (cases "n < 8"; cases "n < 16"; cases "n < 24"; cases "n < 32"; cases "n < 56";
      auto simp add: bit_simps)
  done

lemma split56: "take_bit 56 addr OR push_bit 56 (drop_bit 56 addr) = addr" for addr :: "64 word"
  apply (rule bit_word_eqI)
  subgoal for n by (cases "n < 56"; auto simp add: bit_simps)
  done

lemma ucast_slave_back:
  "(ucast (ucast (drop_bit 56 addr) :: 8 word) :: 64 word) = drop_bit 56 addr"
  for addr :: "64 word"
  apply (rule bit_word_eqI)
  subgoal for n by (cases "n < 8"; auto simp add: bit_simps dest: bit_imp_le_length)
  done

lemma take_bit_32_56:
  "take_bit 56 addr < 2 ^ 32 \<Longrightarrow> take_bit 32 addr = take_bit 56 addr" for addr :: "64 word"
proof -
  assume a: "take_bit 56 addr < 2 ^ 32"
  have "take_bit 56 addr AND mask 32 = take_bit 56 addr"
    using a by (rule less_mask_eq)
  hence "take_bit 32 (take_bit 56 addr) = take_bit 56 addr"
    by (simp only: take_bit_eq_mask)
  thus ?thesis by simp
qed

text \<open>
  C5. A flat offset whose part below the slave byte fits the 32 bits of sector and
  in-sector address (bits 32 to 55 are clear) is recovered by \<open>qspi_faddr2offset\<close> from
  its decomposition by \<open>qspi_offset2faddr\<close>. The slave component is the top byte, and
  replacing it changes nothing but the top byte of the recomposed offset.
\<close>

theorem qspi_faddr_roundtrip:
  fixes addr :: loff_t
  assumes "take_bit 56 addr < 2 ^ 32"
  shows "qspi_faddr2offset (qspi_offset2faddr addr) = addr
       \<and> slave (qspi_offset2faddr addr) = ucast (drop_bit 56 addr)
       \<and> qspi_faddr2offset ((qspi_offset2faddr addr)\<lparr>slave := s\<rparr>)
           = take_bit 56 addr OR push_bit 56 (ucast s)"
proof -
  have 1: "qspi_faddr2offset (qspi_offset2faddr addr) = addr"
    using faddr_compose_bits[of "ucast (drop_bit 56 addr)" addr] take_bit_32_56[OF assms]
    by (simp add: qspi_offset2faddr_def ucast_slave_back split56)
  have 2: "qspi_faddr2offset ((qspi_offset2faddr addr)\<lparr>slave := s\<rparr>)
           = take_bit 56 addr OR push_bit 56 (ucast s)"
    using faddr_compose_bits[of s addr] take_bit_32_56[OF assms]
    by (simp add: qspi_offset2faddr_def)
  show ?thesis using 1 2 by (simp add: qspi_offset2faddr_def)
qed

theorem qspi_faddr_roundtrip_witness:
  "take_bit 56 (0x0100000001234567 :: loff_t) < 2 ^ 32
   \<and> qspi_faddr2offset (qspi_offset2faddr 0x0100000001234567) = 0x0100000001234567
   \<and> slave (qspi_offset2faddr 0x0100000001234567) = 1
   \<and> qspi_faddr2offset ((qspi_offset2faddr 0x0100000001234567)\<lparr>slave := 0\<rparr>) = 0x01234567"
proof -
  have h: "take_bit 56 (0x0100000001234567 :: loff_t) < 2 ^ 32" by simp
  show ?thesis using h qspi_faddr_roundtrip[OF h, of 0] by simp
qed

subsection \<open>Error codes of the layers\<close>

lemma busy_wait_unfold:
  "0 < retry \<Longrightarrow> busy_wait cond retry s =
     (case cond s of (True, s') \<Rightarrow> (False, s') | (False, s') \<Rightarrow> busy_wait cond (retry - 1) s')"
  by (cases retry) (auto split: prod.splits bool.splits)

















subsection \<open>The choice of the page size and the fallback\<close>

lemma IS_ALIGNED_dvd: "IS_ALIGNED x (2 ^ k) \<longleftrightarrow> 2 ^ k dvd unat x"
  unfolding IS_ALIGNED_def
  by (simp flip: mask_eq_exp_minus_1 add: and_mask_dvd_nat)

lemma page_io_size_spec:
  "qspi_get_page_io_size off len =
     (if 65536 dvd unat off \<and> 65536 \<le> unat len then 65536
      else if 32768 dvd unat off \<and> 32768 \<le> unat len then 32768
      else if 4096 dvd unat off \<and> 4096 \<le> unat len then 4096
      else 0)"
  using IS_ALIGNED_dvd[of off 16] IS_ALIGNED_dvd[of off 15] IS_ALIGNED_dvd[of off 12]
  by (simp add: qspi_get_page_io_size_def QSPI_HUGE_PAGE_SIZE_def QSPI_LARGE_PAGE_SIZE_def
      QSPI_PAGE_SIZE_def word_le_nat_alt)

lemma qspi_write_loop_fallback:
  assumes "cnt < n" and "qspi_get_page_io_size (off + cnt) (n - cnt) = 0"
  shows "qspi_write_loop io buf n off cnt flash =
           (case qspi_page_rmw io flash (drop (unat cnt) buf) (off + cnt) (n - cnt) of
              None \<Rightarrow> None
            | Some (Inl e, f2) \<Rightarrow> Some (Inl e, cnt, f2)
            | Some (Inr thislen, f2) \<Rightarrow> qspi_write_loop io buf n off (cnt + thislen) f2)"
  using assms
  by (subst qspi_write_loop.simps) (simp add: qspi_page_wr_def Let_def)

subsection \<open>Transactions on the scripted register file\<close>

lemmas script_eval =
  qspi_transaction_def qspi_reset_fifo_def qspi_tx_def qspi_rx_def qspi_get_status_def
  qspi_get_ctrl_def qspi_set_ctrl_def qspi_reg_rd_def qspi_reg_wr_def qspi_activate_slave_def
  qspi_read8_def qspi_send8_def qspi_has_err_def QSPI_BUSY_WAIT_def QSPI_BUSY_RETRY_def
  busy_wait_unfold script_io_def script_rd_def script_wr_def script_flash_def
  status_fifo_mask_def QSPI_SR_ERRS_def QSPI_SR_RX_EMPTY_def QSPI_SR_RX_FULL_def
  QSPI_SR_TX_EMPTY_def QSPI_SR_TX_FULL_def QSPI_SR_MODE_ERR_def QSPI_SR_CPOL_CPHA_ERR_def
  QSPI_SR_SLAVE_MODE_ERR_def QSPI_SR_MSB_ERR_def QSPI_SR_LOOPBACK_ERR_def QSPI_SR_CMD_ERR_def
  QSPI_CR_TXFIFO_RESET_def QSPI_CR_RXFIFO_RESET_def QSPI_CR_TRANS_INHIBIT_def
  MAX_NUM_OF_SLAVES_def SLAVE_NONE_def SLAVE_SELECT_NONE_def QSPI_CMD_WRITE_ENABLE_def

text \<open>
  C9, at a failing input. The hardware answers: status \<open>0x5\<close> (both FIFOs empty),
  control \<open>0x186\<close>, and then status \<open>0x404\<close> (TX empty, command error) twice. The
  transmit step fails, \<open>qspi_transaction\<close> returns \<open>- EINVAL\<close>, and the last write to
  the slave-select register is the one that selected slave 0 (\<open>0xFFFFFFFE\<close>): the
  register is not written back to \<open>SLAVE_SELECT_NONE\<close>.
\<close>

theorem qspi_transaction_tx_failure_leaves_slave_selected:
  "qspi_transaction script_io (script_flash [0x5, 0x186, 0x404, 0x404])
      [QSPI_CMD_WRITE_ENABLE] False
   = (Inl EINVAL, [QSPI_CMD_WRITE_ENABLE],
      (script_flash [])\<lparr>qspi_regs := \<lparr>sc_reads = [], sc_log =
        [Rd QSPI_STATUS 0x5, Wr QSPI_SLAVE 0xFFFFFFFE, Rd QSPI_CTRL 0x186, Wr QSPI_CTRL 0x186,
         Wr QSPI_TX 0x06, Wr QSPI_CTRL 0x86, Rd QSPI_STATUS 0x404, Wr QSPI_CTRL 0x186,
         Rd QSPI_STATUS 0x404]\<rparr>\<rparr>)
   \<and> last_write QSPI_SLAVE
        [Rd QSPI_STATUS 0x5, Wr QSPI_SLAVE 0xFFFFFFFE, Rd QSPI_CTRL 0x186, Wr QSPI_CTRL 0x186,
         Wr QSPI_TX 0x06, Wr QSPI_CTRL 0x86, Rd QSPI_STATUS 0x404, Wr QSPI_CTRL 0x186,
         Rd QSPI_STATUS 0x404] = Some 0xFFFFFFFE
   \<and> SLAVE_SELECT_NONE = 0x3"
  by (simp add: script_eval)

text \<open>
  C10, at a failing input. The hardware answers: status \<open>0x5\<close>, control \<open>0x186\<close>,
  status \<open>0x4\<close> twice (TX empty, no error: the transmit step succeeds), and then status
  \<open>0x5\<close>: the RX FIFO is empty when the drain wants its one byte, so the drain
  \<open>qspi_rx(flash, NULL, 1)\<close> fails with \<open>- EINVAL\<close>. With \<open>need_output\<close> false
  \<open>qspi_transaction\<close> returns 0 all the same; with \<open>need_output\<close> true the same answers
  give \<open>- EINVAL\<close>.
\<close>

theorem qspi_transaction_drain_failure_reports_success:
  "qspi_transaction script_io (script_flash [0x5, 0x186, 0x4, 0x4, 0x5])
      [QSPI_CMD_WRITE_ENABLE] False
   = (Inr (), [QSPI_CMD_WRITE_ENABLE],
      (script_flash [])\<lparr>qspi_regs := \<lparr>sc_reads = [], sc_log =
        [Rd QSPI_STATUS 0x5, Wr QSPI_SLAVE 0xFFFFFFFE, Rd QSPI_CTRL 0x186, Wr QSPI_CTRL 0x186,
         Wr QSPI_TX 0x06, Wr QSPI_CTRL 0x86, Rd QSPI_STATUS 0x4, Wr QSPI_CTRL 0x186,
         Rd QSPI_STATUS 0x4, Rd QSPI_STATUS 0x5, Wr QSPI_SLAVE 0x3]\<rparr>\<rparr>)
   \<and> fst (qspi_rx script_io (script_flash [0x5]) None 1) = Inl EINVAL
   \<and> fst (qspi_transaction script_io (script_flash [0x5, 0x186, 0x4, 0x4, 0x5])
            [QSPI_CMD_WRITE_ENABLE] True) = Inl EINVAL"
  by (simp add: script_eval)

subsection \<open>The driver on the flash-backed mock\<close>

lemmas mock_consts =
  status_fifo_mask_def QSPI_SR_ERRS_def QSPI_SR_RX_EMPTY_def QSPI_SR_RX_FULL_def
  QSPI_SR_TX_EMPTY_def QSPI_SR_TX_FULL_def QSPI_SR_MODE_ERR_def QSPI_SR_CPOL_CPHA_ERR_def
  QSPI_SR_SLAVE_MODE_ERR_def QSPI_SR_MSB_ERR_def QSPI_SR_LOOPBACK_ERR_def QSPI_SR_CMD_ERR_def
  QSPI_CR_TXFIFO_RESET_def QSPI_CR_RXFIFO_RESET_def QSPI_CR_TRANS_INHIBIT_def
  MAX_NUM_OF_SLAVES_def SLAVE_NONE_def SLAVE_SELECT_NONE_def

lemma mock_io_sel: "ioread32 mock_io = mock_rd" "iowrite32 mock_io = mock_wr"
  by (simp_all add: mock_io_def)

lemmas mock_regs =
  qspi_get_status_def qspi_get_ctrl_def qspi_set_ctrl_def qspi_reg_rd_def qspi_reg_wr_def
  qspi_read8_def qspi_send8_def qspi_has_err_def mock_io_sel mock_rd_def mock_wr_def

lemma ucast_u8_u32_u8: "(ucast (ucast (b :: u8) :: u32) :: u8) = b"
  apply (rule bit_word_eqI)
  apply (auto simp add: bit_simps)
  done

lemma mock_send_all:
  "length (m_txq (qspi_regs f)) + length buf \<le> m_depth (qspi_regs f) \<Longrightarrow>
   fold (\<lambda>b f. qspi_send8 mock_io f b) buf f
     = f\<lparr>qspi_regs := (qspi_regs f)\<lparr>m_txq := m_txq (qspi_regs f) @ buf\<rparr>\<rparr>"
proof (induction buf arbitrary: f)
  case Nil
  then show ?case by simp
next
  case (Cons b buf)
  have step: "qspi_send8 mock_io f b
      = f\<lparr>qspi_regs := (qspi_regs f)\<lparr>m_txq := m_txq (qspi_regs f) @ [b]\<rparr>\<rparr>"
    using Cons.prems by (simp add: mock_regs ucast_u8_u32_u8)
  show ?case using Cons.prems
    by (simp add: step Cons.IH)
qed

lemma mock_pull_all:
  "m_rxq (qspi_regs f) = bs @ rest \<Longrightarrow> m_errs (qspi_regs f) = 0 \<Longrightarrow>
   qspi_rx_pull mock_io (length bs) f
     = (True, bs, f\<lparr>qspi_regs := (qspi_regs f)\<lparr>m_rxq := rest\<rparr>\<rparr>)"
proof (induction bs arbitrary: f)
  case Nil
  then show ?case by simp
next
  case (Cons b bs)
  have st: "qspi_get_status mock_io f = (mock_status (qspi_regs f), f)"
    by (simp add: mock_regs)
  have st0: "mock_status (qspi_regs f) AND QSPI_SR_RX_EMPTY = 0"
    using Cons.prems by (simp add: mock_status_def mock_consts)
  have rd: "qspi_read8 mock_io f = (b, f\<lparr>qspi_regs := (qspi_regs f)\<lparr>m_rxq := bs @ rest\<rparr>\<rparr>)"
    using Cons.prems by (simp add: mock_regs ucast_u8_u32_u8)
  show ?case using Cons.prems
    by (simp add: st st0 rd Cons.IH)
qed


lemma busy_wait_now:
  "cond s = (True, s') \<Longrightarrow> QSPI_BUSY_WAIT cond s = (False, s')"
  by (simp add: QSPI_BUSY_WAIT_def QSPI_BUSY_RETRY_def busy_wait_unfold)

lemma mock_selected_01:
  "s < 2 \<Longrightarrow> mock_selected (NOT (push_bit s 1)) = Some s"
proof -
  assume "s < 2"
  then consider "s = 0" | "s = 1" by linarith
  then show ?thesis
    by cases (simp_all add: mock_selected_def)
qed

lemma mock_status_tx_empty:
  "m_txq h = [] \<Longrightarrow> m_errs h = 0 \<Longrightarrow>
     mock_status h AND (QSPI_SR_TX_EMPTY OR QSPI_SR_ERRS) \<noteq> 0"
  by (auto simp add: mock_status_def mock_consts)

lemma mock_status_noerr: "m_errs h = 0 \<Longrightarrow> mock_status h AND QSPI_SR_ERRS = 0"
  by (auto simp add: mock_status_def mock_consts)

lemma mock_status_rx_empty:
  "m_errs h = 0 \<Longrightarrow> m_rxq h = [] \<Longrightarrow> mock_status h AND QSPI_SR_RX_EMPTY \<noteq> 0"
  by (auto simp add: mock_status_def mock_consts)

lemma mock_tx:
  assumes len: "cmd \<noteq> []" "length cmd \<le> D" and s: "s < 2"
    and ex: "chip_exec cmd (ch s) = (resp, c')"
  shows "qspi_tx mock_io
           ((mock_flash D sect s ch io v sz)
              \<lparr>qspi_regs := (mock_hw_idle D ch)\<lparr>m_slave := NOT (push_bit s 1)\<rparr>\<rparr>) cmd
     = (Inr (), (mock_flash D sect s ch io v sz)
          \<lparr>qspi_regs := (mock_hw_idle D (ch(s := c')))
               \<lparr>m_slave := NOT (push_bit s 1), m_rxq := resp\<rparr>\<rparr>)"
proof -
  let ?f0 = "mock_flash D sect s ch io v sz"
  let ?h0 = "(mock_hw_idle D ch)\<lparr>m_slave := NOT (push_bit s 1)\<rparr>"
  let ?f = "?f0\<lparr>qspi_regs := ?h0\<rparr>"
  have c0: "qspi_get_ctrl mock_io ?f = (0x186, ?f)"
    by (simp add: mock_regs mock_hw_idle_def)
  have c1: "qspi_set_ctrl mock_io ?f (0x186 OR QSPI_CR_TRANS_INHIBIT) = ?f"
    by (simp add: mock_regs mock_hw_idle_def mock_consts mock_flash_def)
  have c2: "fold (\<lambda>b f. qspi_send8 mock_io f b) cmd ?f = ?f0\<lparr>qspi_regs := ?h0\<lparr>m_txq := cmd\<rparr>\<rparr>"
    using len by (subst mock_send_all) (simp_all add: mock_hw_idle_def mock_flash_def)
  have c3: "qspi_set_ctrl mock_io (?f0\<lparr>qspi_regs := ?h0\<lparr>m_txq := cmd\<rparr>\<rparr>)
              (0x186 AND NOT QSPI_CR_TRANS_INHIBIT)
        = ?f0\<lparr>qspi_regs := (mock_hw_idle D (ch(s := c')))
               \<lparr>m_slave := NOT (push_bit s 1), m_rxq := resp, m_ctrl := 0x86\<rparr>\<rparr>"
    using len ex mock_selected_01[OF s]
    by (simp add: mock_regs mock_hw_idle_def mock_consts mock_flash_def mock_transfer_def)
  let ?f3 = "?f0\<lparr>qspi_regs := (mock_hw_idle D (ch(s := c')))
               \<lparr>m_slave := NOT (push_bit s 1), m_rxq := resp, m_ctrl := 0x86\<rparr>\<rparr>"
  have c4: "QSPI_BUSY_WAIT (\<lambda>f. case qspi_get_status mock_io f of (status, f') \<Rightarrow>
                    (status AND (QSPI_SR_TX_EMPTY OR QSPI_SR_ERRS) \<noteq> 0, f')) ?f3 = (False, ?f3)"
    by (rule busy_wait_now)
      (simp add: qspi_get_status_def qspi_reg_rd_def mock_io_sel mock_rd_def
        mock_status_tx_empty mock_hw_idle_def)
  let ?f5 = "?f0\<lparr>qspi_regs := (mock_hw_idle D (ch(s := c')))
               \<lparr>m_slave := NOT (push_bit s 1), m_rxq := resp\<rparr>\<rparr>"
  have c5: "qspi_set_ctrl mock_io ?f3 (0x186 OR QSPI_CR_TRANS_INHIBIT) = ?f5"
    by (simp add: mock_regs mock_hw_idle_def mock_consts mock_flash_def)
  have c6: "qspi_has_err mock_io ?f5 = (False, ?f5)"
    by (simp add: qspi_has_err_def qspi_get_status_def qspi_reg_rd_def mock_io_sel mock_rd_def
        mock_status_noerr mock_hw_idle_def)
  show ?thesis
    unfolding qspi_tx_def
    apply (simp only: c0 c1 c2 c3 c4 c5 c6 Let_def prod.case bool.case)
    apply simp
    done
qed

lemma mock_rx:
  assumes "length resp = n"
  shows "qspi_rx mock_io
           ((mock_flash D sect s ch io v sz)
              \<lparr>qspi_regs := (mock_hw_idle D ch)\<lparr>m_slave := w, m_rxq := resp\<rparr>\<rparr>) buf n
     = (Inr (), map_option (\<lambda>b. resp @ drop n b) buf,
        (mock_flash D sect s ch io v sz)\<lparr>qspi_regs := (mock_hw_idle D ch)\<lparr>m_slave := w\<rparr>\<rparr>)"
proof -
  let ?f0 = "mock_flash D sect s ch io v sz"
  let ?f = "?f0\<lparr>qspi_regs := (mock_hw_idle D ch)\<lparr>m_slave := w, m_rxq := resp\<rparr>\<rparr>"
  let ?g = "?f0\<lparr>qspi_regs := (mock_hw_idle D ch)\<lparr>m_slave := w, m_rxq := []\<rparr>\<rparr>"
  have p: "qspi_rx_pull mock_io (length resp) ?f = (True, resp, ?g)"
    by (subst mock_pull_all[where rest = "[]"]) (simp_all add: mock_hw_idle_def)
  have st: "qspi_get_status mock_io ?g = (mock_status (qspi_regs ?g), ?g)"
    by (simp add: mock_regs)
  have e: "mock_status (qspi_regs ?g) AND QSPI_SR_RX_EMPTY \<noteq> 0"
    by (rule mock_status_rx_empty) (simp_all add: mock_hw_idle_def)
  have he: "qspi_has_err mock_io ?g = (False, ?g)"
    by (simp add: qspi_has_err_def qspi_get_status_def qspi_reg_rd_def mock_io_sel mock_rd_def
        mock_status_noerr mock_hw_idle_def)
  have g: "?g = ?f0\<lparr>qspi_regs := (mock_hw_idle D ch)\<lparr>m_slave := w\<rparr>\<rparr>"
    by (simp add: mock_hw_idle_def)
  show ?thesis
    unfolding qspi_rx_def
    using assms p st e he g
    by (simp add: Let_def)
qed

lemma mock_transaction:
  assumes len: "cmd \<noteq> []" "length cmd \<le> D" and s: "s < 2"
    and ex: "chip_exec cmd (ch s) = (resp, c')" and rl: "length resp = length cmd"
  shows "qspi_transaction mock_io (mock_flash D sect s ch io v sz) cmd out
     = (Inr (), (if out then resp else cmd), mock_flash D sect s (ch(s := c')) io v sz)"
proof -
  let ?f = "mock_flash D sect s ch io v sz"
  have D: "0 < D" using len by (cases cmd) auto
  have rst: "qspi_reset_fifo mock_io ?f = (Inr (), ?f)"
    using D by (simp add: qspi_reset_fifo_def mock_regs mock_flash_def mock_hw_idle_def
        mock_status_def mock_consts)
  have sl: "qspi_curr_slave ?f = int s" "\<not> MAX_NUM_OF_SLAVES \<le> int s"
    using s by (simp_all add: mock_flash_def MAX_NUM_OF_SLAVES_def)
  have act: "qspi_activate_slave mock_io ?f (int s)
      = ?f\<lparr>qspi_regs := (mock_hw_idle D ch)\<lparr>m_slave := NOT (push_bit s 1)\<rparr>\<rparr>"
    using s by (auto simp add: qspi_activate_slave_def mock_regs mock_flash_def SLAVE_NONE_def)
  have tx: "qspi_tx mock_io
           (?f\<lparr>qspi_regs := (mock_hw_idle D ch)\<lparr>m_slave := NOT (push_bit s 1)\<rparr>\<rparr>) cmd
     = (Inr (), ?f\<lparr>qspi_regs := (mock_hw_idle D (ch(s := c')))
               \<lparr>m_slave := NOT (push_bit s 1), m_rxq := resp\<rparr>\<rparr>)"
    using len s ex by (rule mock_tx)
  have rx: "qspi_rx mock_io
           (?f\<lparr>qspi_regs := (mock_hw_idle D (ch(s := c')))
               \<lparr>m_slave := NOT (push_bit s 1), m_rxq := resp\<rparr>\<rparr>) buf (length cmd)
     = (Inr (), map_option (\<lambda>b. resp @ drop (length cmd) b) buf,
        ?f\<lparr>qspi_regs := (mock_hw_idle D (ch(s := c')))\<lparr>m_slave := NOT (push_bit s 1)\<rparr>\<rparr>)" for buf
    using mock_rx[where resp=resp and n="length cmd" and D=D and sect=sect and s=s
        and ch="ch(s := c')" and io=io and v=v and sz=sz and w="NOT (push_bit s 1)" and buf=buf] rl
    by (simp add: mock_flash_def)
  have deact: "qspi_activate_slave mock_io
        (?f\<lparr>qspi_regs := (mock_hw_idle D (ch(s := c')))\<lparr>m_slave := NOT (push_bit s 1)\<rparr>\<rparr>) SLAVE_NONE
      = mock_flash D sect s (ch(s := c')) io v sz"
    by (simp add: qspi_activate_slave_def mock_regs mock_flash_def mock_hw_idle_def)
  show ?thesis
    unfolding qspi_transaction_def
    using rl
    by (simp add: rst sl act tx rx deact Let_def del: push_bit_of_1)
qed


lemma chip_exec_length: "length (fst (chip_exec bytes c)) = length bytes"
  by (cases bytes) (auto simp add: chip_exec_def Let_def)

lemma chip_exec_status: "chip_exec [QSPI_CMD_STATUSREG_READ, 0] c = ([0, 0], c)"
  by (simp add: chip_exec_def QSPI_CMD_STATUSREG_READ_def)

lemma chip_exec_wren: "chip_exec [QSPI_CMD_WRITE_ENABLE] c = ([0], c\<lparr>c_wel := True\<rparr>)"
  by (simp add: chip_exec_def QSPI_CMD_STATUSREG_READ_def QSPI_CMD_WRITE_ENABLE_def)

lemma chip_exec_ear:
  "chip_exec [QSPI_CMD_EXTENDED_ADDRESS_REG_WRITE, x] c
     = ([0, 0], if c_wel c then c\<lparr>c_ear := x, c_wel := False\<rparr> else c)"
  by (simp add: chip_exec_def QSPI_CMD_STATUSREG_READ_def QSPI_CMD_WRITE_ENABLE_def
      QSPI_CMD_EXTENDED_ADDRESS_REG_WRITE_def)

lemma mock_is_ready:
  "2 \<le> D \<Longrightarrow> s < 2 \<Longrightarrow>
   qspi_is_ready mock_io (mock_flash D sect s ch io v sz) = (True, mock_flash D sect s ch io v sz)"
  unfolding qspi_is_ready_def
  by (subst mock_transaction[where resp = "[0, 0]" and c' = "ch s"])
     (simp_all add: chip_exec_status)

lemma mock_wait_until_ready:
  "2 \<le> D \<Longrightarrow> s < 2 \<Longrightarrow>
   qspi_wait_until_ready mock_io (mock_flash D sect s ch io v sz)
     = (True, mock_flash D sect s ch io v sz)"
  unfolding qspi_wait_until_ready_def
  by (subst busy_wait_now[where s' = "mock_flash D sect s ch io v sz"])
     (simp_all add: mock_is_ready)

lemma mock_enable_write:
  "1 \<le> D \<Longrightarrow> s < 2 \<Longrightarrow>
   qspi_enable_write mock_io (mock_flash D sect s ch io v sz)
     = (Inr (), mock_flash D sect s (ch(s := (ch s)\<lparr>c_wel := True\<rparr>)) io v sz)"
  unfolding qspi_enable_write_def
  by (subst mock_transaction[where resp = "[0]" and c' = "(ch s)\<lparr>c_wel := True\<rparr>"])
     (simp_all add: chip_exec_wren)

lemma mock_set_sector:
  assumes "2 \<le> D" "s < 2"
  shows "qspi_set_sector mock_io (mock_flash D sect s ch io v sz) x
     = (Inr (), if x = sect then mock_flash D sect s ch io v sz
                else mock_flash D x s (ch(s := (ch s)\<lparr>c_ear := x, c_wel := False\<rparr>)) io v sz)"
proof (cases "x = sect")
  case True
  then show ?thesis by (simp add: qspi_set_sector_def mock_flash_def)
next
  case False
  have cs: "qspi_curr_sector (mock_flash D sect s ch io v sz) = sect"
    by (simp add: mock_flash_def)
  have t: "qspi_transaction mock_io (mock_flash D sect s (ch(s := (ch s)\<lparr>c_wel := True\<rparr>)) io v sz)
             [QSPI_CMD_EXTENDED_ADDRESS_REG_WRITE, x] False
        = (Inr (), [QSPI_CMD_EXTENDED_ADDRESS_REG_WRITE, x],
           mock_flash D sect s (ch(s := (ch s)\<lparr>c_ear := x, c_wel := False\<rparr>)) io v sz)"
    using assms
    by (subst mock_transaction[where resp = "[0, 0]" and c' = "(ch s)\<lparr>c_ear := x, c_wel := False\<rparr>"])
       (simp_all add: chip_exec_ear)
  have upd: "(mock_flash D sect s ch' io v sz)\<lparr>qspi_curr_sector := x\<rparr> = mock_flash D x s ch' io v sz" for ch'
    by (simp add: mock_flash_def)
  show ?thesis
    using False assms
    by (simp add: qspi_set_sector_def cs mock_enable_write t upd)
qed

lemma mock_setup_header:
  assumes "4 \<le> D" "s < 2" "length io = D"
  shows "qspi_setup_io_cmd_header mock_io (mock_flash D sect s ch io v sz) op fa
     = (Inr 4, mock_flash D (sector fa) s
            (if sector fa = sect then ch
             else ch(s := (ch s)\<lparr>c_ear := sector fa, c_wel := False\<rparr>))
            (io[0 := op, 1 := addr_hi fa, 2 := addr_mid fa, 3 := addr_lo fa]) v sz)"
  using assms
  by (simp add: qspi_setup_io_cmd_header_def mock_set_sector) (simp add: mock_flash_def)

lemma chip_addr_faddr:
  "chip_addr (sector (qspi_offset2faddr off)) (addr_hi (qspi_offset2faddr off))
      (addr_mid (qspi_offset2faddr off)) (addr_lo (qspi_offset2faddr off)) = ucast off"
  unfolding chip_addr_def qspi_offset2faddr_def
  apply simp
  apply (rule bit_word_eqI)
  subgoal for n
    by (cases "n < 8"; cases "n < 16"; cases "n < 24"; cases "n < 32";
      auto simp add: bit_simps)
  done

lemma unat_of_nat64: "n < 2 ^ 32 \<Longrightarrow> unat (of_nat n :: 64 word) = n"
  by (simp add: unat_of_nat)

lemma depth_minus8: "8 \<le> D \<Longrightarrow> (of_nat D :: 64 word) - 4 - 4 = of_nat (D - 8)"
  by (simp add: of_nat_diff)

lemma depth_minus4: "4 \<le> D \<Longrightarrow> (of_nat D :: 64 word) - 4 = of_nat (D - 4)"
  by (simp add: of_nat_diff)

lemma unat_min: "unat (min a b) = min (unat a) (unat b)" for a b :: "'a::len word"
  by (simp add: min_def word_le_nat_alt)

lemma take_header:
  "4 \<le> length io \<Longrightarrow> 4 \<le> n \<Longrightarrow>
   take n (io[0 := a, 1 := b, 2 := c, 3 := d]) = a # b # c # d # take (n - 4) (drop 4 io)"
proof -
  assume l: "4 \<le> length io" and n: "4 \<le> n"
  then obtain x0 x1 x2 x3 r where io: "io = x0 # x1 # x2 # x3 # r"
    by (cases io; cases "tl io"; cases "tl (tl io)"; cases "tl (tl (tl io))") auto
  obtain m where m: "n = Suc (Suc (Suc (Suc m)))"
    using n by (cases n; cases "n - 1"; cases "n - 2"; cases "n - 3") auto
  show ?thesis by (simp add: io m)
qed

lemma chip_exec_read:
  assumes "4 \<le> length dat"
  shows "chip_exec (QSPI_CMD_QUAD_READ # hi # mid # lo # dat) c
     = (replicate 8 0 @ map (\<lambda>i. c_mem c (chip_addr (c_ear c) hi mid lo + of_nat i))
             [0..<length dat - 4], c)"
proof -
  let ?xs = "replicate 8 (0 :: u8) @ map (\<lambda>i. c_mem c (chip_addr (c_ear c) hi mid lo + of_nat i))
             [0..<length dat - 4]"
  have t: "take (length (QSPI_CMD_QUAD_READ # hi # mid # lo # dat)) ?xs = ?xs"
    using assms by (intro take_all) simp
  have "chip_exec (QSPI_CMD_QUAD_READ # hi # mid # lo # dat) c
      = (take (length (QSPI_CMD_QUAD_READ # hi # mid # lo # dat)) ?xs, c)"
    by (simp add: chip_exec_def QSPI_CMD_QUAD_READ_def QSPI_CMD_STATUSREG_READ_def
      QSPI_CMD_WRITE_ENABLE_def QSPI_CMD_EXTENDED_ADDRESS_REG_WRITE_def Let_def
      del: take_append length_Cons list.size) simp
  then show ?thesis by (simp only: t)
qed

lemma mock_exec_io_cmd:
  assumes "0 < unat len" "unat len \<le> D" "length io = D" "s < 2"
    and "chip_exec (take (unat len) io) (ch s) = (resp, c')"
  shows "qspi_exec_io_cmd mock_io (mock_flash D sect s ch io v sz) len out
     = (Inr (), mock_flash D sect s (ch(s := c'))
          ((if out then resp else take (unat len) io) @ drop (unat len) io) v sz)"
proof -
  have rl: "length resp = length (take (unat len) io)"
    using chip_exec_length[of "take (unat len) io" "ch s"] assms(5) by simp
  have ne: "take (unat len) io \<noteq> []" using assms by auto
  have le: "length (take (unat len) io) \<le> D" using assms by simp
  have iob: "io_buf (mock_flash D sect s ch' io v sz) = io" for ch' by (simp add: mock_flash_def)
  have upd: "(mock_flash D sect s ch' io v sz)\<lparr>io_buf := b\<rparr> = mock_flash D sect s ch' b v sz" for ch' b
    by (simp add: mock_flash_def)
  have t: "qspi_transaction mock_io (mock_flash D sect s ch io v sz) (take (unat len) io) out
     = (Inr (), (if out then resp else take (unat len) io), mock_flash D sect s (ch(s := c')) io v sz)"
    using ne le assms(4) assms(5) rl by (rule mock_transaction)
  show ?thesis
    unfolding qspi_exec_io_cmd_def
    using assms(2,3)
    by (simp add: iob upd t)
qed

lemma mock_flash_sel:
  "io_buf (mock_flash D sect s ch io v sz) = io"
  "qspi_fifo_depth (mock_flash D sect s ch io v sz) = of_nat D"
  "vendor (mock_flash D sect s ch io v sz) = v"
  "flash_size (mock_flash D sect s ch io v sz) = sz"
  "qspi_curr_sector (mock_flash D sect s ch io v sz) = sect"
  "(mock_flash D sect s ch io v sz)\<lparr>io_buf := b\<rparr> = mock_flash D sect s ch b v sz"
  by (simp_all add: mock_flash_def)

lemma mock_restI:
  "length io = D \<Longrightarrow> c_mem (ch s) = mem \<Longrightarrow> c_ear (ch s) = e \<Longrightarrow> ch = oth(s := ch s) \<Longrightarrow>
   mock_rest D s v sz c e mem oth (mock_flash D c s ch io v sz)"
  unfolding mock_rest_def by blast

lemma oth_upd: "ch = oth(s := ch s) \<Longrightarrow> ch(s := y) = oth(s := y)"
  by (metis fun_upd_upd)

lemma oth_keep: "ch = oth(s := ch s) \<Longrightarrow> ch(s := y) = oth(s := (ch(s := y)) s)"
  by (simp add: oth_upd)

lemma ear_after_idem: "ear_after x (ear_after c e x) x = ear_after c e x"
  by (simp add: ear_after_def)

lemma chip_addr_at:
  "chip_addr e (addr_hi (qspi_offset2faddr off)) (addr_mid (qspi_offset2faddr off))
      (addr_lo (qspi_offset2faddr off)) = chip_at e off"
  unfolding chip_addr_def chip_at_def qspi_offset2faddr_def
  apply simp
  apply (rule bit_word_eqI)
  subgoal for n
    by (cases "n < 8"; cases "n < 16"; cases "n < 24"; cases "n < 32";
      auto simp add: bit_simps)
  done

lemma chip_at_sector: "chip_at (sector (qspi_offset2faddr off)) off = ucast off"
  unfolding chip_at_def qspi_offset2faddr_def
  apply simp
  apply (rule bit_word_eqI)
  subgoal for n
    by (cases "n < 24"; cases "n < 32"; auto simp add: bit_simps)
  done

lemma chip_at_plus:
  "chip_at e off = push_bit 24 (ucast e) + take_bit 24 (ucast off)"
  unfolding chip_at_def
  by (rule disjunctive_add[symmetric]) (auto simp add: bit_simps)

lemma chip_at_alt:
  "chip_at e off
     = ucast off - push_bit 24 (ucast (sector (qspi_offset2faddr off))) + push_bit 24 (ucast e)"
proof -
  have "(ucast off :: 32 word)
      = push_bit 24 (ucast (sector (qspi_offset2faddr off))) + take_bit 24 (ucast off)"
    using chip_at_sector[of off] chip_at_plus[of "sector (qspi_offset2faddr off)" off] by simp
  hence "take_bit 24 (ucast off :: 32 word)
      = ucast off - push_bit 24 (ucast (sector (qspi_offset2faddr off)))"
    by (simp add: algebra_simps)
  thus ?thesis unfolding chip_at_plus by simp
qed

lemma tb_add_int: "take_bit 32 (take_bit 64 a + take_bit 64 b) = take_bit 32 (a + b)" for a b :: int
proof -
  have "take_bit 32 (take_bit 64 a + take_bit 64 b)
      = take_bit 32 (take_bit 32 (take_bit 64 a) + take_bit 32 (take_bit 64 b))"
    by (simp only: take_bit_add)
  also have "\<dots> = take_bit 32 (take_bit 32 a + take_bit 32 b)"
    by (simp add: take_bit_take_bit)
  also have "\<dots> = take_bit 32 (a + b)" by (simp only: take_bit_add)
  finally show ?thesis .
qed

lemma ucast_add_down: "(ucast (a + b) :: 32 word) = ucast a + ucast b" for a b :: "64 word"
  apply transfer
  apply (simp add: tb_add_int take_bit_take_bit)
  done

lemma ucast_of_nat_down: "(ucast (of_nat n :: 64 word) :: 32 word) = of_nat n"
  apply transfer
  apply (simp add: take_bit_take_bit)
  done

lemma chip_at_add:
  assumes "sector (qspi_offset2faddr (off + N)) = sector (qspi_offset2faddr off)"
  shows "chip_at e (off + N) = chip_at e off + ucast N"
  unfolding chip_at_alt assms by (simp add: ucast_add_down)

lemma chunk_addr:
  assumes "sector (qspi_offset2faddr (off + N)) = sector (qspi_offset2faddr off)"
  shows "chip_at e (off + N) + of_nat i = chip_at e off + of_nat (unat N + i)"
  unfolding chip_at_add[OF assms] by simp

lemma mock_fifo_rd:
  assumes D: "9 \<le> D" "D < 2 ^ 32" and s: "s < 2"
    and st: "mock_rest D s v sz c e mem oth f"
    and x: "sector (qspi_offset2faddr off) = x"
  shows "\<exists>f'. qspi_fifo_rd mock_io f off cnt
            = (Inr (min cnt (of_nat (D - 8)),
                 map (\<lambda>i. mem (chip_at (ear_after c e x) off + of_nat i))
                   [0..<unat (min cnt (of_nat (D - 8)))]), f')
          \<and> mock_rest D s v sz x (ear_after c e x) mem oth f'"
proof -
  from st obtain ch io where f: "f = mock_flash D c s ch io v sz"
    and lio: "length io = D" and m: "c_mem (ch s) = mem" and ea: "c_ear (ch s) = e"
    and ot: "ch = oth(s := ch s)"
    unfolding mock_rest_def by blast
  let ?fa = "qspi_offset2faddr off"
  define e' where "e' = ear_after c e x"
  define ch1 where "ch1 = (if sector ?fa = c then ch
             else ch(s := (ch s)\<lparr>c_ear := sector ?fa, c_wel := False\<rparr>))"
  define io1 where "io1 = io[0 := QSPI_CMD_QUAD_READ, 1 := addr_hi ?fa, 2 := addr_mid ?fa, 3 := addr_lo ?fa]"
  have hdr: "qspi_setup_io_cmd_header mock_io f QSPI_CMD_QUAD_READ ?fa
      = (Inr 4, mock_flash D x s ch1 io1 v sz)"
    unfolding f ch1_def io1_def using D s lio x
    by (subst mock_setup_header) simp_all
  have ear1: "c_ear (ch1 s) = e'" using ea x by (auto simp add: ch1_def e'_def ear_after_def)
  have mem1: "c_mem (ch1 s) = mem" using m by (auto simp add: ch1_def)
  have ot1: "ch1 = oth(s := ch1 s)" using ot oth_keep[OF ot] by (auto simp add: ch1_def)
  have lio1: "length io1 = D" using lio by (simp add: io1_def)
  define p where "p = min cnt (of_nat (D - 8) :: 64 word)"
  have u8: "unat (of_nat (D - 8) :: 64 word) = D - 8"
    using D by (intro unat_of_nat64) simp
  have up: "unat p \<le> D - 8"
    unfolding p_def unat_min u8 by simp
  have pl: "fifo_rd_payload_len (mock_flash D x s ch1 io1 v sz) 4 cnt = p"
    using D by (simp add: fifo_rd_payload_len_def mock_flash_sel read_dummy_len_def
        depth_minus8 p_def)
  have ut: "unat (p + 4 + read_dummy_len) = unat p + 8"
  proof -
    have "unat p + unat (8 :: 64 word) < 2 ^ 64" using up D by simp
    hence "unat (p + 8) = unat p + unat (8 :: 64 word)"
      using unat_add_lem[of p 8] by simp
    thus ?thesis by (simp add: read_dummy_len_def add.assoc)
  qed
  define dat where "dat = take (unat p + 4) (drop 4 io)"
  have ldat: "length dat = unat p + 4" using up D lio by (simp add: dat_def)
  have tk: "take (unat p + 8) io1
      = QSPI_CMD_QUAD_READ # addr_hi ?fa # addr_mid ?fa # addr_lo ?fa # dat"
    unfolding io1_def dat_def using lio D
    by (subst take_header) (simp_all add: add.commute)
  define resp where "resp = replicate 8 (0 :: u8) @ map (\<lambda>i. mem (chip_at e' off + of_nat i)) [0..<unat p]"
  have ce: "chip_exec (take (unat (p + 4 + read_dummy_len)) io1) (ch1 s) = (resp, ch1 s)"
    unfolding ut tk resp_def
    using ldat chip_addr_at[of e' off] ear1 mem1
    by (subst chip_exec_read) simp_all
  define io2 where "io2 = resp @ drop (unat p + 8) io1"
  have ex: "qspi_exec_io_cmd mock_io (mock_flash D x s ch1 io1 v sz) (p + 4 + read_dummy_len) True
      = (Inr (), mock_flash D x s ch1 io2 v sz)"
    using up D lio1 s ce
    by (subst mock_exec_io_cmd[where resp = resp and c' = "ch1 s"])
       (simp_all add: ut io2_def)
  have lio2: "length io2 = D"
    using up D lio1 by (simp add: io2_def resp_def)
  have bytes: "take (unat p) (drop (unat (4 + read_dummy_len)) io2)
      = map (\<lambda>i. mem (chip_at e' off + of_nat i)) [0..<unat p]"
    by (simp add: io2_def resp_def read_dummy_len_def)
  have ok: "\<not> length io2 < unat (4 + read_dummy_len) + unat p"
    using lio2 up D by (simp add: read_dummy_len_def)
  have at: "mock_rest D s v sz x e' mem oth (mock_flash D x s ch1 io2 v sz)"
    using lio2 mem1 ear1 ot1 by (rule mock_restI)
  have "qspi_fifo_rd mock_io f off cnt
      = (Inr (p, map (\<lambda>i. mem (chip_at e' off + of_nat i)) [0..<unat p]), mock_flash D x s ch1 io2 v sz)"
    unfolding qspi_fifo_rd_def
    using ok
    by (simp add: hdr pl ex bytes mock_flash_sel Let_def)
  thus ?thesis using at unfolding p_def e'_def by blast
qed

lemma map_upt_shift: "map g [a..<a + p] = map (\<lambda>i. g (a + i)) [0..<p]"
proof -
  have "[a..<a + p] = map (\<lambda>i. i + a) [0..<p]"
    using map_add_upt[of a p] by (simp add: add.commute)
  thus ?thesis by (simp add: comp_def add.commute)
qed

lemma mock_read_loop:
  assumes D: "9 \<le> D" "D < 2 ^ 32" and s: "s < 2"
    and sec: "\<And>i. i < unat L \<Longrightarrow> sector (qspi_offset2faddr (off + of_nat i)) = x"
  shows "mock_rest D s v sz c e mem oth f \<Longrightarrow> N \<le> L \<Longrightarrow>
     \<exists>f'. qspi_buf_rdwr_loop mock_io False off L N buf f
            = Some (Inr (), buf @ map (\<lambda>i. mem (chip_at (ear_after c e x) off + of_nat i))
                                   [unat N..<unat L], f')
          \<and> (N = L \<and> f' = f \<or> mock_rest D s v sz x (ear_after c e x) mem oth f')"
proof (induction "unat L - unat N" arbitrary: N buf f c e rule: less_induct)
  case less
  show ?case
  proof (cases "N < L")
    case False
    with less.prems have "N = L" by simp
    thus ?thesis using less.prems
      by (subst qspi_buf_rdwr_loop.simps) simp
  next
    case True
    define e' where "e' = ear_after c e x"
    define p where "p = min (L - N) (of_nat (D - 8) :: 64 word)"
    have nl: "unat N < unat L" using True by (simp add: word_less_nat_alt)
    have uln: "unat (L - N) = unat L - unat N"
      using less.prems(2) by (rule unat_sub)
    have u8: "unat (of_nat (D - 8) :: 64 word) = D - 8"
      using D by (intro unat_of_nat64) simp
    have up: "unat p = min (unat L - unat N) (D - 8)"
      unfolding p_def unat_min u8 uln ..
    have ppos: "0 < unat p" using up nl D by simp
    have ple: "unat N + unat p \<le> unat L" using up nl by simp
    have unp: "unat (N + p) = unat N + unat p"
    proof -
      have "unat L < 2 ^ 64" using unsigned_less[of L] by simp
      hence "unat N + unat p < 2 ^ LENGTH(64)" using ple by simp
      thus ?thesis using unat_add_lem[of N p] by blast
    qed
    have secN: "sector (qspi_offset2faddr (off + N)) = x"
      using sec[of "unat N"] nl by simp
    have sec0: "sector (qspi_offset2faddr off) = x"
      using sec[of 0] nl by simp
    from mock_fifo_rd[OF D s less.prems(1) secN, of "L - N"]
    obtain f1 where rd: "qspi_fifo_rd mock_io f (off + N) (L - N)
            = (Inr (p, map (\<lambda>i. mem (chip_at e' (off + N) + of_nat i)) [0..<unat p]), f1)"
      and at1: "mock_rest D s v sz x e' mem oth f1"
      unfolding p_def e'_def by blast
    let ?bytes = "map (\<lambda>i. mem (chip_at e' (off + N) + of_nat i)) [0..<unat p]"
    have le': "N + p \<le> L" using ple unp by (simp add: word_le_nat_alt)
    have dec: "unat L - unat (N + p) < unat L - unat N" using unp ppos nl ple by simp
    have idem: "ear_after x e' x = e'" by (simp add: ear_after_def)
    from less.hyps[OF dec at1 le', of "buf @ ?bytes"]
    obtain f' where rec: "qspi_buf_rdwr_loop mock_io False off L (N + p) (buf @ ?bytes) f1
            = Some (Inr (), (buf @ ?bytes) @ map (\<lambda>i. mem (chip_at e' off + of_nat i)) [unat (N + p)..<unat L], f')"
      and sy: "N + p = L \<and> f' = f1 \<or> mock_rest D s v sz x e' mem oth f'"
      unfolding idem by blast
    have sy': "mock_rest D s v sz x e' mem oth f'" using sy at1 by blast
    have ca: "chip_at e' (off + N) + of_nat i = chip_at e' off + of_nat (unat N + i)" for i
      by (rule chunk_addr) (simp add: secN sec0)
    have b: "?bytes = map (\<lambda>i. mem (chip_at e' off + of_nat i)) [unat N..<unat N + unat p]"
      by (simp only: map_upt_shift ca)
    have spl: "[unat N..<unat L] = [unat N..<unat N + unat p] @ [unat N + unat p..<unat L]"
      using ple by (metis le_add1 le_Suc_ex upt_add_eq_append)
    have "qspi_buf_rdwr_loop mock_io False off L N buf f
       = Some (Inr (), buf @ map (\<lambda>i. mem (chip_at e' off + of_nat i)) [unat N..<unat L], f')"
      apply (subst qspi_buf_rdwr_loop.simps)
      using True
      apply (simp only: if_True if_False Let_def rd prod.case sum.case rec)
      apply (simp only: b unp spl map_append append_assoc)
      done
    thus ?thesis using sy' unfolding e'_def by blast
  qed
qed

text \<open>
  A read of \<open>L\<close> bytes through \<open>qspi_buf_rdwr\<close>, as \<open>qspi_page_rmw\<close> issues it: skipped
  when \<open>L\<close> is 0. The controller is left at rest, and what a later select of sector \<open>x\<close>
  makes of the extended address register is what it would have made of it before.
\<close>

lemma mock_buf_read:
  assumes D: "9 \<le> D" "D < 2 ^ 32" and s: "s < 2"
    and sec: "\<And>i. i < unat L \<Longrightarrow> sector (qspi_offset2faddr (off + of_nat i)) = x"
    and st: "mock_rest D s v sz c e mem oth f"
  shows "\<exists>f' c' e'. (if L \<noteq> 0 then qspi_buf_rdwr mock_io f [] off L False else Some (Inr (), [], f))
            = Some (Inr (), map (\<lambda>i. mem (chip_at (ear_after c e x) off + of_nat i)) [0..<unat L], f')
          \<and> mock_rest D s v sz c' e' mem oth f' \<and> ear_after c' e' x = ear_after c e x
          \<and> (L = 0 \<or> c' = x)"
proof (cases "L = 0")
  case True
  then show ?thesis using st by auto
next
  case False
  have "0 \<le> L" by simp
  from mock_read_loop[OF D s sec st this, where buf = "[]"]
  obtain f' where r: "qspi_buf_rdwr_loop mock_io False off L 0 [] f
            = Some (Inr (), [] @ map (\<lambda>i. mem (chip_at (ear_after c e x) off + of_nat i))
                  [unat (0 :: 64 word)..<unat L], f')"
    and "0 = L \<and> f' = f \<or> mock_rest D s v sz x (ear_after c e x) mem oth f'"
    by blast
  hence a: "mock_rest D s v sz x (ear_after c e x) mem oth f'" using False by auto
  have "ear_after x (ear_after c e x) x = ear_after c e x" by (rule ear_after_idem)
  thus ?thesis using False r a
    by (auto simp add: qspi_buf_rdwr_def)
qed

lemma chip_program_nil: "chip_program mem a [] = mem"
  by (simp add: chip_program_def)

lemma chip_program_append:
  assumes "length d1 + length d2 \<le> 2 ^ 32"
  shows "chip_program (chip_program mem a d1) (a + of_nat (length d1)) d2
       = chip_program mem a (d1 @ d2)"
proof (rule ext)
  fix x :: "32 word"
  define k where "k = unat (x - a)"
  have kb: "k < 2 ^ 32" using unsigned_less[of "x - a"] by (simp add: k_def)
  have xa: "x - (a + of_nat (length d1)) = (x - a) - of_nat (length d1)" by simp
  show "chip_program (chip_program mem a d1) (a + of_nat (length d1)) d2 x
       = chip_program mem a (d1 @ d2) x"
  proof (cases "k < length d1")
    case True
    have "unat ((x - a) - of_nat (length d1) :: 32 word) \<ge> length d2"
    proof (cases "length d1 < 2 ^ 32")
      case l: True
      have u: "unat (of_nat (length d1) :: 32 word) = length d1"
        using l by (simp add: unat_of_nat)
      have "unat ((x - a) - of_nat (length d1) :: 32 word) = k + 2 ^ 32 - length d1"
        using True u by (simp add: unat_sub_if' k_def)
      thus ?thesis using assms True by simp
    next
      case False
      hence "length d2 = 0" using assms by linarith
      thus ?thesis by simp
    qed
    thus ?thesis using True
      by (simp add: chip_program_def xa k_def[symmetric] nth_append)
  next
    case False
    hence l: "length d1 < 2 ^ 32" using kb by simp
    have u: "unat (of_nat (length d1) :: 32 word) = length d1"
      using l by (simp add: unat_of_nat)
    have "unat ((x - a) - of_nat (length d1) :: 32 word) = k - length d1"
      using False u by (simp add: unat_sub_if' k_def)
    thus ?thesis using False
      by (auto simp add: chip_program_def xa k_def[symmetric] nth_append)
  qed
qed

lemma chip_exec_program:
  assumes "c_wel c"
  shows "chip_exec (write_cmd v # hi # mid # lo # dat) c
     = (0 # 0 # 0 # 0 # replicate (length dat) 0,
        c\<lparr>c_mem := chip_program (c_mem c) (chip_addr (c_ear c) hi mid lo) dat, c_wel := False\<rparr>)"
  using assms
  by (cases v)
     (simp_all add: chip_exec_def QSPI_CMD_QUAD_READ_def QSPI_CMD_STATUSREG_READ_def
      QSPI_CMD_WRITE_ENABLE_def QSPI_CMD_EXTENDED_ADDRESS_REG_WRITE_def Let_def
      QSPI_CMD_QUAD_WRITE_def QSPI_CMD_PAGE_PROGRAM_def)

lemma take4_header:
  "4 \<le> length io \<Longrightarrow> take 4 (io[0 := a, 1 := b, 2 := c, 3 := d]) = [a, b, c, d]"
  using take_header[of io 4 a b c d] by simp

lemma take_plus4: "take (n + 4) (a # b # c # d # xs) = a # b # c # d # take n xs"
proof -
  have "n + 4 = Suc (Suc (Suc (Suc n)))" by simp
  thus ?thesis by (simp only: take_Suc_Cons)
qed

lemma mock_fifo_wr:
  assumes D: "5 \<le> D" "D < 2 ^ 32" and s: "s < 2"
    and st: "mock_rest D s v sz c e mem oth f"
    and x: "sector (qspi_offset2faddr off) = x"
    and lb: "unat cnt \<le> length buf"
  shows "\<exists>f'. qspi_fifo_wr mock_io f off buf cnt
            = (Inr (min (min cnt (of_nat (D - 4))) 128), f')
          \<and> mock_rest D s v sz x (ear_after c e x)
               (chip_program mem (chip_at (ear_after c e x) off)
                  (take (unat (min (min cnt (of_nat (D - 4))) (128 :: 64 word))) buf)) oth f'"
proof -
  from st obtain ch io where f: "f = mock_flash D c s ch io v sz"
    and lio: "length io = D" and m: "c_mem (ch s) = mem" and ea: "c_ear (ch s) = e"
    and ot: "ch = oth(s := ch s)"
    unfolding mock_rest_def by blast
  let ?fa = "qspi_offset2faddr off"
  define e' where "e' = ear_after c e x"
  define ch1 where "ch1 = (if sector ?fa = c then ch
             else ch(s := (ch s)\<lparr>c_ear := sector ?fa, c_wel := False\<rparr>))"
  define io1 where "io1 = io[0 := write_cmd v, 1 := addr_hi ?fa, 2 := addr_mid ?fa, 3 := addr_lo ?fa]"
  have hdr: "qspi_setup_io_cmd_header mock_io f (write_cmd (vendor f)) ?fa
      = (Inr 4, mock_flash D x s ch1 io1 v sz)"
    unfolding f ch1_def io1_def using D s lio x
    by (subst mock_setup_header) (simp_all add: mock_flash_sel)
  have ear1: "c_ear (ch1 s) = e'" using ea x by (auto simp add: ch1_def e'_def ear_after_def)
  have mem1: "c_mem (ch1 s) = mem" using m by (auto simp add: ch1_def)
  have ot1: "ch1 = oth(s := ch1 s)" using ot oth_keep[OF ot] by (auto simp add: ch1_def)
  have lio1: "length io1 = D" using lio by (simp add: io1_def)
  define p where "p = min (min cnt (of_nat (D - 4))) (128 :: 64 word)"
  have u4: "unat (of_nat (D - 4) :: 64 word) = D - 4"
    using D by (intro unat_of_nat64) simp
  have up: "unat p = min (min (unat cnt) (D - 4)) 128"
    unfolding p_def unat_min u4 by simp
  have up4: "unat p \<le> D - 4" using up by simp
  have upb: "unat p \<le> length buf" using up lb by simp
  have d4: "(of_nat D :: 64 word) - 4 = of_nat (D - 4)"
    using D by (intro depth_minus4) simp
  have pl: "fifo_wr_payload_len (mock_flash D x s ch1 io1 v sz) 4 cnt = p"
    unfolding fifo_wr_payload_len_def mock_flash_sel write_max_len_def Let_def d4 p_def ..
  have ut: "unat (p + 4) = unat p + 4"
  proof -
    have "unat p + unat (4 :: 64 word) < 2 ^ 64" using up4 D by simp
    hence "unat (p + 4) = unat p + unat (4 :: 64 word)"
      using unat_add_lem[of p 4] by simp
    thus ?thesis by simp
  qed
  define dat where "dat = take (unat p) buf"
  have ldat: "length dat = unat p" using upb by (simp add: dat_def)
  define io2 where "io2 = take (unat (4 :: 64 word)) io1 @ dat @ drop (unat (4 :: 64 word) + unat p) io1"
  have io2: "io2 = [write_cmd v, addr_hi ?fa, addr_mid ?fa, addr_lo ?fa] @ dat @ drop (4 + unat p) io1"
  proof -
    have t4: "take 4 io1 = [write_cmd v, addr_hi ?fa, addr_mid ?fa, addr_lo ?fa]"
      unfolding io1_def using lio D by (intro take4_header) simp
    show ?thesis unfolding io2_def using t4 by simp
  qed
  have io2n: "take 4 io1 @ dat @ drop (4 + unat p) io1 = io2" by (simp add: io2_def)
  have lio2: "length io2 = D" using io2 ldat lio1 up4 D by simp
  have tk: "take (unat p + 4) io2 = write_cmd v # addr_hi ?fa # addr_mid ?fa # addr_lo ?fa # dat"
    using ldat by (simp add: io2 take_plus4 del: One_nat_def)
  define ch2 where "ch2 = ch1(s := (ch1 s)\<lparr>c_wel := True\<rparr>)"
  have we: "qspi_enable_write mock_io (mock_flash D x s ch1 io2 v sz)
      = (Inr (), mock_flash D x s ch2 io2 v sz)"
    unfolding ch2_def using D s by (subst mock_enable_write) simp_all
  define c3 where "c3 = (ch2 s)\<lparr>c_mem := chip_program mem (chip_at e' off) dat, c_wel := False\<rparr>"
  have ce: "chip_exec (take (unat (p + 4)) io2) (ch2 s) = (0 # 0 # 0 # 0 # replicate (length dat) 0, c3)"
    unfolding ut tk c3_def
    using chip_addr_at[of e' off] ear1 mem1
    by (subst chip_exec_program) (simp_all add: ch2_def)
  have ex: "qspi_exec_io_cmd mock_io (mock_flash D x s ch2 io2 v sz) (p + 4) False
      = (Inr (), mock_flash D x s (ch2(s := c3)) io2 v sz)"
    using up4 D lio2 s ce
    by (subst mock_exec_io_cmd[where resp = "0 # 0 # 0 # 0 # replicate (length dat) 0" and c' = c3])
       (simp_all add: ut)
  have wr: "qspi_wait_until_ready mock_io (mock_flash D x s (ch2(s := c3)) io2 v sz)
      = (True, mock_flash D x s (ch2(s := c3)) io2 v sz)"
    using D s by (subst mock_wait_until_ready) simp_all
  have ok: "\<not> length io1 < unat (4 :: 64 word) + unat p"
    using lio1 up4 D by simp
  have ot3: "ch2(s := c3) = oth(s := (ch2(s := c3)) s)"
    using oth_upd[OF ot1] by (simp add: ch2_def)
  have at: "mock_rest D s v sz x e' (chip_program mem (chip_at e' off) dat) oth
              (mock_flash D x s (ch2(s := c3)) io2 v sz)"
    using lio2 ear1 ot3 by (intro mock_restI) (simp_all add: c3_def ch2_def)
  have "qspi_fifo_wr mock_io f off buf cnt
      = (Inr p, mock_flash D x s (ch2(s := c3)) io2 v sz)"
    unfolding qspi_fifo_wr_def
    using ok
    by (simp add: hdr pl mock_flash_sel Let_def io2n dat_def[symmetric] we ex wr)
  thus ?thesis using at unfolding p_def dat_def e'_def by blast
qed

lemma chip_exec_erase:
  assumes "c_wel c"
    and "op = QSPI_CMD_4KB_SUBSECTOR_ERASE \<or> op = QSPI_CMD_32KB_SUBSECTOR_ERASE
         \<or> op = QSPI_CMD_SECTOR_ERASE \<or> op = 0"
  shows "chip_exec [op, hi, mid, lo] c
     = ([0, 0, 0, 0],
        c\<lparr>c_mem := chip_erase_op op (c_mem c) (chip_addr (c_ear c) hi mid lo), c_wel := (op = 0)\<rparr>)"
  using assms
  by (auto simp add: chip_exec_def chip_erase_op_def QSPI_CMD_QUAD_READ_def
      QSPI_CMD_STATUSREG_READ_def QSPI_CMD_WRITE_ENABLE_def
      QSPI_CMD_EXTENDED_ADDRESS_REG_WRITE_def Let_def QSPI_CMD_QUAD_WRITE_def
      QSPI_CMD_PAGE_PROGRAM_def QSPI_CMD_4KB_SUBSECTOR_ERASE_def
      QSPI_CMD_32KB_SUBSECTOR_ERASE_def QSPI_CMD_SECTOR_ERASE_def)

lemma erase_cmd_cases:
  "qspi_erase_cmd pagesz = QSPI_CMD_4KB_SUBSECTOR_ERASE
   \<or> qspi_erase_cmd pagesz = QSPI_CMD_32KB_SUBSECTOR_ERASE
   \<or> qspi_erase_cmd pagesz = QSPI_CMD_SECTOR_ERASE \<or> qspi_erase_cmd pagesz = 0"
  by (simp add: qspi_erase_cmd_def Let_def)

text \<open>
  \<open>qspi_page_erase\<close> on the mock, for every page size: the erase sequence runs and
  succeeds, the chip receives the opcode of \<open>qspi_erase_cmd\<close> after a write enable, and
  its write-enable latch stays set exactly when that opcode is 0, which the chip ignores.
\<close>

lemma mock_page_erase:
  assumes D: "5 \<le> D" "D < 2 ^ 32" and s: "s < 2"
    and st: "mock_rest D s v sz c e mem oth f"
    and x: "sector (qspi_offset2faddr off) = x"
  shows "\<exists>f'. qspi_page_erase mock_io f off pagesz = (Inr (), f')
          \<and> mock_rest D s v sz x (ear_after c e x)
               (chip_erase_op (qspi_erase_cmd pagesz) mem (chip_at (ear_after c e x) off)) oth f'
          \<and> c_wel (m_chip (qspi_regs f') s) = (qspi_erase_cmd pagesz = 0)"
proof -
  from st obtain ch io where f: "f = mock_flash D c s ch io v sz"
    and lio: "length io = D" and m: "c_mem (ch s) = mem" and ea: "c_ear (ch s) = e"
    and ot: "ch = oth(s := ch s)"
    unfolding mock_rest_def by blast
  let ?fa = "qspi_offset2faddr off"
  define op where "op = qspi_erase_cmd pagesz"
  define e' where "e' = ear_after c e x"
  define ch1 where "ch1 = (if sector ?fa = c then ch
             else ch(s := (ch s)\<lparr>c_ear := sector ?fa, c_wel := False\<rparr>))"
  define io1 where "io1 = io[0 := op, 1 := addr_hi ?fa, 2 := addr_mid ?fa, 3 := addr_lo ?fa]"
  have opc: "op = QSPI_CMD_4KB_SUBSECTOR_ERASE \<or> op = QSPI_CMD_32KB_SUBSECTOR_ERASE
         \<or> op = QSPI_CMD_SECTOR_ERASE \<or> op = 0"
    unfolding op_def by (rule erase_cmd_cases)
  have w1: "qspi_wait_until_ready mock_io f = (True, f)"
    unfolding f using D s by (subst mock_wait_until_ready) simp_all
  have hdr: "qspi_setup_io_cmd_header mock_io f op ?fa = (Inr 4, mock_flash D x s ch1 io1 v sz)"
    unfolding f ch1_def io1_def using D s lio x
    by (subst mock_setup_header) simp_all
  have ear1: "c_ear (ch1 s) = e'" using ea x by (auto simp add: ch1_def e'_def ear_after_def)
  have mem1: "c_mem (ch1 s) = mem" using m by (auto simp add: ch1_def)
  have ot1: "ch1 = oth(s := ch1 s)" using ot oth_keep[OF ot] by (auto simp add: ch1_def)
  have lio1: "length io1 = D" using lio by (simp add: io1_def)
  have t4: "take 4 io1 = [op, addr_hi ?fa, addr_mid ?fa, addr_lo ?fa]"
    unfolding io1_def using lio D by (intro take4_header) simp
  define ch2 where "ch2 = ch1(s := (ch1 s)\<lparr>c_wel := True\<rparr>)"
  have we: "qspi_enable_write mock_io (mock_flash D x s ch1 io1 v sz)
      = (Inr (), mock_flash D x s ch2 io1 v sz)"
    unfolding ch2_def using D s by (subst mock_enable_write) simp_all
  define c3 where "c3 = (ch2 s)\<lparr>c_mem := chip_erase_op op mem (chip_at e' off), c_wel := (op = 0)\<rparr>"
  have wel2: "c_wel (ch2 s)" by (simp add: ch2_def)
  have ce: "chip_exec (take (unat (4 :: 64 word)) io1) (ch2 s) = ([0, 0, 0, 0], c3)"
    using chip_addr_at[of e' off] ear1 mem1 chip_exec_erase[OF wel2 opc]
    by (simp add: t4 ch2_def c3_def)
  have ex: "qspi_exec_io_cmd mock_io (mock_flash D x s ch2 io1 v sz) 4 False
      = (Inr (), mock_flash D x s (ch2(s := c3)) io1 v sz)"
    using D lio1 s ce
    by (subst mock_exec_io_cmd[where resp = "[0, 0, 0, 0]" and c' = c3]) simp_all
  have wr: "qspi_wait_until_ready mock_io (mock_flash D x s (ch2(s := c3)) io1 v sz)
      = (True, mock_flash D x s (ch2(s := c3)) io1 v sz)"
    using D s by (subst mock_wait_until_ready) simp_all
  have ot3: "ch2(s := c3) = oth(s := (ch2(s := c3)) s)"
    using oth_upd[OF ot1] by (simp add: ch2_def)
  have at: "mock_rest D s v sz x e' (chip_erase_op op mem (chip_at e' off)) oth
              (mock_flash D x s (ch2(s := c3)) io1 v sz)"
    using lio1 ear1 ot3 by (intro mock_restI) (simp_all add: c3_def ch2_def)
  have wl: "c_wel (m_chip (qspi_regs (mock_flash D x s (ch2(s := c3)) io1 v sz)) s) = (op = 0)"
    by (simp add: mock_flash_def mock_hw_idle_def c3_def)
  have "qspi_page_erase mock_io f off pagesz = (Inr (), mock_flash D x s (ch2(s := c3)) io1 v sz)"
    unfolding qspi_page_erase_def
    by (simp add: op_def[symmetric] w1 hdr we ex wr Let_def)
  thus ?thesis using at wl unfolding op_def e'_def by blast
qed

lemma mock_write_loop:
  assumes D: "5 \<le> D" "D < 2 ^ 32" and s: "s < 2"
    and sec: "\<And>i. i < unat L \<Longrightarrow> sector (qspi_offset2faddr (off + of_nat i)) = x"
    and lb: "length buf = unat L" and small: "unat L \<le> 2 ^ 32"
  shows "mock_rest D s v sz c e mem oth f \<Longrightarrow> N \<le> L \<Longrightarrow>
     \<exists>f'. qspi_buf_rdwr_loop mock_io True off L N buf f = Some (Inr (), buf, f')
          \<and> (N = L \<and> f' = f \<or> mock_rest D s v sz x (ear_after c e x)
                (chip_program mem (chip_at (ear_after c e x) off + of_nat (unat N))
                   (drop (unat N) buf)) oth f')"
proof (induction "unat L - unat N" arbitrary: N f mem c e rule: less_induct)
  case less
  show ?case
  proof (cases "N < L")
    case False
    with less.prems have "N = L" by simp
    thus ?thesis using less.prems lb
      by (subst qspi_buf_rdwr_loop.simps) (simp add: chip_program_nil)
  next
    case True
    define e' where "e' = ear_after c e x"
    have idem: "ear_after x e' x = e'" by (simp add: ear_after_def)
    define p where "p = min (min (L - N) (of_nat (D - 4))) (128 :: 64 word)"
    have nl: "unat N < unat L" using True by (simp add: word_less_nat_alt)
    have uln: "unat (L - N) = unat L - unat N"
      using less.prems(2) by (rule unat_sub)
    have u4: "unat (of_nat (D - 4) :: 64 word) = D - 4"
      using D by (intro unat_of_nat64) simp
    have up: "unat p = min (min (unat L - unat N) (D - 4)) 128"
      unfolding p_def unat_min u4 uln by simp
    have ppos: "0 < unat p" using up nl D by simp
    have ple: "unat N + unat p \<le> unat L" using up nl by simp
    have unp: "unat (N + p) = unat N + unat p"
    proof -
      have "unat L < 2 ^ 64" using unsigned_less[of L] by simp
      hence "unat N + unat p < 2 ^ LENGTH(64)" using ple by simp
      thus ?thesis using unat_add_lem[of N p] by blast
    qed
    have secN: "sector (qspi_offset2faddr (off + N)) = x"
      using sec[of "unat N"] nl by simp
    have sec0: "sector (qspi_offset2faddr off) = x"
      using sec[of 0] nl by simp
    let ?b = "drop (unat N) buf"
    have lb': "unat (L - N) \<le> length ?b" using lb uln by simp
    from mock_fifo_wr[OF D s less.prems(1) secN lb']
    obtain f1 where wr: "qspi_fifo_wr mock_io f (off + N) ?b (L - N) = (Inr p, f1)"
      and at1: "mock_rest D s v sz x e' (chip_program mem (chip_at e' (off + N)) (take (unat p) ?b)) oth f1"
      unfolding p_def e'_def by blast
    let ?mem1 = "chip_program mem (chip_at e' (off + N)) (take (unat p) ?b)"
    have le': "N + p \<le> L" using ple unp by (simp add: word_le_nat_alt)
    have dec: "unat L - unat (N + p) < unat L - unat N" using unp ppos nl ple by simp
    from less.hyps[OF dec at1 le']
    obtain f' where rec: "qspi_buf_rdwr_loop mock_io True off L (N + p) buf f1 = Some (Inr (), buf, f')"
      and sy: "N + p = L \<and> f' = f1 \<or> mock_rest D s v sz x e'
                (chip_program ?mem1 (chip_at e' off + of_nat (unat (N + p))) (drop (unat (N + p)) buf)) oth f'"
      unfolding idem by blast
    have a: "chip_at e' (off + N) = chip_at e' off + of_nat (unat N)"
      using chunk_addr[of off N e' 0] by (simp add: secN sec0)
    have l1: "length (take (unat p) ?b) = unat p" using ple lb by simp
    have "chip_program ?mem1 (chip_at e' off + of_nat (unat (N + p))) (drop (unat (N + p)) buf)
        = chip_program ?mem1 (chip_at e' (off + N) + of_nat (length (take (unat p) ?b))) (drop (unat p) ?b)"
      unfolding l1 unp a by (simp add: ac_simps)
    also have "\<dots> = chip_program mem (chip_at e' (off + N)) (take (unat p) ?b @ drop (unat p) ?b)"
      using small lb by (intro chip_program_append) simp
    also have "\<dots> = chip_program mem (chip_at e' off + of_nat (unat N)) ?b"
      unfolding a append_take_drop_id ..
    finally have e: "chip_program ?mem1 (chip_at e' off + of_nat (unat (N + p))) (drop (unat (N + p)) buf)
        = chip_program mem (chip_at e' off + of_nat (unat N)) ?b" .
    have "qspi_buf_rdwr_loop mock_io True off L N buf f = Some (Inr (), buf, f')"
      apply (subst qspi_buf_rdwr_loop.simps)
      using True
      apply (simp only: if_True if_False Let_def wr prod.case sum.case rec)
      done
    have "mock_rest D s v sz x e'
            (chip_program ?mem1 (chip_at e' off + of_nat (unat (N + p))) (drop (unat (N + p)) buf)) oth f'"
    proof (cases "N + p = L")
      case True
      hence "drop (unat (N + p)) buf = []" using lb by simp
      moreover have "f' = f1" using rec True by (subst (asm) qspi_buf_rdwr_loop.simps) simp
      ultimately show ?thesis using at1 by (simp add: chip_program_nil)
    next
      case False
      thus ?thesis using sy by blast
    qed
    hence "mock_rest D s v sz x e' (chip_program mem (chip_at e' off + of_nat (unat N)) ?b) oth f'"
      unfolding e .
    thus ?thesis using \<open>qspi_buf_rdwr_loop mock_io True off L N buf f = Some (Inr (), buf, f')\<close>
      unfolding e'_def by blast
  qed
qed

lemma page_mask: "QSPI_PAGE_MASK = mask 12"
  by (simp add: QSPI_PAGE_MASK_def QSPI_PAGE_SIZE_def mask_eq_exp_minus_1)

lemma of_nat_small: "i < 2 ^ k \<Longrightarrow> take_bit k (of_nat i :: 'a::len word) = of_nat i"
  by (simp add: take_bit_of_nat take_bit_nat_eq_self)

lemma aligned_add:
  "i < 2 ^ k \<Longrightarrow> (w AND NOT (mask k)) + of_nat i = (w AND NOT (mask k)) OR take_bit k (of_nat i)"
  for w :: "'a::len word"
proof -
  assume i: "i < 2 ^ k"
  have "(w AND NOT (mask k)) + take_bit k (of_nat i) = (w AND NOT (mask k)) OR take_bit k (of_nat i)"
    by (rule disjunctive_add) (auto simp add: bit_simps)
  thus ?thesis using of_nat_small[OF i, where 'a='a] by simp
qed

lemma aligned_drop:
  "i < 2 ^ k \<Longrightarrow> k \<le> j \<Longrightarrow> drop_bit j ((w AND NOT (mask k)) + of_nat i) = drop_bit j w"
  for w :: "'a::len word"
  apply (simp only: aligned_add)
  apply (rule bit_word_eqI)
  apply (auto simp add: bit_simps dest: bit_imp_le_length)
  done

lemma aligned_split: "(w AND NOT (mask k)) + (w AND mask k) = w" for w :: "'a::len word"
proof -
  have "(w AND NOT (mask k)) + (w AND mask k) = (w AND NOT (mask k)) OR (w AND mask k)"
    by (rule disjunctive_add) (auto simp add: bit_simps)
  also have "\<dots> = w"
    by (rule bit_word_eqI) (auto simp add: bit_simps)
  finally show ?thesis .
qed

lemma aligned_self: "w AND mask k = 0 \<Longrightarrow> w AND NOT (mask k) = w" for w :: "'a::len word"
  using aligned_split[of w k] by simp

lemma page_offset_lt: "unat (QSPI_PAGE_OFFSET off) < 4096"
proof -
  have "off AND mask 12 < 2 ^ 12" by (rule and_mask_less_size) (simp add: word_size)
  thus ?thesis by (simp add: QSPI_PAGE_OFFSET_def page_mask word_less_nat_alt)
qed

lemma page_align_offset: "QSPI_PAGE_ALIGN off + QSPI_PAGE_OFFSET off = off"
  by (simp add: QSPI_PAGE_ALIGN_def QSPI_PAGE_OFFSET_def page_mask aligned_split)

lemma block_sector:
  "i < 2 ^ k \<Longrightarrow> k \<le> 24 \<Longrightarrow>
   sector (qspi_offset2faddr ((off AND NOT (mask k)) + of_nat i)) = sector (qspi_offset2faddr off)"
  by (simp add: qspi_offset2faddr_def aligned_drop)

lemma page_sector:
  "i < 4096 \<Longrightarrow> sector (qspi_offset2faddr (QSPI_PAGE_ALIGN off + of_nat i))
      = sector (qspi_offset2faddr off)"
  using block_sector[of i 12 off] by (simp add: QSPI_PAGE_ALIGN_def page_mask)

lemma chip_at_align:
  "k \<le> 24 \<Longrightarrow> chip_at e (off AND NOT (mask k)) = chip_at e off AND NOT (mask k)"
  unfolding chip_at_def
  apply (rule bit_word_eqI)
  apply (auto simp add: bit_simps)
  done

lemma erased_in_block:
  assumes "i < 2 ^ k"
  shows "chip_erase mem (b AND NOT (mask k)) k ((b AND NOT (mask k)) + of_nat i) = 0xFF"
proof -
  have 1: "drop_bit k ((b AND NOT (mask k)) + of_nat i) = drop_bit k b"
    using assms by (intro aligned_drop) simp_all
  have 2: "drop_bit k (b AND NOT (mask k)) = drop_bit k b"
    using aligned_drop[of 0 k k b] by simp
  show ?thesis unfolding chip_erase_def 1 2 by simp
qed

lemma ff_and: "(0xFF :: u8) AND y = y"
proof -
  have "(0xFF :: u8) = mask 8" by (simp add: mask_eq_exp_minus_1)
  moreover have "mask 8 AND y = y"
    by (rule bit_word_eqI) (auto simp add: bit_simps)
  ultimately show ?thesis by simp
qed

lemma programmed_in_block:
  assumes "i < 2 ^ k" "length kbuf = 2 ^ k" "k < 32"
  shows "chip_program (chip_erase mem (b AND NOT (mask k)) k)
            (b AND NOT (mask k)) kbuf ((b AND NOT (mask k)) + of_nat i) = kbuf ! i"
proof -
  have "(2 :: nat) ^ k < 2 ^ 32" using assms(3) by (intro power_strict_increasing) simp_all
  hence "i < 2 ^ 32" using assms(1) by linarith
  hence u: "unat (of_nat i :: 32 word) = i" by (simp add: unat_of_nat)
  show ?thesis
    using assms erased_in_block[OF assms(1), of mem b] u
    by (simp add: chip_program_def ff_and)
qed

lemma outside_block:
  assumes "drop_bit k y \<noteq> drop_bit k b" "length kbuf \<le> 2 ^ k"
  shows "chip_program (chip_erase mem (b AND NOT (mask k)) k) (b AND NOT (mask k)) kbuf y = mem y"
proof -
  let ?a = "b AND NOT (mask k)"
  have 2: "drop_bit k ?a = drop_bit k b"
    using aligned_drop[of 0 k k b] by simp
  have np: "\<not> unat (y - ?a) < length kbuf"
  proof
    assume "unat (y - ?a) < length kbuf"
    hence lt: "unat (y - ?a) < 2 ^ k" using assms(2) by linarith
    have "y = ?a + of_nat (unat (y - ?a))" by simp
    hence "drop_bit k y = drop_bit k (?a + of_nat (unat (y - ?a)))" by simp
    also have "\<dots> = drop_bit k b" using lt by (intro aligned_drop) simp_all
    finally show False using assms(1) by simp
  qed
  have e3: "chip_erase mem ?a k y = mem y"
    unfolding chip_erase_def 2 using assms(1) by simp
  show ?thesis unfolding chip_program_def using np e3 by simp
qed

lemma erase_cmd_4k: "qspi_erase_cmd QSPI_PAGE_SIZE = QSPI_CMD_4KB_SUBSECTOR_ERASE"
  by (simp add: qspi_erase_cmd_def QSPI_PAGE_SIZE_def)

lemma erase_op_4k: "chip_erase_op (qspi_erase_cmd QSPI_PAGE_SIZE) mem a = chip_erase mem a 12"
  by (simp add: erase_cmd_4k chip_erase_op_def)

text \<open>
  \<open>qspi_page_rmw\<close> on the mock, from any controller at rest. With \<open>x\<close> the sector of
  \<open>off\<close> and \<open>e'\<close> the extended address register that the first select of \<open>x\<close> leaves,
  the page that is read, erased and programmed is the one at \<open>chip_at e' off\<close>: in it
  the caller's bytes replace \<open>[front, front + mid)\<close> and every other cell is as before,
  and no cell outside it changes. When the sector cache is stale, \<open>e'\<close> is not \<open>x\<close> and
  that page is not the page of \<open>off\<close>.
\<close>

lemma mock_page_rmw:
  assumes D: "9 \<le> D" "D < 2 ^ 32" and s: "s < 2"
    and st: "mock_rest D s v sz c e mem oth f"
    and ub: "unat (min cnt (QSPI_PAGE_SIZE - QSPI_PAGE_OFFSET off)) \<le> length ubuf"
  shows "\<exists>f' mem'. qspi_page_rmw mock_io f ubuf off cnt
            = Some (Inr (min cnt (QSPI_PAGE_SIZE - QSPI_PAGE_OFFSET off)), f')
          \<and> mock_rest D s v sz (sector (qspi_offset2faddr off))
               (ear_after c e (sector (qspi_offset2faddr off))) mem' oth f'
          \<and> (\<forall>i<4096. mem' (chip_at (ear_after c e (sector (qspi_offset2faddr off)))
                                 (QSPI_PAGE_ALIGN off) + of_nat i) =
                (if unat (QSPI_PAGE_OFFSET off) \<le> i
                    \<and> i < unat (QSPI_PAGE_OFFSET off)
                          + unat (min cnt (QSPI_PAGE_SIZE - QSPI_PAGE_OFFSET off))
                 then ubuf ! (i - unat (QSPI_PAGE_OFFSET off))
                 else mem (chip_at (ear_after c e (sector (qspi_offset2faddr off)))
                             (QSPI_PAGE_ALIGN off) + of_nat i)))
          \<and> (\<forall>a. drop_bit 12 a
                    = drop_bit 12 (chip_at (ear_after c e (sector (qspi_offset2faddr off))) off)
                  \<or> mem' a = mem a)"
proof -
  have D5: "5 \<le> D" "D < 2 ^ 32" using D by simp_all
  define x where "x = sector (qspi_offset2faddr off)"
  define e' where "e' = ear_after c e x"
  define base where "base = QSPI_PAGE_ALIGN off"
  define front where "front = QSPI_PAGE_OFFSET off"
  define mid where "mid = min cnt (QSPI_PAGE_SIZE - front)"
  define last where "last = QSPI_PAGE_SIZE - front - mid"
  define F where "F = unat front"
  define M where "M = unat mid"
  define La where "La = unat last"
  define A where "A = chip_at e' base"
  define g where "g = (\<lambda>i. mem (A + of_nat i))"
  have Flt: "F < 4096" unfolding F_def front_def by (rule page_offset_lt)
  have fle: "front \<le> QSPI_PAGE_SIZE"
    using Flt by (simp add: word_le_nat_alt F_def QSPI_PAGE_SIZE_def)
  have ups: "unat (QSPI_PAGE_SIZE - front) = 4096 - F"
    using unat_sub[OF fle] by (simp add: QSPI_PAGE_SIZE_def F_def)
  have Mle: "M = min (unat cnt) (4096 - F)"
    unfolding M_def mid_def unat_min ups ..
  have mle: "mid \<le> QSPI_PAGE_SIZE - front"
    unfolding mid_def by simp
  have Lae: "La = 4096 - F - M"
    unfolding La_def last_def using unat_sub[OF mle] ups by (simp add: M_def)
  have tot: "F + M + La = 4096" using Lae Mle Flt by simp
  have front_nat: "front = of_nat F" by (simp add: F_def)
  have mid_nat: "mid = of_nat M" by (simp add: M_def)
  have secp: "\<And>i. i < 4096 \<Longrightarrow> sector (qspi_offset2faddr (base + of_nat i)) = x"
    unfolding base_def x_def by (rule page_sector)
  have secb: "sector (qspi_offset2faddr base) = x" using secp[of 0] by simp
  have Aal: "A = chip_at e' off AND NOT (mask 12)"
    unfolding A_def base_def QSPI_PAGE_ALIGN_def page_mask by (rule chip_at_align) simp
  have sec1: "\<And>i. i < unat front \<Longrightarrow> sector (qspi_offset2faddr (base + of_nat i)) = x"
    using secp Flt unfolding F_def by simp
  from mock_buf_read[OF D s sec1 st]
  obtain f1 c1 e1 where r1: "(if front \<noteq> 0 then qspi_buf_rdwr mock_io f [] base front False
                        else Some (Inr (), [], f))
            = Some (Inr (), map g [0..<F], f1)"
    and s1: "mock_rest D s v sz c1 e1 mem oth f1" and k1: "ear_after c1 e1 x = e'"
    unfolding g_def F_def A_def e'_def by blast
  have sec2: "\<And>i. i < unat last \<Longrightarrow>
      sector (qspi_offset2faddr (base + front + mid + of_nat i)) = x"
  proof -
    fix i assume "i < unat last"
    hence lt: "F + M + i < 4096" using tot La_def by simp
    have e: "base + front + mid + of_nat i = base + of_nat (F + M + i)"
      by (simp add: front_nat mid_nat)
    show "sector (qspi_offset2faddr (base + front + mid + of_nat i)) = x"
      unfolding e by (rule secp[OF lt])
  qed
  from mock_buf_read[OF D s sec2 s1]
  obtain f2 c2 e2 where r2: "(if last \<noteq> 0 then qspi_buf_rdwr mock_io f1 [] (base + front + mid) last False
                        else Some (Inr (), [], f1))
            = Some (Inr (), map (\<lambda>i. mem (chip_at e' (base + front + mid) + of_nat i)) [0..<La], f2)"
    and s2: "mock_rest D s v sz c2 e2 mem oth f2" and k2: "ear_after c2 e2 x = e'"
    unfolding La_def k1 by blast
  have lb: "map (\<lambda>i. mem (chip_at e' (base + front + mid) + of_nat i)) [0..<La]
      = map (\<lambda>i. g (F + M + i)) [0..<La]"
  proof (cases "La = 0")
    case True
    then show ?thesis by simp
  next
    case False
    hence lt: "F + M < 4096" using tot by simp
    have fm: "base + front + mid = base + of_nat (F + M)" by (simp add: front_nat mid_nat)
    have un: "unat (of_nat (F + M) :: 64 word) = F + M"
      using lt by (intro unat_of_nat64) simp
    have sq: "sector (qspi_offset2faddr (base + of_nat (F + M))) = sector (qspi_offset2faddr base)"
      using secp[OF lt] secb by simp
    have ca: "chip_at e' (base + front + mid) + of_nat i = A + of_nat (F + M + i)" for i
      unfolding fm A_def chunk_addr[OF sq] un by (rule refl)
    show ?thesis unfolding g_def by (simp only: ca)
  qed
  from mock_page_erase[OF D5 s s2 secb, of QSPI_PAGE_SIZE]
  obtain f3 where r3: "qspi_page_erase mock_io f2 base QSPI_PAGE_SIZE = (Inr (), f3)"
    and a3: "mock_rest D s v sz x e' (chip_erase mem A 12) oth f3"
    unfolding k2 erase_op_4k A_def by blast
  define kbuf where "kbuf = map g [0..<F] @ take M ubuf @ map (\<lambda>i. g (F + M + i)) [0..<La]"
  have ubM: "M \<le> length ubuf" using ub unfolding M_def mid_def front_def .
  have lk: "length kbuf = 4096" using tot ubM by (simp add: kbuf_def)
  have lk': "length kbuf = unat QSPI_PAGE_SIZE" using lk by (simp add: QSPI_PAGE_SIZE_def)
  have sec3: "\<And>i. i < unat QSPI_PAGE_SIZE \<Longrightarrow> sector (qspi_offset2faddr (base + of_nat i)) = x"
    using secp by (simp add: QSPI_PAGE_SIZE_def)
  have small: "unat QSPI_PAGE_SIZE \<le> 2 ^ 32" by (simp add: QSPI_PAGE_SIZE_def)
  have z: "(0 :: 64 word) \<le> QSPI_PAGE_SIZE" by simp
  have idem: "ear_after x e' x = e'" by (simp add: ear_after_def)
  from mock_write_loop[OF D5 s sec3 lk' small a3 z]
  obtain f4 where r4: "qspi_buf_rdwr mock_io f3 kbuf base QSPI_PAGE_SIZE True = Some (Inr (), kbuf, f4)"
    and s4: "mock_rest D s v sz x e' (chip_program (chip_erase mem A 12) A kbuf) oth f4"
    unfolding idem A_def by (auto simp add: qspi_buf_rdwr_def QSPI_PAGE_SIZE_def)
  let ?mem' = "chip_program (chip_erase mem A 12) A kbuf"
  have res: "qspi_page_rmw mock_io f ubuf off cnt = Some (Inr mid, f4)"
    unfolding qspi_page_rmw_def Let_def
    unfolding base_def[symmetric] front_def[symmetric]
    unfolding mid_def[symmetric]
    unfolding last_def[symmetric]
    using ubM
    by (simp add: r1 r2 lb r3 kbuf_def[symmetric] M_def[symmetric] r4)
  have vals: "\<forall>i<4096. ?mem' (A + of_nat i)
       = (if F \<le> i \<and> i < F + M then ubuf ! (i - F) else mem (A + of_nat i))"
  proof (intro allI impI)
    fix i :: nat assume i: "i < 4096"
    have "?mem' (A + of_nat i) = kbuf ! i"
      unfolding Aal using i lk by (intro programmed_in_block) simp_all
    also have "\<dots> = (if F \<le> i \<and> i < F + M then ubuf ! (i - F) else mem (A + of_nat i))"
    proof -
      consider "i < F" | "F \<le> i" "i < F + M" | "F + M \<le> i" by linarith
      then show ?thesis
      proof cases
        case 1
        then show ?thesis by (simp add: kbuf_def nth_append g_def)
      next
        case 2
        hence "i - F < M" by linarith
        then show ?thesis using 2 ubM by (simp add: kbuf_def nth_append)
      next
        case 3
        hence a: "i - F - M < La" "\<not> i < F" "\<not> i - F < M" "\<not> i < F + M"
          using i tot by simp_all
        have b: "F + M + (i - F - M) = i" using 3 by simp
        show ?thesis using a b ubM by (simp add: kbuf_def nth_append g_def)
      qed
    qed
    finally show "?mem' (A + of_nat i)
       = (if F \<le> i \<and> i < F + M then ubuf ! (i - F) else mem (A + of_nat i))" .
  qed
  have frame: "\<forall>a. drop_bit 12 a = drop_bit 12 (chip_at e' off) \<or> ?mem' a = mem a"
  proof (intro allI)
    fix a :: "32 word"
    show "drop_bit 12 a = drop_bit 12 (chip_at e' off) \<or> ?mem' a = mem a"
    proof (cases "drop_bit 12 a = drop_bit 12 (chip_at e' off)")
      case True
      then show ?thesis by simp
    next
      case False
      have "?mem' a = mem a"
        unfolding Aal using False lk by (intro outside_block) simp_all
      then show ?thesis by simp
    qed
  qed
  show ?thesis
    using res s4 vals frame
    unfolding x_def base_def front_def mid_def F_def M_def A_def e'_def
    by blast
qed

lemma page_io_size_block:
  assumes "qspi_get_page_io_size off cnt = S" and "S \<noteq> 0"
  shows "\<exists>k. 12 \<le> k \<and> k \<le> 16 \<and> unat S = 2 ^ k \<and> off AND mask k = 0 \<and> unat S \<le> unat cnt
           \<and> qspi_erase_cmd S \<noteq> 0
           \<and> chip_erase_op (qspi_erase_cmd S) = (\<lambda>mem a. chip_erase mem a k)"
proof -
  have al: "2 ^ k dvd unat off \<Longrightarrow> off AND mask k = 0" for k
    using IS_ALIGNED_dvd[of off k] by (simp add: IS_ALIGNED_def mask_eq_exp_minus_1)
  have ops: "chip_erase_op (qspi_erase_cmd 65536) = (\<lambda>mem a. chip_erase mem a 16)"
    "chip_erase_op (qspi_erase_cmd 32768) = (\<lambda>mem a. chip_erase mem a 15)"
    "chip_erase_op (qspi_erase_cmd 4096) = (\<lambda>mem a. chip_erase mem a 12)"
    "qspi_erase_cmd 65536 \<noteq> 0" "qspi_erase_cmd 32768 \<noteq> 0" "qspi_erase_cmd 4096 \<noteq> 0"
    by (simp_all add: qspi_erase_cmd_def chip_erase_op_def fun_eq_iff
        QSPI_CMD_4KB_SUBSECTOR_ERASE_def QSPI_CMD_32KB_SUBSECTOR_ERASE_def QSPI_CMD_SECTOR_ERASE_def)
  consider (h) "S = 65536" "65536 dvd unat off" "65536 \<le> unat cnt"
    | (l) "S = 32768" "32768 dvd unat off" "32768 \<le> unat cnt"
    | (p) "S = 4096" "4096 dvd unat off" "4096 \<le> unat cnt"
    using assms unfolding page_io_size_spec by (auto split: if_splits)
  then show ?thesis
  proof cases
    case h
    have "off AND mask 16 = 0" using al[of 16] h by simp
    thus ?thesis using h ops by (intro exI[of _ 16]) simp
  next
    case l
    have "off AND mask 15 = 0" using al[of 15] l by simp
    thus ?thesis using l ops by (intro exI[of _ 15]) simp
  next
    case p
    have "off AND mask 12 = 0" using al[of 12] p by simp
    thus ?thesis using p ops by (intro exI[of _ 12]) simp
  qed
qed

text \<open>
  \<open>qspi_page_wr\<close> on the mock when a page size \<open>S\<close> qualifies: it returns \<open>S\<close>, and the
  chip has executed the erase of \<open>qspi_erase_cmd S\<close> at the page and the program of the
  first \<open>S\<close> bytes of the user, so that the \<open>S\<close> cells of the page hold them.
\<close>

lemma mock_page_wr:
  assumes D: "5 \<le> D" "D < 2 ^ 32" and s: "s < 2"
    and st: "mock_rest D s v sz c e mem oth f"
    and sz: "qspi_get_page_io_size off cnt = S" and nz: "S \<noteq> 0"
    and ub: "unat S \<le> length ubuf"
  shows "\<exists>f' mem'. qspi_page_wr mock_io f ubuf off cnt = Some (Inr S, f')
          \<and> mock_rest D s v sz (sector (qspi_offset2faddr off))
               (ear_after c e (sector (qspi_offset2faddr off))) mem' oth f'
          \<and> mem' = chip_program
                (chip_erase_op (qspi_erase_cmd S) mem
                   (chip_at (ear_after c e (sector (qspi_offset2faddr off))) off))
                (chip_at (ear_after c e (sector (qspi_offset2faddr off))) off) (take (unat S) ubuf)
          \<and> (\<forall>i<unat S. mem' (chip_at (ear_after c e (sector (qspi_offset2faddr off))) off + of_nat i)
                 = ubuf ! i)"
proof -
  define x where "x = sector (qspi_offset2faddr off)"
  define e' where "e' = ear_after c e x"
  define A where "A = chip_at e' off"
  from page_io_size_block[OF sz nz]
  obtain k where k: "12 \<le> k" "k \<le> 16" and uS: "unat S = 2 ^ k" and al: "off AND mask k = 0"
    and op: "chip_erase_op (qspi_erase_cmd S) = (\<lambda>mem a. chip_erase mem a k)"
    by blast
  have offal: "off AND NOT (mask k) = off" using al by (rule aligned_self)
  have Aal: "A = chip_at e' off AND NOT (mask k)"
    unfolding A_def using chip_at_align[of k e' off] k offal by simp
  have secp: "\<And>i. i < unat S \<Longrightarrow> sector (qspi_offset2faddr (off + of_nat i)) = x"
    using block_sector[of _ k off] k offal unfolding uS x_def by simp
  have secb: "sector (qspi_offset2faddr off) = x" by (simp add: x_def)
  from mock_page_erase[OF D s st secb, of S]
  obtain f1 where r1: "qspi_page_erase mock_io f off S = (Inr (), f1)"
    and a1: "mock_rest D s v sz x e' (chip_erase mem A k) oth f1"
    unfolding op e'_def A_def by blast
  define kbuf where "kbuf = take (unat S) ubuf"
  have lk: "length kbuf = unat S" using ub by (simp add: kbuf_def)
  have "(2 :: nat) ^ k \<le> 2 ^ 16" using k by (intro power_increasing) simp_all
  hence small: "unat S \<le> 2 ^ 32" unfolding uS by simp
  have z: "(0 :: 64 word) \<le> S" by simp
  have idem: "ear_after x e' x = e'" by (simp add: ear_after_def)
  from mock_write_loop[OF D s secp lk small a1 z]
  obtain f2 where r2: "qspi_buf_rdwr mock_io f1 kbuf off S True = Some (Inr (), kbuf, f2)"
    and a2: "mock_rest D s v sz x e' (chip_program (chip_erase mem A k) A kbuf) oth f2"
    unfolding idem A_def using nz by (auto simp add: qspi_buf_rdwr_def)
  have ok: "\<not> length ubuf < unat S" using ub by simp
  have res: "qspi_page_wr mock_io f ubuf off cnt = Some (Inr S, f2)"
    unfolding qspi_page_wr_def Let_def sz
    using ok nz by (simp add: r1 kbuf_def[symmetric] r2)
  have vals: "\<forall>i<unat S. chip_program (chip_erase mem A k) A kbuf (A + of_nat i) = ubuf ! i"
  proof (intro allI impI)
    fix i assume i: "i < unat S"
    have "chip_program (chip_erase mem A k) A kbuf (A + of_nat i) = kbuf ! i"
      unfolding Aal using i lk k unfolding uS by (intro programmed_in_block) simp_all
    also have "\<dots> = ubuf ! i" using i by (simp add: kbuf_def)
    finally show "chip_program (chip_erase mem A k) A kbuf (A + of_nat i) = ubuf ! i" .
  qed
  have "chip_program (chip_erase mem A k) A kbuf
      = chip_program (chip_erase_op (qspi_erase_cmd S) mem A) A (take (unat S) ubuf)"
    unfolding op kbuf_def ..
  thus ?thesis
    using res a2 vals unfolding x_def e'_def A_def kbuf_def by metis
qed

lemma write_loop_rmw_step:
  assumes "cnt < n" and "qspi_get_page_io_size (off + cnt) (n - cnt) = 0"
    and "qspi_page_rmw io flash (drop (unat cnt) buf) (off + cnt) (n - cnt) = Some (Inr L, f2)"
  shows "qspi_write_loop io buf n off cnt flash = qspi_write_loop io buf n off (cnt + L) f2"
  using qspi_write_loop_fallback[OF assms(1,2), of io buf flash] assms(3) by simp



lemma uint_unat_int: "uint w = int (unat w)"
  by simp


lemma mock_rest_facts:
  assumes "mock_rest D s v sz c e mem oth f"
  shows "qspi_curr_sector f = c" "flash_size f = sz"
    "c_ear (m_chip (qspi_regs f) s) = e" "c_mem (m_chip (qspi_regs f) s) = mem"
    "t \<noteq> s \<Longrightarrow> m_chip (qspi_regs f) t = oth t"
proof -
  from assms obtain ch io where f: "f = mock_flash D c s ch io v sz"
    and m: "c_mem (ch s) = mem" and ea: "c_ear (ch s) = e" and ot: "ch = oth(s := ch s)"
    unfolding mock_rest_def by blast
  have mc: "m_chip (qspi_regs f) = ch" by (simp add: f mock_flash_def mock_hw_idle_def)
  show "qspi_curr_sector f = c" "flash_size f = sz" by (simp_all add: f mock_flash_def)
  show "c_ear (m_chip (qspi_regs f) s) = e" "c_mem (m_chip (qspi_regs f) s) = mem"
    using m ea mc by simp_all
  show "t \<noteq> s \<Longrightarrow> m_chip (qspi_regs f) t = oth t"
    unfolding mc by (subst ot) simp
qed

lemma mock_rest_switch:
  assumes "mock_rest D s v sz c e mem oth f" and "t \<noteq> s"
  shows "mock_rest D t v sz c (c_ear (oth t)) (c_mem (oth t)) (m_chip (qspi_regs f))
           (f\<lparr>qspi_curr_slave := int t\<rparr>)"
proof -
  from assms obtain ch io where f: "f = mock_flash D c s ch io v sz"
    and lio: "length io = D" and ot: "ch = oth(s := ch s)"
    unfolding mock_rest_def by blast
  have mc: "m_chip (qspi_regs f) = ch" by (simp add: f mock_flash_def mock_hw_idle_def)
  have cht: "ch t = oth t" using assms(2) by (subst ot) simp
  have f': "f\<lparr>qspi_curr_slave := int t\<rparr> = mock_flash D c t ch io v sz"
    by (simp add: f mock_flash_def)
  have a: "c_mem (ch t) = c_mem (oth t)" using cht by simp
  have b: "c_ear (ch t) = c_ear (oth t)" using cht by simp
  have c: "ch = ch(t := ch t)" by simp
  show ?thesis unfolding mc f' using lio a b c by (rule mock_restI)
qed

lemma mock_rest_ready:
  assumes "mock_rest D s v sz c e mem oth f" and "2 \<le> D" and "s < 2"
  shows "qspi_wait_until_ready mock_io f = (True, f)"
proof -
  from assms(1) obtain ch io where f: "f = mock_flash D c s ch io v sz"
    unfolding mock_rest_def by blast
  show ?thesis unfolding f using assms(2,3) by (rule mock_wait_until_ready)
qed

subsection \<open>Read-modify-write of a page\<close>

lemma stale_offset_facts:
  "slave (qspi_offset2faddr 0x01000064) = 0"
  "sector (qspi_offset2faddr 0x01000064) = 1"
  "slave (qspi_offset2faddr 0x0100000001000064) = 1"
  "sector (qspi_offset2faddr 0x0100000001000064) = 1"
  "QSPI_PAGE_OFFSET 0x01000064 = 100"
  "QSPI_PAGE_OFFSET 0x0100000001000064 = 100"
  "QSPI_PAGE_ALIGN 0x0100000001000064 = 0x0100000001000000"
  "qspi_get_page_io_size 0x01000064 3 = 0"
  "qspi_get_page_io_size 0x0100000001000064 3 = 0"
  "min 3 (QSPI_PAGE_SIZE - 100) = 3"
  by (simp_all add: qspi_offset2faddr_def QSPI_PAGE_ALIGN_def QSPI_PAGE_OFFSET_def
      QSPI_PAGE_MASK_def QSPI_PAGE_SIZE_def page_io_size_spec)

lemma stale_chip_at:
  "chip_at 0 0x0100000001000000 = 0"
  "chip_at 0 0x0100000001000064 = 0x64"
  by (simp_all add: chip_at_def)

lemma demo_flash32_rest:
  "mock_rest 16 0 Micron 0x2000000 0xff 0 (c_mem (demo_chips 0)) demo_chips demo_flash32"
proof -
  have a: "length (replicate 16 (0 :: u8)) = 16" by simp
  have b: "c_ear (demo_chips 0) = 0" by (simp add: demo_chips_def)
  have c: "demo_chips = demo_chips(0 := demo_chips 0)" by simp
  show ?thesis unfolding demo_flash32_def using a refl b c by (rule mock_restI)
qed

lemma write_loop_done: "qspi_write_loop io buf n off n flash = Some (Inr (), n, flash)"
  by (subst qspi_write_loop.simps) simp

text \<open>C1, at a failing input. On a 32MB flash with two chips behind the mock, as
  \<^verbatim>\<open>qspi_controller_probe\<close> leaves it, a write of 3 bytes at 0x01000064 (slave 0, sector 1)
  goes through \<^verbatim>\<open>qspi_page_rmw\<close> and succeeds; it leaves the sector cache at 1, the extended
  address register of chip 0 at 1 and that of chip 1 at 0. A write of the bytes 7, 8, 9 at
  0x0100000001000064 (slave 1, sector 1) then finds sector 1 in the cache and does not select
  it on chip 1. \<^verbatim>\<open>qspi_page_rmw\<close>, on the controller as \<^verbatim>\<open>qspi_write\<close> hands it over with
  slave 1 current, returns 3, and so does \<^verbatim>\<open>qspi_write\<close>; but the three cells of the 4KB
  window of the offset still hold 0x5A, and the bytes 7, 8, 9 are in sector 0 of chip 1,
  outside that window.\<close>

theorem qspi_page_rmw_stale_sector_writes_wrong_page:
  "\<exists>f1 f2. qspi_write mock_io kernel_ok demo_flash32 [1, 2, 3] 3 0x01000064
              = Some (Inr 3, 0x01000067, f1)
     \<and> qspi_curr_sector f1 = 1
     \<and> c_ear (m_chip (qspi_regs f1) 0) = 1 \<and> c_ear (m_chip (qspi_regs f1) 1) = 0
     \<and> qspi_page_rmw mock_io (f1\<lparr>qspi_curr_slave := 1\<rparr>) [7, 8, 9] 0x0100000001000064 3
              = Some (Inr 3, f2)
     \<and> qspi_write mock_io kernel_ok f1 [7, 8, 9] 3 0x0100000001000064
              = Some (Inr 3, 0x0100000001000067, f2)
     \<and> c_mem (m_chip (qspi_regs f2) 1) 0x01000064 = 0x5A
     \<and> c_mem (m_chip (qspi_regs f2) 1) 0x01000065 = 0x5A
     \<and> c_mem (m_chip (qspi_regs f2) 1) 0x01000066 = 0x5A
     \<and> c_mem (m_chip (qspi_regs f2) 1) 0x64 = 7
     \<and> c_mem (m_chip (qspi_regs f2) 1) 0x65 = 8
     \<and> c_mem (m_chip (qspi_regs f2) 1) 0x66 = 9"
proof -
  let ?off1 = "0x01000064 :: 64 word"
  let ?off2 = "0x0100000001000064 :: 64 word"
  have d0: "(9 :: nat) \<le> 16" "(16 :: nat) < 2 ^ 32" "(0 :: nat) < 2" by simp_all
  have d1: "(9 :: nat) \<le> 16" "(16 :: nat) < 2 ^ 32" "(1 :: nat) < 2" by simp_all
  have k: "vmalloc kernel_ok QSPI_HUGE_PAGE_SIZE"
    by (simp add: vmalloc_def kernel_ok_def QSPI_HUGE_PAGE_SIZE_def)
  have ea: "ear_after 0xff 0 1 = (1 :: u8)" "ear_after 1 0 1 = (0 :: u8)"
    by (simp_all add: ear_after_def)
  have ub1: "unat (min 3 (QSPI_PAGE_SIZE - QSPI_PAGE_OFFSET ?off1)) \<le> length [1, 2, 3 :: u8]"
    by (simp add: stale_offset_facts)
  from mock_page_rmw[OF d0 demo_flash32_rest ub1]
  obtain f1 mem1 where r1: "qspi_page_rmw mock_io demo_flash32 [1, 2, 3] ?off1 3 = Some (Inr 3, f1)"
    and st1: "mock_rest 16 0 Micron 0x2000000 1 1 mem1 demo_chips f1"
    unfolding stale_offset_facts ea by blast
  have l1: "qspi_write_loop mock_io [1, 2, 3] 3 ?off1 0 demo_flash32 = Some (Inr (), 3, f1)"
    using write_loop_rmw_step[of 0 3 ?off1 mock_io demo_flash32 "[1, 2, 3]" 3 f1] r1
      write_loop_done[of mock_io "[1, 2, 3]" 3 ?off1 f1]
    by (simp add: stale_offset_facts)
  have v1: "is_valid_offset demo_flash32 ?off1"
    "min 3 (flash_size demo_flash32 - ?off1) = 3"
    by (simp_all add: is_valid_offset_def qspi_offset2faddr_def qspi_faddr2offset_def Let_def
        demo_flash32_def mock_flash_sel)
  have sl1: "demo_flash32\<lparr>qspi_curr_slave := uint (slave (qspi_offset2faddr ?off1))\<rparr> = demo_flash32"
    by (simp add: stale_offset_facts demo_flash32_def mock_flash_def)
  have w1: "qspi_wait_until_ready mock_io demo_flash32 = (True, demo_flash32)"
    using demo_flash32_rest by (rule mock_rest_ready) simp_all
  have wr1: "qspi_write mock_io kernel_ok demo_flash32 [1, 2, 3] 3 ?off1
      = Some (Inr 3, 0x01000067, f1)"
    unfolding qspi_write_def Let_def v1(2) sl1
    using v1(1) k w1 l1 by simp
  have ch1: "m_chip (qspi_regs f1) 1 = demo_chips 1"
    using mock_rest_facts(5)[OF st1, of 1] by simp
  have c1: "qspi_curr_sector f1 = 1" "c_ear (m_chip (qspi_regs f1) 0) = 1"
    using mock_rest_facts(1,3)[OF st1] by simp_all
  have c2: "c_ear (m_chip (qspi_regs f1) 1) = 0" using ch1 by (simp add: demo_chips_def)
  have fs1: "flash_size f1 = 0x2000000" using mock_rest_facts(2)[OF st1] .
  have st1': "mock_rest 16 1 Micron 0x2000000 1 0 (c_mem (demo_chips 1)) (m_chip (qspi_regs f1))
                (f1\<lparr>qspi_curr_slave := 1\<rparr>)"
    using mock_rest_switch[OF st1, of 1] by (simp add: demo_chips_def)
  have ub2: "unat (min 3 (QSPI_PAGE_SIZE - QSPI_PAGE_OFFSET ?off2)) \<le> length [7, 8, 9 :: u8]"
    by (simp add: stale_offset_facts)
  from mock_page_rmw[OF d1 st1' ub2]
  obtain f2 mem2 where r2: "qspi_page_rmw mock_io (f1\<lparr>qspi_curr_slave := 1\<rparr>) [7, 8, 9] ?off2 3
        = Some (Inr 3, f2)"
    and st2: "mock_rest 16 1 Micron 0x2000000 1 0 mem2 (m_chip (qspi_regs f1)) f2"
    and vals: "\<And>i. i < 4096 \<Longrightarrow> mem2 (0 + of_nat i) =
                (if unat (100 :: 64 word) \<le> i \<and> i < unat (100 :: 64 word) + unat (3 :: 64 word)
                 then [7, 8, 9] ! (i - unat (100 :: 64 word))
                 else c_mem (demo_chips 1) (0 + of_nat i))"
    and frame: "\<And>a. drop_bit 12 a = drop_bit 12 (0x64 :: 32 word) \<or> mem2 a = c_mem (demo_chips 1) a"
    unfolding stale_offset_facts ea stale_chip_at by blast
  have l2: "qspi_write_loop mock_io [7, 8, 9] 3 ?off2 0 (f1\<lparr>qspi_curr_slave := 1\<rparr>)
      = Some (Inr (), 3, f2)"
    using write_loop_rmw_step[of 0 3 ?off2 mock_io "f1\<lparr>qspi_curr_slave := 1\<rparr>" "[7, 8, 9]" 3 f2] r2
      write_loop_done[of mock_io "[7, 8, 9]" 3 ?off2 f2]
    by (simp add: stale_offset_facts)
  have v2: "is_valid_offset f1 ?off2" "min 3 (flash_size f1 - ?off2) = 3"
    by (simp_all add: is_valid_offset_def qspi_offset2faddr_def qspi_faddr2offset_def Let_def fs1)
  have sl2: "f1\<lparr>qspi_curr_slave := uint (slave (qspi_offset2faddr ?off2))\<rparr>
      = f1\<lparr>qspi_curr_slave := 1\<rparr>"
    by (simp add: stale_offset_facts)
  have w2: "qspi_wait_until_ready mock_io (f1\<lparr>qspi_curr_slave := 1\<rparr>)
      = (True, f1\<lparr>qspi_curr_slave := 1\<rparr>)"
    using st1' by (rule mock_rest_ready) simp_all
  have wr2: "qspi_write mock_io kernel_ok f1 [7, 8, 9] 3 ?off2
      = Some (Inr 3, 0x0100000001000067, f2)"
    unfolding qspi_write_def Let_def v2(2) sl2
    using v2(1) k w2 l2 by simp
  have m2: "c_mem (m_chip (qspi_regs f2) 1) = mem2" using mock_rest_facts(4)[OF st2] .
  have dm: "c_mem (demo_chips t) a = 0x5A" for t a by (simp add: demo_chips_def)
  have o1: "mem2 0x01000064 = 0x5A" using frame[of "0x01000064"] by (simp add: dm)
  have o2: "mem2 0x01000065 = 0x5A" using frame[of "0x01000065"] by (simp add: dm)
  have o3: "mem2 0x01000066 = 0x5A" using frame[of "0x01000066"] by (simp add: dm)
  have i1: "mem2 0x64 = 7" using vals[of 100] by simp
  have i2: "mem2 0x65 = 8" using vals[of 101] by simp
  have i3: "mem2 0x66 = 9" using vals[of 102] by simp
  show ?thesis
    using wr1 c1 c2 r2 wr2 o1 o2 o3 i1 i2 i3 unfolding m2[symmetric] by blast
qed

subsection \<open>The page size of an erase\<close>

lemma demo_flash_rest:
  "mock_rest 16 0 Micron 0x1000000 0xff 0 (c_mem (demo_chips 0)) demo_chips demo_flash"
proof -
  have a: "length (replicate 16 (0 :: u8)) = 16" by simp
  have b: "c_ear (demo_chips 0) = 0" by (simp add: demo_chips_def)
  have c: "demo_chips = demo_chips(0 := demo_chips 0)" by simp
  show ?thesis unfolding demo_flash_def using a refl b c by (rule mock_restI)
qed

lemma erase_cmd_nat:
  "qspi_erase_cmd pagesz =
     (if unat pagesz div 1024 = 4 then QSPI_CMD_4KB_SUBSECTOR_ERASE
      else if unat pagesz div 1024 = 32 then QSPI_CMD_32KB_SUBSECTOR_ERASE
      else if unat pagesz div 1024 = 64 then QSPI_CMD_SECTOR_ERASE
      else 0)"
proof -
  have u: "unat (pagesz div 1024) = unat pagesz div 1024" by (simp add: unat_div)
  have e: "pagesz div 1024 = k \<longleftrightarrow> unat pagesz div 1024 = unat k" for k
    using u by (metis word_unat_eq_iff)
  show ?thesis
    unfolding qspi_erase_cmd_def Let_def e by simp
qed

text \<open>C3, as the specification states it, at a page size that is none of 4KB, 32KB and 64KB.
  \<^verbatim>\<open>qspi_page_erase\<close> called with a page size of 5000 is not rejected: 5000 / 1024 is 4, the
  command selected is the 4KB subsector erase, the erase sequence is issued, the call returns
  success and the first 4KB page of the chip, which held 0x5A, is erased to 0xFF.\<close>

theorem qspi_page_erase_5000_erases_4k:
  "qspi_erase_cmd 5000 = QSPI_CMD_4KB_SUBSECTOR_ERASE
   \<and> c_mem (m_chip (qspi_regs demo_flash) 0) 0 = 0x5A
   \<and> (\<exists>f'. qspi_page_erase mock_io demo_flash 0 5000 = (Inr (), f')
          \<and> c_mem (m_chip (qspi_regs f') 0) 0 = 0xFF)"
proof -
  have c: "qspi_erase_cmd 5000 = QSPI_CMD_4KB_SUBSECTOR_ERASE"
    by (simp add: erase_cmd_nat)
  have x: "sector (qspi_offset2faddr 0) = 0" by (simp add: qspi_offset2faddr_def)
  have d: "(5 :: nat) \<le> 16" "(16 :: nat) < 2 ^ 32" "(0 :: nat) < 2" by simp_all
  from mock_page_erase[OF d demo_flash_rest x, of 5000]
  obtain f' where r: "qspi_page_erase mock_io demo_flash 0 5000 = (Inr (), f')"
    and at: "mock_rest 16 0 Micron 0x1000000 0 (ear_after 0xff 0 0)
               (chip_erase_op (qspi_erase_cmd 5000) (c_mem (demo_chips 0))
                  (chip_at (ear_after 0xff 0 0) 0)) demo_chips f'"
    by blast
  have "c_mem (m_chip (qspi_regs f') 0) 0 = 0xFF"
    unfolding mock_rest_facts(4)[OF at] c
    by (simp add: chip_erase_op_def chip_erase_def ear_after_def chip_at_def)
  moreover have "c_mem (m_chip (qspi_regs demo_flash) 0) 0 = 0x5A"
    by (simp add: demo_flash_def mock_flash_def mock_hw_idle_def demo_chips_def)
  ultimately show ?thesis using c r by blast
qed

lemma page_io_size_values:
  "qspi_get_page_io_size off sz = 0 \<or> qspi_get_page_io_size off sz = QSPI_PAGE_SIZE
   \<or> qspi_get_page_io_size off sz = QSPI_LARGE_PAGE_SIZE
   \<or> qspi_get_page_io_size off sz = QSPI_HUGE_PAGE_SIZE"
  by (simp add: qspi_get_page_io_size_def)

text \<open>C3, amended. \<^verbatim>\<open>qspi_page_erase\<close> does not check its page size. The page size only selects
  the erase opcode, through its quotient by 1024: 4 gives the 4KB subsector erase, 32 the
  32KB subsector erase, 64 the sector erase and any other quotient the opcode 0. Whatever the
  page size, the erase sequence is issued: on the flash-backed mock, from a controller at rest
  with a FIFO of at least 5 bytes, the call returns success, the sector of the offset is
  selected, and the chip has received a write enable and then the selected opcode with the
  three address bytes. It has erased the block of that opcode around the address these bytes
  reach, or, for the opcode 0, which it does not know, kept its cells and its write-enable
  latch set. On every hardware two page sizes that select the same opcode give the same erase.
  The page sizes the write path hands over, those of \<^verbatim>\<open>qspi_get_page_io_size\<close> other than 0,
  are 4KB, 32KB and 64KB only.\<close>

theorem qspi_page_erase_page_size_selects_opcode:
  assumes "5 \<le> D" and "D < 2 ^ 32" and "s < 2" and "length io = D"
  shows "qspi_erase_cmd pagesz =
     (if unat pagesz div 1024 = 4 then QSPI_CMD_4KB_SUBSECTOR_ERASE
      else if unat pagesz div 1024 = 32 then QSPI_CMD_32KB_SUBSECTOR_ERASE
      else if unat pagesz div 1024 = 64 then QSPI_CMD_SECTOR_ERASE
      else 0)
   \<and> (\<exists>f'. qspi_page_erase mock_io (mock_flash D sect s ch io v sz) off pagesz = (Inr (), f')
          \<and> qspi_curr_sector f' = sector (qspi_offset2faddr off)
          \<and> c_ear (m_chip (qspi_regs f') s)
               = ear_after sect (c_ear (ch s)) (sector (qspi_offset2faddr off))
          \<and> c_mem (m_chip (qspi_regs f') s)
               = chip_erase_op (qspi_erase_cmd pagesz) (c_mem (ch s))
                   (chip_at (ear_after sect (c_ear (ch s)) (sector (qspi_offset2faddr off))) off)
          \<and> c_wel (m_chip (qspi_regs f') s) = (qspi_erase_cmd pagesz = 0))
   \<and> (qspi_erase_cmd pagesz = qspi_erase_cmd pagesz' \<longrightarrow>
        qspi_page_erase hw flash off' pagesz = qspi_page_erase hw flash off' pagesz')
   \<and> (qspi_get_page_io_size off'' len = 0 \<or> qspi_get_page_io_size off'' len = QSPI_PAGE_SIZE
        \<or> qspi_get_page_io_size off'' len = QSPI_LARGE_PAGE_SIZE
        \<or> qspi_get_page_io_size off'' len = QSPI_HUGE_PAGE_SIZE)"
proof -
  have st: "mock_rest D s v sz sect (c_ear (ch s)) (c_mem (ch s)) ch (mock_flash D sect s ch io v sz)"
    using assms(4) by (intro mock_restI) simp_all
  from mock_page_erase[OF assms(1,2,3) st refl, of off pagesz]
  obtain f' where r: "qspi_page_erase mock_io (mock_flash D sect s ch io v sz) off pagesz = (Inr (), f')"
    and at: "mock_rest D s v sz (sector (qspi_offset2faddr off))
               (ear_after sect (c_ear (ch s)) (sector (qspi_offset2faddr off)))
               (chip_erase_op (qspi_erase_cmd pagesz) (c_mem (ch s))
                  (chip_at (ear_after sect (c_ear (ch s)) (sector (qspi_offset2faddr off))) off))
               ch f'"
    and wl: "c_wel (m_chip (qspi_regs f') s) = (qspi_erase_cmd pagesz = 0)"
    by blast
  have m: "\<exists>f'. qspi_page_erase mock_io (mock_flash D sect s ch io v sz) off pagesz = (Inr (), f')
          \<and> qspi_curr_sector f' = sector (qspi_offset2faddr off)
          \<and> c_ear (m_chip (qspi_regs f') s)
               = ear_after sect (c_ear (ch s)) (sector (qspi_offset2faddr off))
          \<and> c_mem (m_chip (qspi_regs f') s)
               = chip_erase_op (qspi_erase_cmd pagesz) (c_mem (ch s))
                   (chip_at (ear_after sect (c_ear (ch s)) (sector (qspi_offset2faddr off))) off)
          \<and> c_wel (m_chip (qspi_regs f') s) = (qspi_erase_cmd pagesz = 0)"
    using r wl mock_rest_facts(1,3,4)[OF at] by blast
  have g: "qspi_erase_cmd pagesz = qspi_erase_cmd pagesz' \<longrightarrow>
        qspi_page_erase hw flash off' pagesz = qspi_page_erase hw flash off' pagesz'"
    by (simp add: qspi_page_erase_def)
  show ?thesis
    using erase_cmd_nat[of pagesz] m g page_io_size_values[of off'' len] by blast
qed

theorem qspi_page_erase_page_size_selects_opcode_witness:
  "(5 :: nat) \<le> 16 \<and> (16 :: nat) < 2 ^ 32 \<and> (0 :: nat) < 2 \<and> length (replicate 16 (0 :: u8)) = 16
   \<and> qspi_erase_cmd 6000 = 0
   \<and> qspi_curr_sector (mock_flash 16 0xff 0 demo_chips (replicate 16 0) Micron 0x1000000) = 0xff
   \<and> \<not> c_wel (demo_chips 0)
   \<and> (\<exists>f'. qspi_page_erase mock_io
               (mock_flash 16 0xff 0 demo_chips (replicate 16 0) Micron 0x1000000) 0 6000
             = (Inr (), f')
          \<and> qspi_curr_sector f' = 0
          \<and> c_wel (m_chip (qspi_regs f') 0)
          \<and> c_mem (m_chip (qspi_regs f') 0) = c_mem (demo_chips 0))
   \<and> qspi_erase_cmd 5000 = qspi_erase_cmd 4096
   \<and> qspi_page_erase mock_io demo_flash 0 5000 = qspi_page_erase mock_io demo_flash 0 4096"
proof -
  have h: "(5 :: nat) \<le> 16" "(16 :: nat) < 2 ^ 32" "(0 :: nat) < 2"
    "length (replicate 16 (0 :: u8)) = 16" by simp_all
  have c6: "qspi_erase_cmd 6000 = 0" by (simp add: erase_cmd_nat)
  have c5: "qspi_erase_cmd 5000 = qspi_erase_cmd 4096" by (simp add: erase_cmd_nat)
  have x: "sector (qspi_offset2faddr 0) = 0" by (simp add: qspi_offset2faddr_def)
  have i: "qspi_curr_sector (mock_flash 16 0xff 0 demo_chips (replicate 16 0) Micron 0x1000000) = 0xff"
    "\<not> c_wel (demo_chips 0)"
    by (simp_all add: mock_flash_sel demo_chips_def)
  have "\<exists>f'. qspi_page_erase mock_io
               (mock_flash 16 0xff 0 demo_chips (replicate 16 0) Micron 0x1000000) 0 6000
             = (Inr (), f')
          \<and> qspi_curr_sector f' = 0
          \<and> c_wel (m_chip (qspi_regs f') 0)
          \<and> c_mem (m_chip (qspi_regs f') 0) = c_mem (demo_chips 0)"
    using qspi_page_erase_page_size_selects_opcode[where pagesz = 6000 and sect = "0xff"
        and ch = demo_chips and v = Micron and sz = "0x1000000" and off = 0 and pagesz' = 6000
        and hw = mock_io and flash = demo_flash and off' = 0 and off'' = 0 and len = 0, OF h]
    by (auto simp add: c6 x chip_erase_op_def QSPI_CMD_4KB_SUBSECTOR_ERASE_def
        QSPI_CMD_32KB_SUBSECTOR_ERASE_def QSPI_CMD_SECTOR_ERASE_def)
  moreover have "qspi_page_erase mock_io demo_flash 0 5000 = qspi_page_erase mock_io demo_flash 0 4096"
    using c5 qspi_page_erase_page_size_selects_opcode[where pagesz = 5000 and sect = "0xff"
        and ch = demo_chips and v = Micron and sz = "0x1000000" and off = 0 and pagesz' = 4096
        and hw = mock_io and flash = demo_flash and off' = 0 and off'' = 0 and len = 0, OF h]
    by simp
  ultimately show ?thesis using h c6 c5 i by blast
qed

subsection \<open>The length of a FIFO transaction\<close>

text \<open>With a FIFO of at least 8 bytes a read transaction fits the FIFO, and with a FIFO of at
  least 4 bytes a write transaction does, with a payload of at most 128 bytes.\<close>

lemma fifo_rd_len_le_depth:
  assumes "8 \<le> unat (qspi_fifo_depth flash)"
  shows "unat (fifo_rd_payload_len flash 4 cnt + 4 + read_dummy_len) \<le> unat (qspi_fifo_depth flash)"
proof -
  let ?d = "qspi_fifo_depth flash"
  have le8: "(8 :: 64 word) \<le> ?d" using assms by (simp add: word_le_nat_alt)
  have d8: "?d - 4 - read_dummy_len = ?d - 8" by (simp add: read_dummy_len_def)
  have u: "unat (?d - 8) = unat ?d - 8" using unat_sub[OF le8] by simp
  define p where "p = fifo_rd_payload_len flash 4 cnt"
  have pu: "unat p \<le> unat ?d - 8"
    unfolding p_def fifo_rd_payload_len_def d8 unat_min u by simp
  have dl: "unat ?d < 2 ^ 64" using unsigned_less[of ?d] by simp
  have "unat p + unat (8 :: 64 word) < 2 ^ 64"
    using pu assms dl by simp
  hence a: "unat (p + 8) = unat p + 8" using unat_add_lem[of p 8] by simp
  have e: "p + 4 + read_dummy_len = p + 8" by (simp add: read_dummy_len_def)
  have "unat (p + 4 + read_dummy_len) \<le> unat ?d"
    unfolding e a using pu assms by linarith
  thus ?thesis unfolding p_def .
qed

lemma fifo_wr_len_le_depth:
  assumes "4 \<le> unat (qspi_fifo_depth flash)"
  shows "unat (fifo_wr_payload_len flash 4 cnt + 4) \<le> unat (qspi_fifo_depth flash)
       \<and> unat (fifo_wr_payload_len flash 4 cnt) \<le> 128"
proof -
  let ?d = "qspi_fifo_depth flash"
  have le4: "(4 :: 64 word) \<le> ?d" using assms by (simp add: word_le_nat_alt)
  have u: "unat (?d - 4) = unat ?d - 4" using unat_sub[OF le4] by simp
  define p where "p = fifo_wr_payload_len flash 4 cnt"
  have pe: "unat p = min (min (unat cnt) (unat ?d - 4)) 128"
    unfolding p_def fifo_wr_payload_len_def Let_def unat_min u write_max_len_def by simp
  have dl: "unat ?d < 2 ^ 64" using unsigned_less[of ?d] by simp
  have "unat p + unat (4 :: 64 word) < 2 ^ 64"
    using pe assms dl by simp
  hence "unat (p + 4) = unat p + 4" using unat_add_lem[of p 4] by simp
  thus ?thesis using pe assms unfolding p_def by simp
qed

lemma header_update:
  "(x0 # x1 # x2 # x3 # xs)[0 := a, Suc 0 := b, 2 := c, 3 := d] = a # b # c # d # xs"
  by (simp add: numeral_2_eq_2 numeral_3_eq_3)

text \<open>C6, at a failing input. On a controller whose FIFO holds 5 bytes (and whose
  \<^verbatim>\<open>io_buf\<close> has that size), \<^verbatim>\<open>qspi_fifo_rd\<close> asked for 100 bytes computes
  \<^verbatim>\<open>fifo_depth - header_len - QSPI_READ_DUMMY_LEN\<close> in \<^verbatim>\<open>size_t\<close>, where it wraps around, so the
  payload stays 100 and the transaction is 108 bytes long: longer than the FIFO and than
  \<^verbatim>\<open>io_buf\<close>, which \<^verbatim>\<open>qspi_exec_io_cmd\<close> is then asked to use for 108 bytes.\<close>

theorem qspi_fifo_rd_small_fifo_overrun:
  "qspi_fifo_depth small_fifo_flash = 5
   \<and> length (io_buf small_fifo_flash) = 5
   \<and> fifo_rd_payload_len small_fifo_flash 4 100 = 100
   \<and> unat (fifo_rd_payload_len small_fifo_flash 4 100 + 4 + read_dummy_len) = 108
   \<and> qspi_fifo_rd script_io small_fifo_flash 0 100
       = (Inl EOVERRUN, small_fifo_flash\<lparr>io_buf := [QSPI_CMD_QUAD_READ, 0, 0, 0, 0]\<rparr>)"
  by (simp add: small_fifo_flash_def fifo_rd_payload_len_def read_dummy_len_def qspi_fifo_rd_def
      qspi_setup_io_cmd_header_def qspi_set_sector_def qspi_offset2faddr_def
      qspi_exec_io_cmd_def Let_def header_update)

subsection \<open>A stream write that fails after a chunk was written\<close>

lemma demo_flash_slave:
  "demo_flash\<lparr>qspi_curr_slave := int s\<rparr> = mock_flash 16 0xff s demo_chips (replicate 16 0) Micron 0x1000000"
  by (simp add: demo_flash_def mock_flash_def)

lemma qspi_write_error_result:
  assumes "qspi_write_loop io buf (min n (flash_size flash - off)) off 0 f2 = Some (Inl e, cnt, f3)"
    and "qspi_wait_until_ready io (flash\<lparr>qspi_curr_slave := uint (slave (qspi_offset2faddr off))\<rparr>)
           = (True, f2)"
    and "n \<noteq> 0" and "is_valid_offset flash off" and "vmalloc env QSPI_HUGE_PAGE_SIZE"
  shows "qspi_write io env flash buf n off = Some (Inl e, off, f3)"
  using assms by (simp add: qspi_write_def Let_def)

lemma demo_write_two_pages:
  "\<exists>f3. qspi_write_loop mock_io (replicate 4096 0x11) 8192 0 0 demo_flash
           = Some (Inl EFAULT, 4096, f3)
        \<and> c_mem (m_chip (qspi_regs f3) 0)
            = chip_program (chip_erase (c_mem (demo_chips 0)) 0 12) 0 (replicate 4096 0x11)"
proof -
  have d: "(5 :: nat) \<le> 16" "(16 :: nat) < 2 ^ 32" "(0 :: nat) < 2" by simp_all
  have x: "sector (qspi_offset2faddr 0) = 0" by (simp add: qspi_offset2faddr_def)
  have ea: "ear_after 0xff 0 0 = (0 :: u8)" by (simp add: ear_after_def)
  have ca: "chip_at 0 0 = 0" by (simp add: chip_at_def)
  have sz1: "qspi_get_page_io_size 0 8192 = QSPI_PAGE_SIZE"
    by (simp add: qspi_get_page_io_size_def IS_ALIGNED_def QSPI_PAGE_SIZE_def
        QSPI_LARGE_PAGE_SIZE_def QSPI_HUGE_PAGE_SIZE_def)
  have sz2: "qspi_get_page_io_size 4096 4096 = QSPI_PAGE_SIZE"
    by (simp add: qspi_get_page_io_size_def IS_ALIGNED_def QSPI_PAGE_SIZE_def
        QSPI_LARGE_PAGE_SIZE_def QSPI_HUGE_PAGE_SIZE_def)
  have nz: "QSPI_PAGE_SIZE \<noteq> 0" by (simp add: QSPI_PAGE_SIZE_def)
  have ub: "unat QSPI_PAGE_SIZE \<le> length (replicate 4096 (0x11 :: u8))"
    by (simp add: QSPI_PAGE_SIZE_def)
  have tk: "take (unat QSPI_PAGE_SIZE) (replicate 4096 (0x11 :: u8)) = replicate 4096 0x11"
    by (simp add: QSPI_PAGE_SIZE_def)
  from mock_page_wr[OF d demo_flash_rest sz1 nz ub]
  obtain f1 where r1: "qspi_page_wr mock_io demo_flash (replicate 4096 0x11) 0 8192
        = Some (Inr QSPI_PAGE_SIZE, f1)"
    and a1: "mock_rest 16 0 Micron 0x1000000 0 0
             (chip_program (chip_erase (c_mem (demo_chips 0)) 0 12) 0 (replicate 4096 0x11))
             demo_chips f1"
    unfolding x ea ca erase_op_4k tk by blast
  have r2: "qspi_page_wr mock_io f1 [] 4096 4096 = Some (Inl EFAULT, f1)"
    unfolding qspi_page_wr_def Let_def sz2 by (simp add: QSPI_PAGE_SIZE_def)
  have step2: "qspi_write_loop mock_io (replicate 4096 0x11) 8192 0 4096 f1
        = Some (Inl EFAULT, 4096, f1)"
    by (subst qspi_write_loop.simps) (simp add: r2)
  have "qspi_write_loop mock_io (replicate 4096 0x11) 8192 0 0 demo_flash
        = Some (Inl EFAULT, 4096, f1)"
    by (subst qspi_write_loop.simps) (simp add: r1 QSPI_PAGE_SIZE_def step2)
  thus ?thesis using mock_rest_facts(4)[OF a1] by blast
qed

text \<open>C2, as the specification states it, at a write of two 4KB pages at offset 0 from a user
  buffer of which only the first 4096 bytes can be read. The first page is erased and
  programmed (cells 0 to 4095 of the chip go from 0x5A to the user's 0x11), then
  \<^verbatim>\<open>copy_from_user\<close> fails for the second chunk: the loop is left with \<^verbatim>\<open>ret = - EFAULT\<close> and
  \<^verbatim>\<open>cnt = 4096\<close>, and \<^verbatim>\<open>qspi_write\<close> returns \<^verbatim>\<open>- EFAULT\<close> alone, without the 4096 bytes
  written, and leaves \<^verbatim>\<open>*off\<close> at 0.\<close>

theorem qspi_write_second_chunk_failure_discards_count:
  "c_mem (m_chip (qspi_regs demo_flash) 0) 0 = 0x5A
   \<and> (\<exists>f3. qspi_write_loop mock_io (replicate 4096 0x11) 8192 0 0 demo_flash
                = Some (Inl EFAULT, 4096, f3)
           \<and> qspi_write mock_io kernel_ok demo_flash (replicate 4096 0x11) 8192 0
                = Some (Inl EFAULT, 0, f3)
           \<and> c_mem (m_chip (qspi_regs f3) 0) 0 = 0x11
           \<and> c_mem (m_chip (qspi_regs f3) 0) 4095 = 0x11
           \<and> c_mem (m_chip (qspi_regs f3) 0) 4096 = 0x5A)"
proof -
  let ?mem = "chip_program (chip_erase (c_mem (demo_chips 0)) 0 12) 0 (replicate 4096 0x11)"
  obtain f3 where l: "qspi_write_loop mock_io (replicate 4096 0x11) 8192 0 0 demo_flash
                = Some (Inl EFAULT, 4096, f3)"
    and m: "c_mem (m_chip (qspi_regs f3) 0) = ?mem"
    using demo_write_two_pages by blast
  have sl: "slave (qspi_offset2faddr 0) = 0" by (simp add: qspi_offset2faddr_def)
  have w: "qspi_wait_until_ready mock_io
             (demo_flash\<lparr>qspi_curr_slave := uint (slave (qspi_offset2faddr 0))\<rparr>) = (True, demo_flash)"
    unfolding sl using demo_flash_slave[of 0] mock_wait_until_ready[of 16 0 "0xff" demo_chips "replicate 16 0" Micron "0x1000000"]
    by (simp add: demo_flash_def)
  have mn: "min 8192 (flash_size demo_flash - 0) = (8192 :: 64 word)"
    by (simp add: demo_flash_def mock_flash_sel)
  have l': "qspi_write_loop mock_io (replicate 4096 0x11)
       (min 8192 (flash_size demo_flash - 0)) 0 0 demo_flash = Some (Inl EFAULT, 4096, f3)"
    unfolding mn by (rule l)
  have v: "is_valid_offset demo_flash 0"
    by (simp add: is_valid_offset_def qspi_offset2faddr_def qspi_faddr2offset_def Let_def
        demo_flash_def mock_flash_sel)
  have k: "vmalloc kernel_ok QSPI_HUGE_PAGE_SIZE"
    by (simp add: vmalloc_def kernel_ok_def QSPI_HUGE_PAGE_SIZE_def)
  have r: "qspi_write mock_io kernel_ok demo_flash (replicate 4096 0x11) 8192 0
            = Some (Inl EFAULT, 0, f3)"
    by (rule qspi_write_error_result[OF l' w _ v k]) simp
  have a0: "?mem 0 = 0x11"
    by (simp add: chip_program_def chip_erase_def)
  have a1: "?mem 4095 = 0x11"
    by (simp add: chip_program_def chip_erase_def)
  have a2: "?mem 4096 = 0x5A"
    by (simp add: chip_program_def chip_erase_def demo_chips_def)
  have "c_mem (m_chip (qspi_regs demo_flash) 0) 0 = 0x5A"
    by (simp add: demo_flash_def mock_flash_def mock_hw_idle_def demo_chips_def)
  thus ?thesis using l r m a0 a1 a2 by auto
qed

text \<open>C2, amended. When the loop of \<^verbatim>\<open>qspi_write\<close> is left with an error \<^verbatim>\<open>e\<close> after
  \<^verbatim>\<open>cnt\<close> bytes were written, \<^verbatim>\<open>qspi_write\<close> returns the error \<^verbatim>\<open>e\<close> alone: the count
  \<^verbatim>\<open>cnt\<close> is not part of the result and \<^verbatim>\<open>*off\<close> is not advanced, while the controller, and
  so the flash, stays as the chunks written before the failure left it. This holds on every
  hardware.\<close>

theorem qspi_write_failure_returns_error_only:
  assumes "qspi_write_loop io buf (min n (flash_size flash - off)) off 0 f2 = Some (Inl e, cnt, f3)"
    and "qspi_wait_until_ready io (flash\<lparr>qspi_curr_slave := uint (slave (qspi_offset2faddr off))\<rparr>)
           = (True, f2)"
    and "n \<noteq> 0" and "is_valid_offset flash off" and "vmalloc env QSPI_HUGE_PAGE_SIZE"
  shows "qspi_write io env flash buf n off = Some (Inl e, off, f3)"
  using assms by (rule qspi_write_error_result)

theorem qspi_write_failure_returns_error_only_witness:
  "\<exists>f3. qspi_write_loop mock_io (replicate 4096 0x11) (min 8192 (flash_size demo_flash - 0)) 0 0
            demo_flash = Some (Inl EFAULT, 4096, f3)
     \<and> qspi_wait_until_ready mock_io
          (demo_flash\<lparr>qspi_curr_slave := uint (slave (qspi_offset2faddr 0))\<rparr>) = (True, demo_flash)
     \<and> (8192 :: size_t) \<noteq> 0 \<and> is_valid_offset demo_flash 0
     \<and> vmalloc kernel_ok QSPI_HUGE_PAGE_SIZE
     \<and> qspi_write mock_io kernel_ok demo_flash (replicate 4096 0x11) 8192 0
          = Some (Inl EFAULT, 0, f3)"
proof -
  have mn: "min 8192 (flash_size demo_flash - 0) = (8192 :: 64 word)"
    by (simp add: demo_flash_def mock_flash_sel)
  obtain f3 where l: "qspi_write_loop mock_io (replicate 4096 0x11)
       (min 8192 (flash_size demo_flash - 0)) 0 0 demo_flash = Some (Inl EFAULT, 4096, f3)"
    unfolding mn using demo_write_two_pages by blast
  have sl: "slave (qspi_offset2faddr 0) = 0" by (simp add: qspi_offset2faddr_def)
  have w: "qspi_wait_until_ready mock_io
             (demo_flash\<lparr>qspi_curr_slave := uint (slave (qspi_offset2faddr 0))\<rparr>) = (True, demo_flash)"
    unfolding sl using demo_flash_slave[of 0] mock_wait_until_ready[of 16 0 "0xff" demo_chips "replicate 16 0" Micron "0x1000000"]
    by (simp add: demo_flash_def)
  have n: "(8192 :: size_t) \<noteq> 0" by simp
  have v: "is_valid_offset demo_flash 0"
    by (simp add: is_valid_offset_def qspi_offset2faddr_def qspi_faddr2offset_def Let_def
        demo_flash_def mock_flash_sel)
  have k: "vmalloc kernel_ok QSPI_HUGE_PAGE_SIZE"
    by (simp add: vmalloc_def kernel_ok_def QSPI_HUGE_PAGE_SIZE_def)
  from qspi_write_failure_returns_error_only[OF l w n v k]
  show ?thesis using l w n v k by blast
qed

subsection \<open>Stream reads and writes at the end of the flash\<close>

text \<open>A request of no bytes, or at an offset that \<^verbatim>\<open>is_valid_offset\<close> refuses, transfers
  nothing: a read returns 0 and a write \<^verbatim>\<open>- ENOSPC\<close>, on every hardware.\<close>

lemma qspi_read_out_of_boundary:
  "n = 0 \<or> \<not> is_valid_offset flash off \<Longrightarrow>
   qspi_read io env flash n off = Some (Inr (0, []), off, flash)"
  by (simp add: qspi_read_def)

lemma qspi_write_out_of_boundary:
  "n = 0 \<or> \<not> is_valid_offset flash off \<Longrightarrow>
   qspi_write io env flash buf n off = Some (Inl ENOSPC, off, flash)"
  by (simp add: qspi_write_def)

lemma mock_buf_read_len:
  assumes D: "9 \<le> D" "D < 2 ^ 32" and s: "s < 2"
    and sec: "\<And>i. i < unat L \<Longrightarrow> sector (qspi_offset2faddr (off + of_nat i)) = x"
    and st: "mock_rest D s v sz c e mem oth f"
    and nz: "L \<noteq> 0"
  shows "\<exists>b f' e'. qspi_buf_rdwr mock_io f [] off L False = Some (Inr (), b, f')
          \<and> length b = unat L \<and> mock_rest D s v sz x e' mem oth f'"
proof -
  have "\<exists>f' c' e'. (if L \<noteq> 0 then qspi_buf_rdwr mock_io f [] off L False else Some (Inr (), [], f))
            = Some (Inr (), map (\<lambda>i. mem (chip_at (ear_after c e x) off + of_nat i)) [0..<unat L], f')
          \<and> mock_rest D s v sz c' e' mem oth f' \<and> ear_after c' e' x = ear_after c e x
          \<and> (L = 0 \<or> c' = x)"
    using D s sec st by (rule mock_buf_read)
  thus ?thesis using nz by auto
qed

lemma demo_slave1_rest:
  "mock_rest 16 1 Micron 0x1000000 0xff 0 (c_mem (demo_chips 1)) demo_chips
     (mock_flash 16 0xff 1 demo_chips (replicate 16 0) Micron 0x1000000)"
proof -
  have a: "length (replicate 16 (0 :: u8)) = 16" by simp
  have b: "c_ear (demo_chips 1) = 0" by (simp add: demo_chips_def)
  have c: "demo_chips = demo_chips(1 := demo_chips 1)" by simp
  show ?thesis using a refl b c by (rule mock_restI)
qed

lemma far_offset_facts:
  "slave (qspi_offset2faddr 0x0100000000FFFFF6) = 1"
  "sector (qspi_offset2faddr 0x0100000000FFFFF6) = 0"
  "sector (qspi_offset2faddr 0x0100000001000000) = 1"
  "QSPI_PAGE_ALIGN 0x0100000000FFFFF6 = 0x0100000000FFF000"
  "QSPI_PAGE_OFFSET 0x0100000000FFFFF6 = 0xFF6"
  "QSPI_PAGE_ALIGN 0x0100000001000000 = 0x0100000001000000"
  "QSPI_PAGE_OFFSET 0x0100000001000000 = 0"
  "QSPI_PAGE_ROUNDUP 0x0100000000FFFFF6 = 0x0100000001000000"
  "QSPI_PAGE_ROUNDUP 0x0100000001000000 = 0x0100000001001000"
  by (simp_all add: qspi_offset2faddr_def QSPI_PAGE_ALIGN_def QSPI_PAGE_OFFSET_def
      QSPI_PAGE_ROUNDUP_def round_up_def QSPI_PAGE_MASK_def QSPI_PAGE_SIZE_def)

lemma far_offset_valid:
  "is_valid_offset demo_flash 0x0100000000FFFFF6"
  "min 100 (flash_size demo_flash - 0x0100000000FFFFF6) = 100"
  by (simp_all add: is_valid_offset_def qspi_offset2faddr_def qspi_faddr2offset_def Let_def
      demo_flash_def mock_flash_sel)

lemma far_first_sector:
  "i < unat (10 :: 64 word) \<Longrightarrow> sector (qspi_offset2faddr (0x0100000000FFFFF6 + of_nat i)) = 0"
proof -
  assume "i < unat (10 :: 64 word)"
  hence i: "4086 + i < 4096" by simp
  have "(0x0100000000FFFFF6 :: 64 word) + of_nat i
          = QSPI_PAGE_ALIGN 0x0100000000FFFFF6 + of_nat (4086 + i)"
    by (simp add: far_offset_facts)
  thus ?thesis using page_sector[OF i, of "0x0100000000FFFFF6"] by (simp add: far_offset_facts)
qed

lemma far_second_sector:
  "i < unat (90 :: 64 word) \<Longrightarrow> sector (qspi_offset2faddr (0x0100000001000000 + of_nat i)) = 1"
proof -
  assume "i < unat (90 :: 64 word)"
  hence i: "i < 4096" by simp
  show ?thesis using page_sector[OF i, of "0x0100000001000000"] by (simp add: far_offset_facts)
qed

lemma read_loop_step:
  assumes "cnt < n"
    and "qspi_buf_rdwr io flash [] (off + cnt) L False = Some (Inr (), b, f1)"
    and "min (n - cnt) (QSPI_PAGE_ROUNDUP (off + cnt) - (off + cnt)) = L"
    and "length b = unat L"
  shows "qspi_do_read_loop io n off cnt kbuf flash
           = qspi_do_read_loop io n off (cnt + L) (kbuf @ b) f1"
  using assms by (subst qspi_do_read_loop.simps) (simp add: Let_def)

lemma demo_read_far:
  "\<exists>data f'. qspi_read mock_io kernel_ok demo_flash 100 0x0100000000FFFFF6
        = Some (Inr (100, data), 0x010000000100005A, f')
      \<and> length data = 100 \<and> qspi_curr_sector f' = 1"
proof -
  let ?off = "0x0100000000FFFFF6 :: 64 word"
  let ?mem = "c_mem (demo_chips 1)"
  let ?f1 = "mock_flash 16 0xff 1 demo_chips (replicate 16 0) Micron 0x1000000"
  have d: "(9 :: nat) \<le> 16" "(16 :: nat) < 2 ^ 32" "(1 :: nat) < 2" by simp_all
  have s1: "mock_rest 16 1 Micron 0x1000000 0xff 0 ?mem demo_chips ?f1"
    by (rule demo_slave1_rest)
  have nz1: "(10 :: 64 word) \<noteq> 0" by simp
  from mock_buf_read_len[OF d far_first_sector s1 nz1]
  obtain b1 f2 e1 where r1: "qspi_buf_rdwr mock_io ?f1 [] ?off 10 False = Some (Inr (), b1, f2)"
    and l1: "length b1 = unat (10 :: 64 word)"
    and s2: "mock_rest 16 1 Micron 0x1000000 0 e1 ?mem demo_chips f2"
    by blast
  have nz2: "(90 :: 64 word) \<noteq> 0" by simp
  from mock_buf_read_len[OF d far_second_sector s2 nz2]
  obtain b2 f3 e2 where r2: "qspi_buf_rdwr mock_io f2 [] 0x0100000001000000 90 False = Some (Inr (), b2, f3)"
    and l2: "length b2 = unat (90 :: 64 word)"
    and a2: "mock_rest 16 1 Micron 0x1000000 1 e2 ?mem demo_chips f3"
    by blast
  have it3: "qspi_do_read_loop mock_io 100 ?off 100 (b1 @ b2) f3 = Some (Inr (), b1 @ b2, f3)"
    by (subst qspi_do_read_loop.simps) simp
  have it2: "qspi_do_read_loop mock_io 100 ?off 10 b1 f2 = Some (Inr (), b1 @ b2, f3)"
    using read_loop_step[of 10 100 mock_io f2 ?off 90 b2 f3 b1] r2 l2 it3
    by (simp add: far_offset_facts)
  have it1: "qspi_do_read_loop mock_io 100 ?off 0 [] ?f1 = Some (Inr (), b1 @ b2, f3)"
    using read_loop_step[of 0 100 mock_io ?f1 ?off 10 b1 f2 "[]"] r1 l1 it2
    by (simp add: far_offset_facts)
  have w: "qspi_wait_until_ready mock_io ?f1 = (True, ?f1)"
    by (rule mock_wait_until_ready) simp_all
  have k: "vmalloc kernel_ok QSPI_PAGE_SIZE" "vmalloc kernel_ok 100" "copy_to_user_ok kernel_ok"
    by (simp_all add: vmalloc_def kernel_ok_def QSPI_PAGE_SIZE_def)
  have sl: "demo_flash\<lparr>qspi_curr_slave := uint (slave (qspi_offset2faddr ?off))\<rparr> = ?f1"
    using demo_flash_slave[of 1] by (simp add: far_offset_facts)
  have dr: "qspi_do_read mock_io kernel_ok demo_flash 100 ?off = Some (Inr (), b1 @ b2, f3)"
    unfolding qspi_do_read_def Let_def sl using k w it1 by simp
  have rd: "qspi_read mock_io kernel_ok demo_flash 100 ?off
        = Some (Inr (100, b1 @ b2), 0x010000000100005A, f3)"
    unfolding qspi_read_def Let_def far_offset_valid(2)
    using far_offset_valid(1) l1 l2 k dr by simp
  have "qspi_curr_sector f3 = 1" using mock_rest_facts(1)[OF a2] .
  thus ?thesis using rd l1 l2 by auto
qed

text \<open>C7, at a failing input. On the 16MB flash, the offset 0x0100000000FFFFF6 is 10 bytes
  before the end of the chip of slave 1, and \<^verbatim>\<open>is_valid_offset\<close>, which clears the slave
  byte before it compares, accepts it. The clamp \<^verbatim>\<open>min(n, flash_size - *off)\<close> does not clear
  the slave byte: the difference wraps around, and a read of 100 bytes stays a read of 100
  bytes. \<^verbatim>\<open>qspi_read\<close> returns 100, with 100 bytes, advances \<^verbatim>\<open>*off\<close> by 100 and leaves the
  controller on sector 1, which the 16MB chip does not have.\<close>

theorem qspi_read_slave_offset_not_clamped:
  "flash_size demo_flash = 0x1000000
   \<and> is_valid_offset demo_flash 0x0100000000FFFFF6
   \<and> qspi_faddr2offset ((qspi_offset2faddr 0x0100000000FFFFF6)\<lparr>slave := 0\<rparr>) = 0x1000000 - 10
   \<and> min 100 (flash_size demo_flash - 0x0100000000FFFFF6) = 100
   \<and> (\<exists>data f'. qspi_read mock_io kernel_ok demo_flash 100 0x0100000000FFFFF6
                   = Some (Inr (100, data), 0x0100000000FFFFF6 + 100, f')
          \<and> length data = 100 \<and> qspi_curr_sector f' = 1)"
proof -
  have "flash_size demo_flash = 0x1000000" by (simp add: demo_flash_def mock_flash_sel)
  moreover have "qspi_faddr2offset ((qspi_offset2faddr 0x0100000000FFFFF6)\<lparr>slave := 0\<rparr>)
                   = 0x1000000 - 10"
    by (simp add: qspi_offset2faddr_def qspi_faddr2offset_def Let_def)
  ultimately show ?thesis using far_offset_valid demo_read_far by simp
qed

lemma demo_write_far:
  "\<exists>f'. qspi_write mock_io kernel_ok demo_flash (replicate 100 0x11) 100 0x0100000000FFFFF6
        = Some (Inr 100, 0x010000000100005A, f')
      \<and> c_mem (m_chip (qspi_regs f') 1) 0x1000000 = 0x11 \<and> qspi_curr_sector f' = 1"
proof -
  let ?off = "0x0100000000FFFFF6 :: 64 word"
  let ?off2 = "0x0100000001000000 :: 64 word"
  let ?mem = "c_mem (demo_chips 1)"
  let ?f1 = "mock_flash 16 0xff 1 demo_chips (replicate 16 0) Micron 0x1000000"
  let ?ubuf = "replicate 100 (0x11 :: u8)"
  have d: "(9 :: nat) \<le> 16" "(16 :: nat) < 2 ^ 32" "(1 :: nat) < 2" by simp_all
  have m1: "min 100 (QSPI_PAGE_SIZE - QSPI_PAGE_OFFSET ?off) = 10"
    by (simp add: far_offset_facts QSPI_PAGE_SIZE_def)
  have m2: "min 90 (QSPI_PAGE_SIZE - QSPI_PAGE_OFFSET ?off2) = 90"
    by (simp add: far_offset_facts QSPI_PAGE_SIZE_def)
  have m1a: "min 100 (QSPI_PAGE_SIZE - 4086) = 10"
    by (simp add: QSPI_PAGE_SIZE_def)
  have m2a: "min 90 (QSPI_PAGE_SIZE - 0) = 90"
    by (simp add: QSPI_PAGE_SIZE_def)
  have s1: "mock_rest 16 1 Micron 0x1000000 0xff 0 ?mem demo_chips ?f1"
    by (rule demo_slave1_rest)
  have ea: "ear_after 0xff 0 0 = (0 :: u8)" "ear_after 0 0 1 = (1 :: u8)"
    by (simp_all add: ear_after_def)
  have ca: "chip_at 1 0x0100000001000000 = 0x1000000" by (simp add: chip_at_def)
  have ub1: "unat (min 100 (QSPI_PAGE_SIZE - QSPI_PAGE_OFFSET ?off)) \<le> length ?ubuf"
    unfolding m1 by simp
  from mock_page_rmw[OF d s1 ub1]
  obtain f2 mem1 where r1: "qspi_page_rmw mock_io ?f1 ?ubuf ?off 100 = Some (Inr 10, f2)"
    and s2: "mock_rest 16 1 Micron 0x1000000 0 0 mem1 demo_chips f2"
    unfolding far_offset_facts m1a ea by blast
  have ub2: "unat (min 90 (QSPI_PAGE_SIZE - QSPI_PAGE_OFFSET ?off2)) \<le> length (drop 10 ?ubuf)"
    unfolding m2 by simp
  from mock_page_rmw[OF d s2 ub2]
  obtain f3 mem2 where r2: "qspi_page_rmw mock_io f2 (drop 10 ?ubuf) ?off2 90 = Some (Inr 90, f3)"
    and a2: "mock_rest 16 1 Micron 0x1000000 1 1 mem2 demo_chips f3"
    and v2: "\<And>i. i < 4096 \<Longrightarrow> mem2 (0x1000000 + of_nat i) =
                (if i < 90 then drop 10 ?ubuf ! i else mem1 (0x1000000 + of_nat i))"
    unfolding far_offset_facts m2a ea ca by auto
  have z1: "qspi_get_page_io_size (?off + 0) (100 - 0) = 0"
    by (simp add: page_io_size_spec)
  have z2: "qspi_get_page_io_size (?off + 10) (100 - 10) = 0"
    by (simp add: page_io_size_spec)
  have it3: "qspi_write_loop mock_io ?ubuf 100 ?off 100 f3 = Some (Inr (), 100, f3)"
    by (subst qspi_write_loop.simps) simp
  have it2: "qspi_write_loop mock_io ?ubuf 100 ?off 10 f2 = Some (Inr (), 100, f3)"
    using write_loop_rmw_step[of 10 100 ?off mock_io f2 ?ubuf 90 f3] z2 r2 it3
    by simp
  have it1: "qspi_write_loop mock_io ?ubuf 100 ?off 0 ?f1 = Some (Inr (), 100, f3)"
    using write_loop_rmw_step[of 0 100 ?off mock_io ?f1 ?ubuf 10 f2] z1 r1 it2
    by simp
  have w: "qspi_wait_until_ready mock_io ?f1 = (True, ?f1)"
    by (rule mock_wait_until_ready) simp_all
  have k: "vmalloc kernel_ok QSPI_HUGE_PAGE_SIZE"
    by (simp add: vmalloc_def kernel_ok_def QSPI_HUGE_PAGE_SIZE_def)
  have sl: "demo_flash\<lparr>qspi_curr_slave := uint (slave (qspi_offset2faddr ?off))\<rparr> = ?f1"
    using demo_flash_slave[of 1] by (simp add: far_offset_facts)
  have wr: "qspi_write mock_io kernel_ok demo_flash ?ubuf 100 ?off
        = Some (Inr 100, 0x010000000100005A, f3)"
    unfolding qspi_write_def Let_def far_offset_valid(2) sl
    using far_offset_valid(1) k w it1 by simp
  have "c_mem (m_chip (qspi_regs f3) 1) = mem2" using mock_rest_facts(4)[OF a2] .
  moreover have "mem2 0x1000000 = 0x11" using v2[of 0] by simp
  moreover have "qspi_curr_sector f3 = 1" using mock_rest_facts(1)[OF a2] .
  ultimately show ?thesis using wr by auto
qed

text \<open>C8, at a failing input. At the same offset, 10 bytes before the end of the chip of
  slave 1, a write of 100 bytes is not clamped either: \<^verbatim>\<open>qspi_write\<close> returns 100, advances
  \<^verbatim>\<open>*off\<close> by 100 and has gone through two read-modify-write pages, the second one in
  sector 1: the cell at chip address 0x1000000, the first one after the 16MB, held 0x5A and
  holds the user's 0x11.\<close>

theorem qspi_write_slave_offset_not_clamped:
  "flash_size demo_flash = 0x1000000
   \<and> is_valid_offset demo_flash 0x0100000000FFFFF6
   \<and> min 100 (flash_size demo_flash - 0x0100000000FFFFF6) = 100
   \<and> c_mem (m_chip (qspi_regs demo_flash) 1) 0x1000000 = 0x5A
   \<and> (\<exists>f'. qspi_write mock_io kernel_ok demo_flash (replicate 100 0x11) 100 0x0100000000FFFFF6
                   = Some (Inr 100, 0x0100000000FFFFF6 + 100, f')
          \<and> c_mem (m_chip (qspi_regs f') 1) 0x1000000 = 0x11 \<and> qspi_curr_sector f' = 1)"
proof -
  have "flash_size demo_flash = 0x1000000" by (simp add: demo_flash_def mock_flash_sel)
  moreover have "c_mem (m_chip (qspi_regs demo_flash) 1) 0x1000000 = 0x5A"
    by (simp add: demo_flash_def mock_flash_def mock_hw_idle_def demo_chips_def)
  ultimately show ?thesis using far_offset_valid demo_write_far by simp
qed

subsection \<open>Full pages and the fallback\<close>




end
